theory Spec2Isabelle
  imports Main
begin

section \<open>Dates, times and time zones\<close>

text \<open>
  The program works on Python \<^verbatim>\<open>datetime\<close> values. A \<^verbatim>\<open>datetime\<close> is a wall-clock
  reading (proleptic Gregorian date and time of day, at microsecond resolution) together
  with an optional \<^verbatim>\<open>tzinfo\<close>. The wall-clock reading is kept as one integer,

    \<^verbatim>\<open>wall = date.toordinal() * 86400000000 + microseconds since midnight\<close>

  so that \<^verbatim>\<open>dt.date()\<close> is \<open>wall div DAY\<close> (the proleptic ordinal, day 1 is 0001-01-01,
  a Monday) and \<^verbatim>\<open>dt.time()\<close> is \<open>wall mod DAY\<close>. Adding a \<^verbatim>\<open>timedelta\<close> adds to the
  wall-clock reading and leaves the \<^verbatim>\<open>tzinfo\<close> alone, as Python does.

  The zone returned by \<^verbatim>\<open>local_tz()\<close> is \<^verbatim>\<open>datetime.now().astimezone().tzinfo\<close>, a
  \<^verbatim>\<open>datetime.timezone\<close> with a fixed offset from UTC; a \<^verbatim>\<open>tzinfo\<close> is therefore its
  offset in microseconds, and \<^verbatim>\<open>timezone.utc\<close> is offset 0.

  Two things are outside the model. The calendar is not cut off at the years 1 and 9999
  (where Python raises \<^verbatim>\<open>OverflowError\<close>); and the clock and the zone of the machine are
  read once for each operation (the record \<open>env\<close> below), not once for each call of
  \<^verbatim>\<open>now_utc()\<close> or \<^verbatim>\<open>local_tz()\<close> inside it.
\<close>

datatype error = ValueError | TypeError | KeyError | IntegrityError

type_synonym date = int
type_synonym time = int
type_synonym timedelta = int
type_synonym tzinfo = int

record datetime =
  wall :: int
  tzinfo :: "tzinfo option"

definition MINUTE :: timedelta where
  "MINUTE = 60000000"

definition DAY :: timedelta where
  "DAY = 86400000000"

definition utc :: tzinfo where
  "utc = 0"

definition date_of :: "datetime \<Rightarrow> date" where
  "date_of dt = wall dt div DAY"

definition time_of :: "datetime \<Rightarrow> time" where
  "time_of dt = wall dt mod DAY"

text \<open>\<^verbatim>\<open>date.weekday()\<close> is \<^verbatim>\<open>(self.toordinal() + 6) % 7\<close>: Monday is 0, Sunday is 6.\<close>

definition date_weekday :: "date \<Rightarrow> int" where
  "date_weekday d = (d + 6) mod 7"

definition weekday :: "datetime \<Rightarrow> int" where
  "weekday dt = date_weekday (date_of dt)"

text \<open>\<^verbatim>\<open>datetime.combine(d, t, tzinfo=tz)\<close>\<close>

definition combine :: "date \<Rightarrow> time \<Rightarrow> tzinfo option \<Rightarrow> datetime" where
  "combine d t tz = \<lparr>wall = d * DAY + t, tzinfo = tz\<rparr>"

text \<open>\<^verbatim>\<open>dt + timedelta\<close>: wall-clock arithmetic, the zone is kept.\<close>

definition dt_add :: "datetime \<Rightarrow> timedelta \<Rightarrow> datetime" where
  "dt_add dt td = dt\<lparr>wall := wall dt + td\<rparr>"

text \<open>\<^verbatim>\<open>dt.replace(tzinfo=tz)\<close>: the wall-clock reading is kept.\<close>

definition replace_tzinfo :: "datetime \<Rightarrow> tzinfo option \<Rightarrow> datetime" where
  "replace_tzinfo dt tz = dt\<lparr>tzinfo := tz\<rparr>"

text \<open>
  The instant of an aware datetime, as microseconds of UTC: \<^verbatim>\<open>dt - dt.utcoffset()\<close>.
  Python compares and subtracts two aware datetimes through it (when both carry the same
  \<^verbatim>\<open>tzinfo\<close> object it uses the wall-clock readings, which for a fixed offset is the
  same); two naive ones through their wall-clock readings; ordering a naive against an
  aware one raises \<^verbatim>\<open>TypeError\<close>.
\<close>

definition instant :: "datetime \<Rightarrow> tzinfo \<Rightarrow> int" where
  "instant dt off = wall dt - off"

definition dt_less :: "datetime \<Rightarrow> datetime \<Rightarrow> error + bool" where
  "dt_less a b =
     (case (tzinfo a, tzinfo b) of
        (None, None) \<Rightarrow> Inr (wall a < wall b)
      | (Some oa, Some ob) \<Rightarrow> Inr (instant a oa < instant b ob)
      | _ \<Rightarrow> Inl TypeError)"

definition dt_le :: "datetime \<Rightarrow> datetime \<Rightarrow> error + bool" where
  "dt_le a b =
     (case (tzinfo a, tzinfo b) of
        (None, None) \<Rightarrow> Inr (wall a \<le> wall b)
      | (Some oa, Some ob) \<Rightarrow> Inr (instant a oa \<le> instant b ob)
      | _ \<Rightarrow> Inl TypeError)"

text \<open>\<^verbatim>\<open>a - b\<close>\<close>

definition dt_sub :: "datetime \<Rightarrow> datetime \<Rightarrow> error + timedelta" where
  "dt_sub a b =
     (case (tzinfo a, tzinfo b) of
        (None, None) \<Rightarrow> Inr (wall a - wall b)
      | (Some oa, Some ob) \<Rightarrow> Inr (instant a oa - instant b ob)
      | _ \<Rightarrow> Inl TypeError)"

text \<open>\<^verbatim>\<open>dt.astimezone(tz)\<close> of an aware datetime: the same instant on the clock of \<open>tz\<close>.\<close>

definition astimezone :: "datetime \<Rightarrow> tzinfo \<Rightarrow> tzinfo \<Rightarrow> datetime" where
  "astimezone dt off tz = \<lparr>wall = instant dt off + tz, tzinfo = Some tz\<rparr>"

text \<open>The machine: what \<^verbatim>\<open>now_utc()\<close> and \<^verbatim>\<open>local_tz()\<close> read.\<close>

record env =
  clock :: int
  zone :: tzinfo

definition local_tz :: "env \<Rightarrow> tzinfo" where
  "local_tz e = zone e"

definition now_utc :: "env \<Rightarrow> datetime" where
  "now_utc e = \<lparr>wall = clock e, tzinfo = Some utc\<rparr>"

definition to_local :: "env \<Rightarrow> datetime \<Rightarrow> datetime" where
  "to_local e dt_utc =
     (let dt_utc = (if tzinfo dt_utc = None then replace_tzinfo dt_utc (Some utc) else dt_utc)
      in astimezone dt_utc (the (tzinfo dt_utc)) (local_tz e))"

definition to_utc :: "datetime \<Rightarrow> error + datetime" where
  "to_utc dt_local =
     (case tzinfo dt_local of
        None \<Rightarrow> Inl ValueError
      | Some off \<Rightarrow> Inr (astimezone dt_local off utc))"

section \<open>The period module\<close>

record WorkWeekWindow =
  start_local :: datetime
  end_local :: datetime

definition workweek_window_for :: "datetime \<Rightarrow> error + WorkWeekWindow" where
  "workweek_window_for dt_local =
     (if tzinfo dt_local = None then Inl ValueError
      else
        let d = date_of dt_local;
            weekday = weekday dt_local;
            monday = d - weekday;
            start = combine monday 0 (tzinfo dt_local);
            end = dt_add start (5 * DAY)
        in Inr \<lparr>start_local = start, end_local = end\<rparr>)"


text \<open>
  \<^verbatim>\<open>date.isoformat()\<close> is \<^verbatim>\<open>"%04d-%02d-%02d" % (year, month, day)\<close>; the year, month
  and day of an ordinal are found as \<^verbatim>\<open>_ord2ymd\<close> of the standard library finds them.
\<close>

definition digit :: "nat \<Rightarrow> char" where
  "digit n = ''0123456789'' ! n"

fun digits :: "nat \<Rightarrow> string" where
  "digits n = (if n < 10 then [digit n] else digits (n div 10) @ [digit (n mod 10)])"

declare digits.simps [simp del]

definition zfill :: "nat \<Rightarrow> string \<Rightarrow> string" where
  "zfill w s = replicate (w - length s) (CHR ''0'') @ s"

definition fmt_d :: "nat \<Rightarrow> int \<Rightarrow> string" where
  "fmt_d w n =
     (if n < 0 then CHR ''-'' # zfill (w - 1) (digits (nat (- n)))
      else zfill w (digits (nat n)))"

definition DAYS_IN_MONTH :: "int list" where
  "DAYS_IN_MONTH = [-1, 31, 28, 31, 30, 31, 30, 31, 31, 30, 31, 30, 31]"

definition DAYS_BEFORE_MONTH :: "int list" where
  "DAYS_BEFORE_MONTH = [-1, 0, 31, 59, 90, 120, 151, 181, 212, 243, 273, 304, 334]"

definition ord2ymd :: "date \<Rightarrow> int \<times> int \<times> int" where
  "ord2ymd n0 =
     (let n = n0 - 1;
          n400 = n div 146097; n = n mod 146097;
          year = n400 * 400 + 1;
          n100 = n div 36524; n = n mod 36524;
          n4 = n div 1461; n = n mod 1461;
          n1 = n div 365; n = n mod 365;
          year = year + n100 * 100 + n4 * 4 + n1
      in if n1 = 4 \<or> n100 = 4 then (year - 1, 12, 31)
         else
           let leapyear = (n1 = 3 \<and> (n4 \<noteq> 24 \<or> n100 = 3));
               month = (n + 50) div 32;
               preceding = DAYS_BEFORE_MONTH ! nat month + (if month > 2 \<and> leapyear then 1 else 0)
           in if preceding > n
              then
                let month = month - 1;
                    preceding = preceding
                      - (DAYS_IN_MONTH ! nat month + (if month = 2 \<and> leapyear then 1 else 0))
                in (year, month, n - preceding + 1)
              else (year, month, n - preceding + 1))"

definition isoformat :: "date \<Rightarrow> string" where
  "isoformat d =
     (case ord2ymd d of
        (year, month, day) \<Rightarrow> fmt_d 4 year @ ''-'' @ fmt_d 2 month @ ''-'' @ fmt_d 2 day)"

definition period_key_workweek :: "datetime \<Rightarrow> error + string" where
  "period_key_workweek dt_local =
     (case workweek_window_for dt_local of
        Inl e \<Rightarrow> Inl e
      | Inr w \<Rightarrow>
          let monday = isoformat (date_of (start_local w))
          in Inr (''workweek:'' @ monday))"

definition is_in_workweek :: "datetime \<Rightarrow> error + bool" where
  "is_in_workweek dt_local =
     (case workweek_window_for dt_local of
        Inl e \<Rightarrow> Inl e
      | Inr w \<Rightarrow>
          (case dt_le (start_local w) dt_local of
             Inl e \<Rightarrow> Inl e
           | Inr False \<Rightarrow> Inr False
           | Inr True \<Rightarrow> dt_less dt_local (end_local w)))"

definition next_reminder_datetime_local :: "datetime \<Rightarrow> time \<Rightarrow> datetime" where
  "next_reminder_datetime_local dt_local reminder_time =
     combine (date_of dt_local) reminder_time (tzinfo dt_local)"

text \<open>
  \<^verbatim>\<open>max(a, b)\<close> is \<^verbatim>\<open>b if b > a else a\<close> and \<^verbatim>\<open>min(a, b)\<close> is \<^verbatim>\<open>b if b < a else a\<close>:
  the first argument is returned when the two compare equal.
\<close>

definition dt_max :: "datetime \<Rightarrow> datetime \<Rightarrow> error + datetime" where
  "dt_max a b = (case dt_less a b of Inl e \<Rightarrow> Inl e | Inr c \<Rightarrow> Inr (if c then b else a))"

definition dt_min :: "datetime \<Rightarrow> datetime \<Rightarrow> error + datetime" where
  "dt_min a b = (case dt_less b a of Inl e \<Rightarrow> Inl e | Inr c \<Rightarrow> Inr (if c then b else a))"

text \<open>
  \<^verbatim>\<open>(b - a).total_seconds()\<close> is a float and \<^verbatim>\<open>int(seconds // 60)\<close> its floor division by
  60. The difference taken here is at most five days, a whole number of microseconds
  below \<open>2 ^ 53\<close>; the model computes the whole minutes on the microseconds.
\<close>

definition split_interval_by_workweek :: "env \<Rightarrow> datetime \<Rightarrow> datetime \<Rightarrow> error + int" where
  "split_interval_by_workweek e start_utc end_utc =
     (let start_utc = (if tzinfo start_utc = None then replace_tzinfo start_utc (Some utc) else start_utc);
          end_utc = (if tzinfo end_utc = None then replace_tzinfo end_utc (Some utc) else end_utc);
          start_l = to_local e start_utc;
          end_l = to_local e end_utc
      in case workweek_window_for start_l of
           Inl err \<Rightarrow> Inl err
         | Inr w \<Rightarrow>
             (case dt_max start_l (start_local w) of
                Inl err \<Rightarrow> Inl err
              | Inr a \<Rightarrow>
                  (case dt_min end_l (end_local w) of
                     Inl err \<Rightarrow> Inl err
                   | Inr b \<Rightarrow>
                       (case dt_le b a of
                          Inl err \<Rightarrow> Inl err
                        | Inr True \<Rightarrow> Inr 0
                        | Inr False \<Rightarrow>
                            (case dt_sub b a of
                               Inl err \<Rightarrow> Inl err
                             | Inr td \<Rightarrow> Inr (td div MINUTE))))))"


section \<open>Errors\<close>

text \<open>
  An exception is the left summand of the result; \<open>sum_bind\<close> runs the rest of a
  function body after a call that may raise.
\<close>

definition sum_bind :: "error + 'a \<Rightarrow> ('a \<Rightarrow> error + 'b) \<Rightarrow> error + 'b" where
  "sum_bind m f = (case m of Inl e \<Rightarrow> Inl e | Inr x \<Rightarrow> f x)"

section \<open>Models\<close>

datatype TaskType = WEEKLY_TIME_QUOTA | COMPLETE_ONCE

record WeekSchedule =
  active_weekdays :: "int list"

record Task =
  id' :: int
  title :: string
  task_type :: TaskType
  enabled :: bool
  schedule :: WeekSchedule
  weekly_goal_minutes :: "int option"
  period :: string

text \<open>
  The stored \<^verbatim>\<open>snoozed_until_utc\<close> is the \<^verbatim>\<open>isoformat()\<close> text of a datetime, read back
  with \<^verbatim>\<open>datetime.fromisoformat\<close>; the model keeps the datetime. \<open>None\<close> is SQL
  \<^verbatim>\<open>NULL\<close>. The same holds for the start and the end of a session.
\<close>

record SnoozeState =
  snoozed_until_utc :: "datetime option"
  skipped_date_local :: "string option"

record AppSettings =
  start_at_login :: bool
  repeat_interval_minutes :: int
  reminders_start_time :: time

section \<open>The repository\<close>

text \<open>
  The repository is the content of the SQLite database of \<^verbatim>\<open>db.py\<close>: the tables
  \<^verbatim>\<open>settings\<close>, \<^verbatim>\<open>tasks\<close>, \<^verbatim>\<open>sessions\<close>, \<^verbatim>\<open>completions\<close> and \<^verbatim>\<open>snoozes\<close>. Rows
  are kept in rowid order. \<^verbatim>\<open>tasks\<close> and \<^verbatim>\<open>sessions\<close> have \<^verbatim>\<open>AUTOINCREMENT\<close> keys, whose
  last value is \<open>task_seq\<close> and \<open>session_seq\<close>. \<^verbatim>\<open>snoozes\<close> has the task as its primary
  key and is a map; \<^verbatim>\<open>completions\<close> is unique in (task, period key) and is a set of such
  pairs (its column \<^verbatim>\<open>completed_utc\<close> is never read). The column \<^verbatim>\<open>reminder_time\<close> of
  \<^verbatim>\<open>tasks\<close> is never read either and is left out; \<^verbatim>\<open>active_weekdays\<close> is stored as the
  CSV text of \<^verbatim>\<open>sorted(set(days))\<close> and read back as that list. The three settings are
  kept as the values \<^verbatim>\<open>get_settings\<close> parses them to. Foreign keys are enforced
  (\<^verbatim>\<open>PRAGMA foreign_keys=ON\<close>): a row for a task that does not exist is refused with
  \<^verbatim>\<open>sqlite3.IntegrityError\<close>, and deleting a task deletes its rows in the other tables.
\<close>

record session =
  session_id :: int
  task_id :: int
  start_utc :: datetime
  end_utc :: "datetime option"
  manual_minutes :: int

record Repository =
  settings :: AppSettings
  tasks :: "Task list"
  task_seq :: int
  sessions :: "session list"
  session_seq :: int
  completions :: "(int \<times> string) set"
  snoozes :: "int \<rightharpoonup> SnoozeState"

definition task_exists :: "Repository \<Rightarrow> int \<Rightarrow> bool" where
  "task_exists repo tid = (\<exists>t \<in> set (tasks repo). id' t = tid)"

subsection \<open>Settings\<close>

definition get_settings :: "Repository \<Rightarrow> AppSettings" where
  "get_settings repo = settings repo"

definition set_start_at_login :: "Repository \<Rightarrow> bool \<Rightarrow> Repository" where
  "set_start_at_login repo enabled' = repo\<lparr>settings := (settings repo)\<lparr>start_at_login := enabled'\<rparr>\<rparr>"

definition set_repeat_interval_minutes :: "Repository \<Rightarrow> int \<Rightarrow> Repository" where
  "set_repeat_interval_minutes repo minutes =
     repo\<lparr>settings := (settings repo)\<lparr>repeat_interval_minutes := minutes\<rparr>\<rparr>"

text \<open>
  \<^verbatim>\<open>_parse_hhmm\<close>: the text is split at the colon and both parts are read as integers
  (\<open>None\<close> here when that fails); \<^verbatim>\<open>time(hh, mm)\<close> refuses an hour or a minute out of
  range; any failure gives the default.
\<close>

definition parse_hhmm :: "(int \<times> int) option \<Rightarrow> time \<Rightarrow> time" where
  "parse_hhmm s default' =
     (case s of
        None \<Rightarrow> default'
      | Some (hh, mm) \<Rightarrow>
          if 0 \<le> hh \<and> hh < 24 \<and> 0 \<le> mm \<and> mm < 60 then (hh * 60 + mm) * MINUTE else default')"

definition set_reminder_start_hhmm :: "Repository \<Rightarrow> (int \<times> int) option \<Rightarrow> Repository" where
  "set_reminder_start_hhmm repo hhmm =
     repo\<lparr>settings := (settings repo)\<lparr>reminders_start_time := parse_hhmm hhmm (9 * 60 * MINUTE)\<rparr>\<rparr>"

subsection \<open>Tasks\<close>

definition list_tasks :: "Repository \<Rightarrow> Task list" where
  "list_tasks repo = tasks repo"

definition get_task :: "Repository \<Rightarrow> int \<Rightarrow> error + Task" where
  "get_task repo tid =
     (case find (\<lambda>t. id' t = tid) (tasks repo) of
        None \<Rightarrow> Inl KeyError
      | Some t \<Rightarrow> Inr t)"

definition weekdays_to_csv :: "int list \<Rightarrow> int list" where
  "weekdays_to_csv days = sorted_list_of_set (set days)"

definition create_task ::
  "Repository \<Rightarrow> string \<Rightarrow> TaskType \<Rightarrow> bool \<Rightarrow> int list \<Rightarrow> int option \<Rightarrow> string \<Rightarrow> Repository \<times> int"
where
  "create_task repo title' task_type' enabled' active_weekdays' weekly_goal_minutes' period' =
     (let lastrowid = task_seq repo + 1;
          row = \<lparr>id' = lastrowid, title = title', task_type = task_type', enabled = enabled',
                 schedule = \<lparr>active_weekdays = weekdays_to_csv active_weekdays'\<rparr>,
                 weekly_goal_minutes = weekly_goal_minutes', period = period'\<rparr>
      in (repo\<lparr>tasks := tasks repo @ [row], task_seq := lastrowid\<rparr>, lastrowid))"

definition update_task ::
  "Repository \<Rightarrow> int \<Rightarrow> string \<Rightarrow> bool \<Rightarrow> int list \<Rightarrow> int option \<Rightarrow> Repository"
where
  "update_task repo tid title' enabled' active_weekdays' weekly_goal_minutes' =
     repo\<lparr>tasks :=
       map (\<lambda>t. if id' t = tid
                then t\<lparr>title := title', enabled := enabled',
                       schedule := \<lparr>active_weekdays = weekdays_to_csv active_weekdays'\<rparr>,
                       weekly_goal_minutes := weekly_goal_minutes'\<rparr>
                else t)
           (tasks repo)\<rparr>"

definition delete_task :: "Repository \<Rightarrow> int \<Rightarrow> Repository" where
  "delete_task repo tid =
     repo\<lparr>tasks := filter (\<lambda>t. id' t \<noteq> tid) (tasks repo),
           sessions := filter (\<lambda>r. task_id r \<noteq> tid) (sessions repo),
           completions := {c \<in> completions repo. fst c \<noteq> tid},
           snoozes := (snoozes repo)(tid := None)\<rparr>"

subsection \<open>Snooze and skip\<close>

definition get_snooze_state :: "Repository \<Rightarrow> int \<Rightarrow> SnoozeState" where
  "get_snooze_state repo tid =
     (case snoozes repo tid of
        None \<Rightarrow> \<lparr>snoozed_until_utc = None, skipped_date_local = None\<rparr>
      | Some r \<Rightarrow> r)"

definition set_snoozed_until_utc :: "Repository \<Rightarrow> int \<Rightarrow> datetime option \<Rightarrow> error + Repository" where
  "set_snoozed_until_utc repo tid iso_utc =
     (case snoozes repo tid of
        Some r \<Rightarrow> Inr (repo\<lparr>snoozes := (snoozes repo)(tid \<mapsto> r\<lparr>snoozed_until_utc := iso_utc\<rparr>)\<rparr>)
      | None \<Rightarrow>
          if task_exists repo tid
          then Inr (repo\<lparr>snoozes := (snoozes repo)
                 (tid \<mapsto> \<lparr>snoozed_until_utc = iso_utc, skipped_date_local = None\<rparr>)\<rparr>)
          else Inl IntegrityError)"

definition set_skipped_today_local :: "Repository \<Rightarrow> int \<Rightarrow> string option \<Rightarrow> error + Repository" where
  "set_skipped_today_local repo tid yyyy_mm_dd =
     (case snoozes repo tid of
        Some r \<Rightarrow> Inr (repo\<lparr>snoozes := (snoozes repo)(tid \<mapsto> r\<lparr>skipped_date_local := yyyy_mm_dd\<rparr>)\<rparr>)
      | None \<Rightarrow>
          if task_exists repo tid
          then Inr (repo\<lparr>snoozes := (snoozes repo)
                 (tid \<mapsto> \<lparr>snoozed_until_utc = None, skipped_date_local = yyyy_mm_dd\<rparr>)\<rparr>)
          else Inl IntegrityError)"

definition clear_snooze_and_skip :: "Repository \<Rightarrow> int \<Rightarrow> error + Repository" where
  "clear_snooze_and_skip repo tid =
     (case snoozes repo tid of
        Some r \<Rightarrow> Inr (repo\<lparr>snoozes := (snoozes repo)
                 (tid \<mapsto> \<lparr>snoozed_until_utc = None, skipped_date_local = None\<rparr>)\<rparr>)
      | None \<Rightarrow>
          if task_exists repo tid
          then Inr (repo\<lparr>snoozes := (snoozes repo)
                 (tid \<mapsto> \<lparr>snoozed_until_utc = None, skipped_date_local = None\<rparr>)\<rparr>)
          else Inl IntegrityError)"

subsection \<open>Sessions and progress\<close>

text \<open>A timed session that is still running: \<^verbatim>\<open>end_utc IS NULL AND manual_minutes=0\<close>.\<close>

definition open_timed :: "int \<Rightarrow> session \<Rightarrow> bool" where
  "open_timed tid r = (task_id r = tid \<and> end_utc r = None \<and> manual_minutes r = 0)"

definition insert_session :: "Repository \<Rightarrow> int \<Rightarrow> datetime \<Rightarrow> datetime option \<Rightarrow> int \<Rightarrow> error + Repository" where
  "insert_session repo tid start end minutes =
     (if task_exists repo tid
      then
        let rowid = session_seq repo + 1;
            row = \<lparr>session_id = rowid, task_id = tid, start_utc = start, end_utc = end,
                   manual_minutes = minutes\<rparr>
        in Inr (repo\<lparr>sessions := sessions repo @ [row], session_seq := rowid\<rparr>)
      else Inl IntegrityError)"

definition start_session :: "env \<Rightarrow> Repository \<Rightarrow> int \<Rightarrow> error + Repository" where
  "start_session e repo tid =
     (let running = find (open_timed tid) (sessions repo)
      in if running \<noteq> None then Inr repo
         else insert_session repo tid (now_utc e) None 0)"

definition stop_session :: "env \<Rightarrow> Repository \<Rightarrow> int \<Rightarrow> Repository" where
  "stop_session e repo tid =
     (case find (open_timed tid) (sessions repo) of
        None \<Rightarrow> repo
      | Some r \<Rightarrow>
          repo\<lparr>sessions :=
            map (\<lambda>x. if session_id x = session_id r then x\<lparr>end_utc := Some (now_utc e)\<rparr> else x)
                (sessions repo)\<rparr>)"

definition is_session_running :: "Repository \<Rightarrow> int \<Rightarrow> bool" where
  "is_session_running repo tid = (find (open_timed tid) (sessions repo) \<noteq> None)"

definition add_manual_minutes :: "env \<Rightarrow> Repository \<Rightarrow> int \<Rightarrow> int \<Rightarrow> error + Repository" where
  "add_manual_minutes e repo tid minutes =
     insert_session repo tid (now_utc e) (Some (now_utc e)) minutes"

text \<open>The loop of \<^verbatim>\<open>weekly_minutes_for_current_workweek\<close> over the rows of the task.\<close>

fun weekly_minutes_rows :: "env \<Rightarrow> string \<Rightarrow> session list \<Rightarrow> int \<Rightarrow> error + int" where
  "weekly_minutes_rows e pk [] total' = Inr total'"
| "weekly_minutes_rows e pk (r # rows) total' =
     (let manual = manual_minutes r
      in if manual > 0
         then
           let start = replace_tzinfo (start_utc r) (Some utc)
           in (case period_key_workweek (to_local e start) of
                 Inl err \<Rightarrow> Inl err
               | Inr k \<Rightarrow> weekly_minutes_rows e pk rows (if k = pk then total' + manual else total'))
         else
           let start = replace_tzinfo (start_utc r) (Some utc);
               end = (case end_utc r of
                        None \<Rightarrow> now_utc e
                      | Some end_iso \<Rightarrow> replace_tzinfo end_iso (Some utc))
           in (case period_key_workweek (to_local e start) of
                 Inl err \<Rightarrow> Inl err
               | Inr k \<Rightarrow>
                   if k \<noteq> pk then weekly_minutes_rows e pk rows total'
                   else
                     (case split_interval_by_workweek e start end of
                        Inl err \<Rightarrow> Inl err
                      | Inr m \<Rightarrow> weekly_minutes_rows e pk rows (total' + m))))"

definition weekly_minutes_for_current_workweek :: "env \<Rightarrow> Repository \<Rightarrow> int \<Rightarrow> error + int" where
  "weekly_minutes_for_current_workweek e repo tid =
     (let now_local = to_local e (now_utc e)
      in sum_bind (period_key_workweek now_local) (\<lambda>pk.
           let rows = filter (\<lambda>r. task_id r = tid) (sessions repo)
           in weekly_minutes_rows e pk rows 0))"

subsection \<open>Completion\<close>

definition is_completed_for_current_period :: "env \<Rightarrow> Repository \<Rightarrow> int \<Rightarrow> error + bool" where
  "is_completed_for_current_period e repo tid =
     (let now_local = to_local e (now_utc e)
      in sum_bind (period_key_workweek now_local) (\<lambda>pk.
           Inr ((tid, pk) \<in> completions repo)))"

definition mark_complete_for_current_period :: "env \<Rightarrow> Repository \<Rightarrow> int \<Rightarrow> error + Repository" where
  "mark_complete_for_current_period e repo tid =
     (let now_local = to_local e (now_utc e)
      in sum_bind (period_key_workweek now_local) (\<lambda>pk.
           if (tid, pk) \<in> completions repo then Inr repo
           else if task_exists repo tid
           then Inr (repo\<lparr>completions := insert (tid, pk) (completions repo)\<rparr>)
           else Inl IntegrityError))"

definition clear_completion_for_current_period :: "env \<Rightarrow> Repository \<Rightarrow> int \<Rightarrow> error + Repository" where
  "clear_completion_for_current_period e repo tid =
     (let now_local = to_local e (now_utc e)
      in sum_bind (period_key_workweek now_local) (\<lambda>pk.
           Inr (repo\<lparr>completions := completions repo - {(tid, pk)}\<rparr>)))"

text \<open>
  The loop of \<^verbatim>\<open>delete_sessions_for_current_workweek\<close>: the rows of the task are read
  first, then each row of the current period is deleted by its id.
\<close>

fun delete_sessions_rows :: "env \<Rightarrow> string \<Rightarrow> session list \<Rightarrow> Repository \<Rightarrow> error + Repository" where
  "delete_sessions_rows e pk [] repo = Inr repo"
| "delete_sessions_rows e pk (r # rows) repo =
     (let start = replace_tzinfo (start_utc r) (Some utc)
      in (case period_key_workweek (to_local e start) of
            Inl err \<Rightarrow> Inl err
          | Inr k \<Rightarrow>
              if k = pk
              then delete_sessions_rows e pk rows
                     (repo\<lparr>sessions := filter (\<lambda>x. session_id x \<noteq> session_id r) (sessions repo)\<rparr>)
              else delete_sessions_rows e pk rows repo))"

definition delete_sessions_for_current_workweek :: "env \<Rightarrow> Repository \<Rightarrow> int \<Rightarrow> error + Repository" where
  "delete_sessions_for_current_workweek e repo tid =
     (let now_local = to_local e (now_utc e)
      in sum_bind (period_key_workweek now_local) (\<lambda>pk.
           let rows = filter (\<lambda>r. task_id r = tid) (sessions repo)
           in delete_sessions_rows e pk rows repo))"

section \<open>The state engine\<close>

record TaskState =
  task_id :: int
  title :: string
  task_type :: TaskType
  enabled :: bool
  active_today :: bool
  in_workweek :: bool
  skipped_today :: bool
  snoozed :: bool
  snoozed_until_utc :: "datetime option"
  running :: bool
  completed_override :: bool
  done_by_minutes :: bool
  done' :: bool
  goal_minutes :: "int option"
  done_minutes :: "int option"
  can_remind_now :: bool
  reminder_message :: string
  status_text :: string

text \<open>\<^verbatim>\<open>str(n)\<close> of an integer, as an f-string prints it.\<close>

definition str_int :: "int \<Rightarrow> string" where
  "str_int n = fmt_d 0 n"

text \<open>
  The snooze part of \<^verbatim>\<open>compute_task_state\<close>: it returns the repository (changed when an
  expired snooze is cleared), the flag \<^verbatim>\<open>snoozed\<close> and the local \<^verbatim>\<open>snoozed_until\<close>.
\<close>

definition snooze_part ::
  "Repository \<Rightarrow> Task \<Rightarrow> datetime \<Rightarrow> SnoozeState \<Rightarrow> error + (Repository \<times> bool \<times> datetime option)"
where
  "snooze_part repo task nowu snooze =
     (let snoozed = False;
          snoozed_until = SnoozeState.snoozed_until_utc snooze
      in case snoozed_until of
           None \<Rightarrow> Inr (repo, snoozed, snoozed_until)
         | Some until0 \<Rightarrow>
             let until = (if tzinfo until0 = None then replace_tzinfo until0 (Some utc) else until0)
             in sum_bind (dt_less nowu until) (\<lambda>c.
                  if c then Inr (repo, True, snoozed_until)
                  else sum_bind (set_snoozed_until_utc repo (id' task) None) (\<lambda>repo'.
                         Inr (repo', snoozed, None))))"

text \<open>The branch on the type of the task: running, goal, minutes, done and the two texts.\<close>

definition type_part ::
  "env \<Rightarrow> Repository \<Rightarrow> Task \<Rightarrow> bool
     \<Rightarrow> error + (bool \<times> int option \<times> int option \<times> bool \<times> bool \<times> string \<times> string)"
where
  "type_part e repo task completed_override' =
     (if Task.task_type task = WEEKLY_TIME_QUOTA
      then
        let running' = is_session_running repo (id' task);
            goal_minutes' = (case weekly_goal_minutes task of None \<Rightarrow> 0 | Some g \<Rightarrow> g)
        in sum_bind (weekly_minutes_for_current_workweek e repo (id' task)) (\<lambda>done_minutes'.
             let done_by_minutes' = (goal_minutes' > 0 \<and> done_minutes' \<ge> goal_minutes');
                 done' = (completed_override' \<or> done_by_minutes')
             in if done'
                then Inr (running', Some goal_minutes', Some done_minutes', done_by_minutes', done',
                          ''DONE (this workweek)'', ''Done for this work week.'')
                else
                  let suffix = (if running' then '' (running)'' else [])
                  in Inr (running', Some goal_minutes', Some done_minutes', done_by_minutes', done',
                          str_int done_minutes' @ ''/'' @ str_int goal_minutes' @ '' min'' @ suffix,
                          ''Progress: '' @ str_int done_minutes' @ ''/'' @ str_int goal_minutes'
                            @ '' min this work week. Open tray panel to log/snooze.''))
      else
        let done' = completed_override'
        in Inr (False, None, None, False, done',
                (if done' then ''DONE'' else ''DUE''),
                ''Due. Open tray panel to snooze/skip/complete.''))"

definition compute_task_state ::
  "env \<Rightarrow> Repository \<Rightarrow> Task \<Rightarrow> datetime \<Rightarrow> datetime \<Rightarrow> AppSettings \<Rightarrow> error + (Repository \<times> TaskState)"
where
  "compute_task_state e repo task nowu nowl settings' =
     (let enabled' = Task.enabled task
      in sum_bind (is_in_workweek nowl) (\<lambda>in_workweek_flag.
      let active_today' = (weekday nowl \<in> set (active_weekdays (schedule task)));
          snooze = get_snooze_state repo (id' task);
          today = isoformat (date_of nowl);
          skipped_today' = (skipped_date_local snooze = Some today)
      in sum_bind (snooze_part repo task nowu snooze) (\<lambda>(repo, snoozed', snoozed_until).
      let rem_dt = next_reminder_datetime_local nowl (reminders_start_time settings')
      in sum_bind (dt_le rem_dt nowl) (\<lambda>after_start_time.
         sum_bind (is_completed_for_current_period e repo (id' task)) (\<lambda>completed_override'.
         sum_bind (type_part e repo task completed_override')
           (\<lambda>(running', goal_minutes', done_minutes', done_by_minutes', done', status_text', msg).
      let running_blocks = (Task.task_type task = WEEKLY_TIME_QUOTA \<and> running');
          can_remind_now' =
            (enabled'
             \<and> in_workweek_flag
             \<and> active_today'
             \<and> after_start_time
             \<and> \<not> skipped_today'
             \<and> \<not> snoozed'
             \<and> \<not> done'
             \<and> \<not> running_blocks)
      in Inr (repo,
           \<lparr>task_id = id' task,
            title = Task.title task,
            task_type = Task.task_type task,
            enabled = enabled',
            active_today = active_today',
            in_workweek = in_workweek_flag,
            skipped_today = skipped_today',
            snoozed = snoozed',
            snoozed_until_utc = snoozed_until,
            running = running',
            completed_override = completed_override',
            done_by_minutes = done_by_minutes',
            done' = done',
            goal_minutes = goal_minutes',
            done_minutes = done_minutes',
            can_remind_now = can_remind_now',
            reminder_message = msg,
            status_text = status_text'\<rparr>)))))))"

section \<open>The scheduler\<close>

record ReminderEvent =
  task_id :: int
  title :: string
  message :: string

text \<open>
  The scheduler keeps, for each task, the instant at which it last fired. The events it
  emits through the signal \<^verbatim>\<open>reminder_due\<close> are collected in a list, in order.
\<close>

record Scheduler =
  repeat_interval_minutes :: int
  last_fired_utc :: "int \<rightharpoonup> datetime"

definition Scheduler_init :: Scheduler where
  "Scheduler_init = \<lparr>repeat_interval_minutes = 5, last_fired_utc = Map.empty\<rparr>"

definition should_throttle :: "Scheduler \<Rightarrow> int \<Rightarrow> datetime \<Rightarrow> int \<Rightarrow> error + bool" where
  "should_throttle self tid nowu repeat_minutes =
     (case last_fired_utc self tid of
        None \<Rightarrow> Inr False
      | Some last' \<Rightarrow>
          sum_bind (dt_sub nowu last') (\<lambda>d. Inr (d < repeat_minutes * MINUTE)))"

definition fire :: "Scheduler \<Rightarrow> int \<Rightarrow> string \<Rightarrow> string \<Rightarrow> datetime \<Rightarrow> Scheduler \<times> ReminderEvent" where
  "fire self tid title' message' nowu =
     (self\<lparr>last_fired_utc := (last_fired_utc self)(tid \<mapsto> nowu)\<rparr>,
      \<lparr>task_id = tid, title = title', message = message'\<rparr>)"

text \<open>The loop of \<^verbatim>\<open>tick\<close> over the tasks.\<close>

fun tick_tasks ::
  "env \<Rightarrow> datetime \<Rightarrow> datetime \<Rightarrow> AppSettings \<Rightarrow> int \<Rightarrow> Task list
     \<Rightarrow> Repository \<Rightarrow> Scheduler \<Rightarrow> ReminderEvent list
     \<Rightarrow> error + (Repository \<times> Scheduler \<times> ReminderEvent list)"
where
  "tick_tasks e nowu nowl settings' repeat_minutes [] repo self emitted = Inr (repo, self, emitted)"
| "tick_tasks e nowu nowl settings' repeat_minutes (t # ts) repo self emitted =
     (case compute_task_state e repo t nowu nowl settings' of
        Inl err \<Rightarrow> Inl err
      | Inr (repo', state) \<Rightarrow>
          if \<not> can_remind_now state
          then tick_tasks e nowu nowl settings' repeat_minutes ts repo' self emitted
          else
            (case should_throttle self (id' t) nowu repeat_minutes of
               Inl err \<Rightarrow> Inl err
             | Inr True \<Rightarrow> tick_tasks e nowu nowl settings' repeat_minutes ts repo' self emitted
             | Inr False \<Rightarrow>
                 (case fire self (id' t) (Task.title t) (reminder_message state) nowu of
                    (self', ev) \<Rightarrow>
                      tick_tasks e nowu nowl settings' repeat_minutes ts repo' self' (emitted @ [ev]))))"

definition tick :: "env \<Rightarrow> Repository \<Rightarrow> Scheduler \<Rightarrow> error + (Repository \<times> Scheduler \<times> ReminderEvent list)" where
  "tick e repo self =
     (let nowu = now_utc e;
          nowl = to_local e nowu;
          settings' = get_settings repo;
          repeat_minutes = max 1 (AppSettings.repeat_interval_minutes settings');
          tasks' = list_tasks repo
      in tick_tasks e nowu nowl settings' repeat_minutes tasks' repo self [])"

text \<open>
  The timer calls \<^verbatim>\<open>tick\<close> again and again on the same scheduler. Between two ticks the
  user and the clock may change anything: each tick comes with the machine and the
  repository it finds. The result is the list of the events of each tick.
\<close>

fun run_ticks :: "Scheduler \<Rightarrow> (env \<times> Repository) list \<Rightarrow> ReminderEvent list list" where
  "run_ticks self [] = []"
| "run_ticks self ((e, repo) # rest) =
     (case tick e repo self of
        Inl err \<Rightarrow> [] # run_ticks self rest
      | Inr (repo', self', emitted) \<Rightarrow> emitted # run_ticks self' rest)"

section \<open>Sequences of repository operations\<close>

text \<open>
  \<^verbatim>\<open>migrate\<close> on a new database: empty tables and the three default settings.
\<close>

definition migrate :: Repository where
  "migrate =
     \<lparr>settings = \<lparr>start_at_login = False, repeat_interval_minutes = 5,
                   reminders_start_time = 9 * 60 * MINUTE\<rparr>,
      tasks = [], task_seq = 0, sessions = [], session_seq = 0,
      completions = {}, snoozes = Map.empty\<rparr>"

text \<open>The methods of \<^verbatim>\<open>Repository\<close> that write.\<close>

datatype op =
    SetStartAtLogin bool
  | SetRepeatIntervalMinutes int
  | SetReminderStartHhmm "(int \<times> int) option"
  | CreateTask string TaskType bool "int list" "int option" string
  | UpdateTask int string bool "int list" "int option"
  | DeleteTask int
  | SetSnoozedUntilUtc int "datetime option"
  | SetSkippedTodayLocal int "string option"
  | ClearSnoozeAndSkip int
  | StartSession int
  | StopSession int
  | AddManualMinutes int int
  | MarkCompleteForCurrentPeriod int
  | ClearCompletionForCurrentPeriod int
  | DeleteSessionsForCurrentWorkweek int

fun apply_op :: "env \<Rightarrow> Repository \<Rightarrow> op \<Rightarrow> error + Repository" where
  "apply_op e repo (SetStartAtLogin b) = Inr (set_start_at_login repo b)"
| "apply_op e repo (SetRepeatIntervalMinutes m) = Inr (set_repeat_interval_minutes repo m)"
| "apply_op e repo (SetReminderStartHhmm s) = Inr (set_reminder_start_hhmm repo s)"
| "apply_op e repo (CreateTask ti ty en ds g p) = Inr (fst (create_task repo ti ty en ds g p))"
| "apply_op e repo (UpdateTask tid ti en ds g) = Inr (update_task repo tid ti en ds g)"
| "apply_op e repo (DeleteTask tid) = Inr (delete_task repo tid)"
| "apply_op e repo (SetSnoozedUntilUtc tid v) = set_snoozed_until_utc repo tid v"
| "apply_op e repo (SetSkippedTodayLocal tid v) = set_skipped_today_local repo tid v"
| "apply_op e repo (ClearSnoozeAndSkip tid) = clear_snooze_and_skip repo tid"
| "apply_op e repo (StartSession tid) = start_session e repo tid"
| "apply_op e repo (StopSession tid) = Inr (stop_session e repo tid)"
| "apply_op e repo (AddManualMinutes tid m) = add_manual_minutes e repo tid m"
| "apply_op e repo (MarkCompleteForCurrentPeriod tid) = mark_complete_for_current_period e repo tid"
| "apply_op e repo (ClearCompletionForCurrentPeriod tid) = clear_completion_for_current_period e repo tid"
| "apply_op e repo (DeleteSessionsForCurrentWorkweek tid) = delete_sessions_for_current_workweek e repo tid"

text \<open>An operation that raises leaves the database as it was.\<close>

fun run_ops :: "Repository \<Rightarrow> (env \<times> op) list \<Rightarrow> Repository" where
  "run_ops repo [] = repo"
| "run_ops repo ((e, x) # xs) =
     (case apply_op e repo x of
        Inl err \<Rightarrow> run_ops repo xs
      | Inr repo' \<Rightarrow> run_ops repo' xs)"

section \<open>The accumulated minutes in the words of the specification\<close>

text \<open>
  The specification describes \<^verbatim>\<open>done_minutes\<close> as a sum over the sessions of the task
  whose own period key, taken from the start of the session in local time, is the
  current period key: the manual minutes of a manual session (one with
  \<^verbatim>\<open>manual_minutes > 0\<close>), and for a timed session the minutes of
  \<open>split_interval_by_workweek\<close> from its start to its end, or to now while it runs.
  These three definitions follow those words; \<open>weekly_minutes_for_current_workweek\<close>
  above follows the code.
\<close>

definition session_period_key :: "env \<Rightarrow> session \<Rightarrow> error + string" where
  "session_period_key e r =
     period_key_workweek (to_local e (replace_tzinfo (start_utc r) (Some utc)))"

definition session_minutes :: "env \<Rightarrow> session \<Rightarrow> error + int" where
  "session_minutes e r =
     (if manual_minutes r > 0 then Inr (manual_minutes r)
      else split_interval_by_workweek e
             (replace_tzinfo (start_utc r) (Some utc))
             (case end_utc r of
                None \<Rightarrow> now_utc e
              | Some end_iso \<Rightarrow> replace_tzinfo end_iso (Some utc)))"

definition done_minutes_by_period :: "env \<Rightarrow> Repository \<Rightarrow> int \<Rightarrow> int" where
  "done_minutes_by_period e repo tid =
     (\<Sum>r \<leftarrow> filter (\<lambda>r. session.task_id r = tid
                          \<and> session_period_key e r = period_key_workweek (to_local e (now_utc e)))
                 (sessions repo).
        case session_minutes e r of Inl err \<Rightarrow> 0 | Inr m \<Rightarrow> m)"

section \<open>Notions used to state the properties of the scheduler\<close>

text \<open>
  A task is eligible at a tick when \<open>compute_task_state\<close>, called as \<open>tick\<close> calls it on
  the repository the tick finds, says \<open>can_remind_now\<close>. A task fired in a tick when one
  of the events of the tick carries its id.
\<close>

definition eligible :: "env \<Rightarrow> Repository \<Rightarrow> Task \<Rightarrow> bool" where
  "eligible e repo t =
     (case compute_task_state e repo t (now_utc e) (to_local e (now_utc e)) (get_settings repo) of
        Inl err \<Rightarrow> False
      | Inr (repo', state) \<Rightarrow> can_remind_now state)"

definition fired :: "ReminderEvent list \<Rightarrow> int \<Rightarrow> bool" where
  "fired emitted tid = (tid \<in> set (map ReminderEvent.task_id emitted))"

definition repeat_minutes_at :: "Repository \<Rightarrow> int" where
  "repeat_minutes_at repo = max 1 (AppSettings.repeat_interval_minutes (get_settings repo))"

text \<open>
  While a tick runs, the only change to the repository is that snoozes that have expired
  at the instant of the tick are cleared. \<open>expired_cleared nowu m0 m\<close> says that the
  table \<open>m\<close> is the table \<open>m0\<close> with some of its expired snoozes cleared.
\<close>

definition expired_cleared ::
  "datetime \<Rightarrow> (int \<rightharpoonup> SnoozeState) \<Rightarrow> (int \<rightharpoonup> SnoozeState) \<Rightarrow> bool"
where
  "expired_cleared nowu m0 m =
     (\<forall>tid. m tid = m0 tid
        \<or> (\<exists>row u. m0 tid = Some row
              \<and> SnoozeState.snoozed_until_utc row = Some u
              \<and> dt_less nowu (if tzinfo u = None then replace_tzinfo u (Some utc) else u) = Inr False
              \<and> m tid = Some (row\<lparr>SnoozeState.snoozed_until_utc := None\<rparr>)))"

section \<open>Notions used to state the properties of the period key\<close>

text \<open>
  \<^verbatim>\<open>_ymd2ord\<close> of the standard library, with \<^verbatim>\<open>_is_leap\<close>, \<^verbatim>\<open>_days_before_year\<close> and
  \<^verbatim>\<open>_days_before_month\<close>: the ordinal of a year, month and day. The program does not call
  it when it makes a key; it is here to read a key back.
\<close>

definition is_leap :: "int \<Rightarrow> bool" where
  "is_leap year = (year mod 4 = 0 \<and> (year mod 100 \<noteq> 0 \<or> year mod 400 = 0))"

definition days_before_year :: "int \<Rightarrow> int" where
  "days_before_year year = (let y = year - 1 in y * 365 + y div 4 - y div 100 + y div 400)"

definition days_before_month :: "int \<Rightarrow> int \<Rightarrow> int" where
  "days_before_month year month =
     DAYS_BEFORE_MONTH ! nat month + (if month > 2 \<and> is_leap year then 1 else 0)"

definition ymd2ord :: "int \<times> int \<times> int \<Rightarrow> date" where
  "ymd2ord ymd = (case ymd of (year, month, day) \<Rightarrow>
     days_before_year year + days_before_month year month + day)"

text \<open>The number that a string of decimal digits stands for.\<close>

definition digit_value :: "char \<Rightarrow> nat" where
  "digit_value c = of_char c - 48"

definition decimal_value :: "string \<Rightarrow> nat" where
  "decimal_value s = foldl (\<lambda>a c. 10 * a + digit_value c) 0 s"

text \<open>
  An instant lies in a window when it is at or after the start and before the end, the
  test that \<open>is_in_workweek\<close> makes on the window of the instant itself.
\<close>

definition lies_in :: "datetime \<Rightarrow> WorkWeekWindow \<Rightarrow> bool" where
  "lies_in t w = (dt_le (start_local w) t = Inr True \<and> dt_less t (end_local w) = Inr True)"

section \<open>The accumulated minutes of the period of an instant\<close>

text \<open>
  \<^verbatim>\<open>compute_task_state\<close> is given an instant, and the methods of the repository that it
  calls read the clock again. The two definitions below follow the words of the
  specification with the instant that is passed in where the code has the clock: the
  sessions counted are those whose own period key is the key of \<open>nowl\<close>, and a session
  that still runs is counted up to \<open>nowu\<close>.
\<close>

definition session_minutes_at :: "env \<Rightarrow> datetime \<Rightarrow> session \<Rightarrow> error + int" where
  "session_minutes_at e nowu r =
     (if manual_minutes r > 0 then Inr (manual_minutes r)
      else split_interval_by_workweek e
             (replace_tzinfo (start_utc r) (Some utc))
             (case end_utc r of
                None \<Rightarrow> nowu
              | Some end_iso \<Rightarrow> replace_tzinfo end_iso (Some utc)))"

definition done_minutes_at :: "env \<Rightarrow> Repository \<Rightarrow> int \<Rightarrow> datetime \<Rightarrow> datetime \<Rightarrow> int" where
  "done_minutes_at e repo tid nowu nowl =
     (\<Sum>r \<leftarrow> filter (\<lambda>r. session.task_id r = tid
                          \<and> session_period_key e r = period_key_workweek nowl)
                 (sessions repo).
        case session_minutes_at e nowu r of Inl err \<Rightarrow> 0 | Inr m \<Rightarrow> m)"

section \<open>Properties of the period module\<close>

lemma DAY_pos: "0 < DAY"
  by (simp add: DAY_def)

lemma MINUTE_pos: "0 < MINUTE"
  by (simp add: MINUTE_def)

lemma time_of_range: "0 \<le> time_of t \<and> time_of t < DAY"
  using DAY_pos by (simp add: time_of_def)

lemma weekday_range: "0 \<le> weekday t \<and> weekday t < 7"
  by (simp add: weekday_def date_weekday_def)

lemma workweek_window_for_aware:
  "tzinfo t = Some off \<Longrightarrow>
   workweek_window_for t =
     Inr \<lparr>start_local = combine (date_of t - weekday t) 0 (Some off),
          end_local = dt_add (combine (date_of t - weekday t) 0 (Some off)) (5 * DAY)\<rparr>"
  by (simp add: workweek_window_for_def Let_def)

lemma date_lt_iff: "wall t < d * DAY \<longleftrightarrow> date_of t < d"
proof -
  have "DAY \<noteq> 0" using DAY_pos by simp
  then have "(wall t + (- d) * DAY) div DAY = (- d) + wall t div DAY"
    by (rule div_mult_self1)
  then have "(wall t - d * DAY) div DAY = wall t div DAY - d" by simp
  moreover have "((wall t - d * DAY) div DAY < 0) = (wall t - d * DAY < 0)"
    using DAY_pos by (rule pos_imp_zdiv_neg_iff)
  ultimately show ?thesis by (simp add: date_of_def)
qed

lemma date_le_iff: "d * DAY \<le> wall t \<longleftrightarrow> d \<le> date_of t"
  using date_lt_iff [of t d] by linarith

text \<open>On an aware datetime \<open>is_in_workweek\<close> does not raise, and says Monday to Friday.\<close>

lemma is_in_workweek_aware:
  "tzinfo t = Some off \<Longrightarrow> is_in_workweek t = Inr (weekday t < 5)"
proof -
  assume a: "tzinfo t = Some off"
  have s: "(date_of t - weekday t) * DAY \<le> wall t"
    using weekday_range [of t] by (simp add: date_le_iff)
  have e: "wall t < (date_of t - weekday t) * DAY + 5 * DAY \<longleftrightarrow> weekday t < 5"
    using date_lt_iff [of t "date_of t - weekday t + 5"] by (simp add: algebra_simps)
  show ?thesis
    using a s e
    by (simp add: is_in_workweek_def workweek_window_for_aware dt_le_def dt_less_def
        instant_def combine_def dt_add_def)
qed

lemma weekday_monday: "date_weekday (date_of t - weekday t) = 0"
  by (simp add: weekday_def date_weekday_def) presburger

lemma weekday_saturday: "date_weekday (date_of t - weekday t + 5) = 5"
  by (simp add: weekday_def date_weekday_def) presburger

text \<open>
  C6. For every timezone-aware local instant \<open>t\<close>, \<open>workweek_window_for t\<close> returns the
  window that starts at 00:00 of the Monday of the week of \<open>t\<close> (the date of \<open>t\<close> minus
  its weekday number, in the zone of \<open>t\<close>) and ends five days later, at 00:00 of the
  Saturday. \<open>is_in_workweek t\<close> says whether \<open>t\<close> is at or after the start and before the
  end; it is true for every instant of that zone in the window and false at the end
  boundary itself.
\<close>

theorem workweek_window_for_monday_to_saturday:
  assumes "tzinfo t = Some off"
  shows "\<exists>w. workweek_window_for t = Inr w
    \<and> start_local w = combine (date_of t - weekday t) 0 (Some off)
    \<and> end_local w = dt_add (start_local w) (5 * DAY)
    \<and> weekday (start_local w) = 0 \<and> time_of (start_local w) = 0
    \<and> weekday (end_local w) = 5 \<and> time_of (end_local w) = 0
    \<and> date_of t - 6 \<le> date_of (start_local w) \<and> date_of (start_local w) \<le> date_of t
    \<and> is_in_workweek t = Inr (wall (start_local w) \<le> wall t \<and> wall t < wall (end_local w))
    \<and> (\<forall>u. tzinfo u = Some off \<and> wall (start_local w) \<le> wall u \<and> wall u < wall (end_local w)
           \<longrightarrow> is_in_workweek u = Inr True)
    \<and> is_in_workweek (end_local w) = Inr False"
proof -
  let ?m = "date_of t - weekday t"
  let ?s = "combine ?m 0 (Some off)"
  let ?e = "dt_add ?s (5 * DAY)"
  let ?w = "\<lparr>start_local = ?s, end_local = ?e\<rparr>"
  have w: "workweek_window_for t = Inr ?w"
    using assms by (rule workweek_window_for_aware)
  have ws: "wall ?s = ?m * DAY" and we: "wall ?e = (?m + 5) * DAY"
    by (simp_all add: combine_def dt_add_def algebra_simps)
  have ds: "date_of ?s = ?m" and de: "date_of ?e = ?m + 5"
    using DAY_pos by (simp_all add: date_of_def combine_def dt_add_def algebra_simps)
  have ts: "time_of ?s = 0" and te: "time_of ?e = 0"
    by (simp_all add: time_of_def combine_def dt_add_def)
  have "weekday ?s = date_weekday (date_of ?s)" by (rule weekday_def)
  also have "\<dots> = date_weekday ?m" by (simp only: ds)
  also have "\<dots> = 0" by (rule weekday_monday)
  finally have wds: "weekday ?s = 0" .
  have "weekday ?e = date_weekday (date_of ?e)" by (rule weekday_def)
  also have "\<dots> = date_weekday (?m + 5)" by (simp only: de)
  also have "\<dots> = 5" by (rule weekday_saturday)
  finally have wde: "weekday ?e = 5" .
  have rng: "date_of t - 6 \<le> ?m \<and> ?m \<le> date_of t"
    using weekday_range [of t] by simp
  have le: "?m * DAY \<le> wall t"
    using rng by (simp add: date_le_iff)
  have lt: "wall t < (?m + 5) * DAY \<longleftrightarrow> weekday t < 5"
    by (simp add: date_lt_iff)
  have own: "is_in_workweek t = Inr (wall ?s \<le> wall t \<and> wall t < wall ?e)"
    using assms le lt by (simp add: is_in_workweek_aware ws we)
  have others: "is_in_workweek u = Inr True"
    if u: "tzinfo u = Some off" "wall ?s \<le> wall u" "wall u < wall ?e" for u
  proof -
    have 1: "?m \<le> date_of u" using u(2) by (simp add: ws date_le_iff)
    have 2: "date_of u < ?m + 5" using u(3) by (simp only: we date_lt_iff)
    have 3: "date_weekday ?m = 0" by (rule weekday_monday)
    have "weekday u < 5"
      using 1 2 3 unfolding weekday_def date_weekday_def by presburger
    then show ?thesis using u(1) by (simp add: is_in_workweek_aware)
  qed
  have tze: "tzinfo ?e = Some off" by (simp add: combine_def dt_add_def)
  have bound: "is_in_workweek ?e = Inr False"
    using wde by (simp add: is_in_workweek_aware [OF tze])
  show ?thesis
    using w ds ts wds wde te rng own others bound
    by (intro exI [of _ ?w]) (simp add: ds)
qed

text \<open>
  At Wednesday 2026-02-18 12:00 (day 739665) the window runs from Monday 2026-02-16
  (day 739663) to Saturday 2026-02-21 (day 739668).
\<close>

theorem workweek_window_for_monday_to_saturday_witness:
  "tzinfo \<lparr>wall = 739665 * DAY + 720 * MINUTE, tzinfo = Some 0\<rparr> = Some 0
   \<and> (\<exists>w. workweek_window_for \<lparr>wall = 739665 * DAY + 720 * MINUTE, tzinfo = Some 0\<rparr> = Inr w
        \<and> start_local w = \<lparr>wall = 739663 * DAY, tzinfo = Some 0\<rparr>
        \<and> end_local w = \<lparr>wall = 739668 * DAY, tzinfo = Some 0\<rparr>
        \<and> is_in_workweek \<lparr>wall = 739665 * DAY + 720 * MINUTE, tzinfo = Some 0\<rparr> = Inr True
        \<and> is_in_workweek (end_local w) = Inr False)"
proof -
  let ?t = "\<lparr>wall = 739665 * DAY + 720 * MINUTE, tzinfo = Some 0\<rparr>"
  have h: "tzinfo ?t = Some 0" by simp
  have m: "date_of ?t - weekday ?t = 739663"
    by (simp add: date_of_def weekday_def date_weekday_def DAY_def MINUTE_def)
  from workweek_window_for_monday_to_saturday [OF h] obtain w where
    w: "workweek_window_for ?t = Inr w"
      "start_local w = combine (date_of ?t - weekday ?t) 0 (Some 0)"
      "end_local w = dt_add (start_local w) (5 * DAY)"
      "is_in_workweek ?t = Inr (wall (start_local w) \<le> wall ?t \<and> wall ?t < wall (end_local w))"
      "is_in_workweek (end_local w) = Inr False"
    by blast
  have s: "start_local w = \<lparr>wall = 739663 * DAY, tzinfo = Some 0\<rparr>"
    using w(2) by (simp only: m) (simp add: combine_def)
  have e: "end_local w = \<lparr>wall = 739668 * DAY, tzinfo = Some 0\<rparr>"
    using w(3) by (simp add: s dt_add_def)
  have i: "is_in_workweek ?t = Inr True"
    using w(4) by (simp add: s e DAY_def MINUTE_def)
  show ?thesis using h w(1) s e i w(5) by blast
qed

lemma tzinfo_to_local: "tzinfo (to_local e x) = Some (zone e)"
  by (simp add: to_local_def astimezone_def local_tz_def Let_def)

lemma to_local_replace_utc:
  "to_local e (if tzinfo x = None then replace_tzinfo x (Some utc) else x) = to_local e x"
  by (simp add: to_local_def replace_tzinfo_def Let_def)

lemma split_interval_by_workweek_closed:
  "split_interval_by_workweek e s t =
     Inr (let sl = wall (to_local e s); el = wall (to_local e t);
              we = (date_of (to_local e s) - weekday (to_local e s)) * DAY + 5 * DAY;
              b = (if we < el then we else el)
          in if b \<le> sl then 0 else (b - sl) div MINUTE)"
proof -
  let ?sl = "to_local e s"
  have le: "(date_of ?sl - weekday ?sl) * DAY \<le> wall ?sl"
    using weekday_range [of ?sl] by (simp add: date_le_iff)
  show ?thesis
    using le
    by (simp add: split_interval_by_workweek_def to_local_replace_utc
        workweek_window_for_aware [OF tzinfo_to_local] dt_max_def dt_min_def dt_less_def dt_le_def
        dt_sub_def instant_def tzinfo_to_local combine_def dt_add_def Let_def add_diff_eq)
qed

lemma card_inter_ivl:
  "int (card ({a ..< b} \<inter> {c ..< d})) = max 0 (min b d - max a (c::int))"
proof -
  have "{a ..< b} \<inter> {c ..< d} = {max a c ..< min b d}" by auto
  then show ?thesis by (simp add: max_def min_def)
qed


text \<open>
  C4. \<open>split_interval_by_workweek e s t\<close> is the whole minutes (floor) of the length of what
  the interval from \<open>s\<close> to \<open>t\<close>, read on the local clock, has in common with the workweek
  window computed from the local start. Lengths are counted in microseconds: the number
  of microsecond ticks in the intersection of the two half-open intervals. Hence the
  result is 0 when \<open>t\<close> is not after \<open>s\<close>, when the intersection is empty and when the
  local start is on a Saturday or Sunday; an interval wholly inside the window gives its
  own duration in whole minutes; and one from Friday 23:30 to Saturday 00:30 local gives
  exactly 30.
\<close>

theorem split_interval_by_workweek_overlap:
  "\<exists>w. workweek_window_for (to_local e s) = Inr w
     \<and> split_interval_by_workweek e s t =
         Inr (int (card ({wall (to_local e s) ..< wall (to_local e t)}
                         \<inter> {wall (start_local w) ..< wall (end_local w)})) div MINUTE)
     \<and> (wall (to_local e t) \<le> wall (to_local e s) \<longrightarrow> split_interval_by_workweek e s t = Inr 0)
     \<and> ({wall (to_local e s) ..< wall (to_local e t)}
           \<inter> {wall (start_local w) ..< wall (end_local w)} = {}
         \<longrightarrow> split_interval_by_workweek e s t = Inr 0)
     \<and> (5 \<le> weekday (to_local e s) \<longrightarrow> split_interval_by_workweek e s t = Inr 0)
     \<and> (wall (start_local w) \<le> wall (to_local e s)
           \<and> wall (to_local e s) \<le> wall (to_local e t)
           \<and> wall (to_local e t) \<le> wall (end_local w)
         \<longrightarrow> split_interval_by_workweek e s t
               = Inr ((wall (to_local e t) - wall (to_local e s)) div MINUTE))
     \<and> (weekday (to_local e s) = 4 \<and> time_of (to_local e s) = 1410 * MINUTE
           \<and> wall (to_local e t) = wall (to_local e s) + 60 * MINUTE
         \<longrightarrow> split_interval_by_workweek e s t = Inr 30)"
proof -
  let ?sl = "to_local e s" and ?el = "to_local e t"
  let ?m = "date_of ?sl - weekday ?sl"
  let ?ws = "?m * DAY" and ?we = "?m * DAY + 5 * DAY"
  let ?w = "\<lparr>start_local = combine ?m 0 (Some (zone e)),
             end_local = dt_add (combine ?m 0 (Some (zone e))) (5 * DAY)\<rparr>"
  let ?r = "split_interval_by_workweek e s t"
  have w: "workweek_window_for ?sl = Inr ?w"
    using tzinfo_to_local by (rule workweek_window_for_aware)
  have ws: "wall (start_local ?w) = ?ws" and we: "wall (end_local ?w) = ?we"
    by (simp_all add: combine_def dt_add_def)
  have le: "?ws \<le> wall ?sl"
    using weekday_range [of ?sl] by (simp add: date_le_iff)
  have lt: "wall ?sl < ?we \<longleftrightarrow> weekday ?sl < 5"
    using date_lt_iff [of ?sl "?m + 5"] by (simp add: algebra_simps)
  have r: "?r = Inr (max 0 (min (wall ?el) ?we - max (wall ?sl) ?ws) div MINUTE)"
    using le by (simp add: split_interval_by_workweek_closed Let_def max_def min_def)
  have c1: "?r = Inr (int (card ({wall ?sl ..< wall ?el} \<inter> {?ws ..< ?we})) div MINUTE)"
    by (simp only: r card_inter_ivl)
  have c2: "?r = Inr 0" if "wall ?el \<le> wall ?sl"
  proof -
    have "min (wall ?el) ?we - max (wall ?sl) ?ws \<le> 0" using that by linarith
    then show ?thesis by (simp add: r)
  qed
  have c3: "?r = Inr 0" if "{wall ?sl ..< wall ?el} \<inter> {?ws ..< ?we} = {}"
    using that by (simp only: c1) simp
  have c4: "?r = Inr 0" if "5 \<le> weekday ?sl"
  proof -
    have "?we \<le> wall ?sl" using that lt by simp
    then have "min (wall ?el) ?we - max (wall ?sl) ?ws \<le> 0" by linarith
    then show ?thesis by (simp add: r)
  qed
  have c5: "?r = Inr ((wall ?el - wall ?sl) div MINUTE)"
    if "?ws \<le> wall ?sl \<and> wall ?sl \<le> wall ?el \<and> wall ?el \<le> ?we"
  proof -
    have "max 0 (min (wall ?el) ?we - max (wall ?sl) ?ws) = wall ?el - wall ?sl"
      using that by linarith
    then show ?thesis by (simp only: r)
  qed
  have c6: "?r = Inr 30"
    if h: "weekday ?sl = 4 \<and> time_of ?sl = 1410 * MINUTE \<and> wall ?el = wall ?sl + 60 * MINUTE"
  proof -
    have "wall ?sl = date_of ?sl * DAY + time_of ?sl"
      by (simp add: date_of_def time_of_def)
    then have sl: "wall ?sl = ?ws + 4 * DAY + 1410 * MINUTE"
      using h by (simp add: algebra_simps)
    have d: "DAY = 1440 * MINUTE" by (simp add: DAY_def MINUTE_def)
    have el: "wall ?el = wall ?sl + 60 * MINUTE" using h by simp
    have "max 0 (min (wall ?el) ?we - max (wall ?sl) ?ws) = 30 * MINUTE"
      using sl el d MINUTE_pos by linarith
    then show ?thesis using MINUTE_pos by (simp only: r) simp
  qed
  show ?thesis
    apply (intro exI [of _ ?w] conjI impI)
          apply (rule w)
         apply (simp only: ws we)
         apply (rule c1)
        apply (erule c2)
       apply (rule c3)
       apply (simp only: ws we)
      apply (erule c4)
     apply (rule c5)
     apply (simp only: ws we)
    apply (erule c6)
    done
qed


text \<open>
  Friday 2026-02-20 22:30 UTC to 23:30 UTC, on a machine one hour ahead of UTC.
\<close>

theorem split_interval_by_workweek_overlap_witness:
  "weekday (to_local \<lparr>clock = 0, zone = 60 * MINUTE\<rparr>
              \<lparr>wall = 739667 * DAY + 1350 * MINUTE, tzinfo = Some utc\<rparr>) = 4
   \<and> time_of (to_local \<lparr>clock = 0, zone = 60 * MINUTE\<rparr>
              \<lparr>wall = 739667 * DAY + 1350 * MINUTE, tzinfo = Some utc\<rparr>) = 1410 * MINUTE
   \<and> wall (to_local \<lparr>clock = 0, zone = 60 * MINUTE\<rparr>
              \<lparr>wall = 739667 * DAY + 1410 * MINUTE, tzinfo = Some utc\<rparr>)
       = wall (to_local \<lparr>clock = 0, zone = 60 * MINUTE\<rparr>
              \<lparr>wall = 739667 * DAY + 1350 * MINUTE, tzinfo = Some utc\<rparr>) + 60 * MINUTE
   \<and> split_interval_by_workweek \<lparr>clock = 0, zone = 60 * MINUTE\<rparr>
         \<lparr>wall = 739667 * DAY + 1350 * MINUTE, tzinfo = Some utc\<rparr>
         \<lparr>wall = 739667 * DAY + 1410 * MINUTE, tzinfo = Some utc\<rparr> = Inr 30"
proof -
  let ?e = "\<lparr>clock = 0, zone = 60 * MINUTE\<rparr>"
  let ?s = "\<lparr>wall = 739667 * DAY + 1350 * MINUTE, tzinfo = Some utc\<rparr>"
  let ?t = "\<lparr>wall = 739667 * DAY + 1410 * MINUTE, tzinfo = Some utc\<rparr>"
  have 1: "weekday (to_local ?e ?s) = 4"
    by (simp add: to_local_def astimezone_def instant_def local_tz_def utc_def weekday_def
        date_weekday_def date_of_def DAY_def MINUTE_def)
  have 2: "time_of (to_local ?e ?s) = 1410 * MINUTE"
    by (simp add: to_local_def astimezone_def instant_def local_tz_def utc_def time_of_def
        DAY_def MINUTE_def)
  have 3: "wall (to_local ?e ?t) = wall (to_local ?e ?s) + 60 * MINUTE"
    by (simp add: to_local_def astimezone_def instant_def local_tz_def utc_def)
  from split_interval_by_workweek_overlap [of ?e ?s ?t] 1 2 3
  have "split_interval_by_workweek ?e ?s ?t = Inr 30" by blast
  with 1 2 3 show ?thesis by blast
qed

section \<open>Properties of the repository\<close>

lemma period_key_workweek_to_local:
  "period_key_workweek (to_local e x) =
     Inr (''workweek:'' @ isoformat (date_of (to_local e x) - weekday (to_local e x)))"
proof -
  have "date_of (combine (date_of (to_local e x) - weekday (to_local e x)) 0 (Some (zone e)))
        = date_of (to_local e x) - weekday (to_local e x)"
    using DAY_pos by (simp add: date_of_def combine_def)
  then show ?thesis
    by (simp add: period_key_workweek_def workweek_window_for_aware [OF tzinfo_to_local] Let_def)
qed

lemma split_interval_by_workweek_total:
  "\<exists>m. split_interval_by_workweek e s t = Inr m \<and> 0 \<le> m"
proof -
  have "0 \<le> (b - a) div MINUTE" if "\<not> b \<le> a" for a b :: int
    using that MINUTE_pos by (simp add: pos_imp_zdiv_nonneg_iff)
  then show ?thesis
    by (simp add: split_interval_by_workweek_closed Let_def)
qed

lemma session_minutes_total: "\<exists>m. session_minutes e r = Inr m"
  unfolding session_minutes_def using split_interval_by_workweek_total by (cases "0 < manual_minutes r") (simp, simp, blast)

lemma weekly_minutes_rows_sum:
  "weekly_minutes_rows e pk rows total' =
     Inr (total' + (\<Sum>r \<leftarrow> filter (\<lambda>r. session_period_key e r = Inr pk) rows.
                     case session_minutes e r of Inl err \<Rightarrow> 0 | Inr m \<Rightarrow> m))"
proof (induction rows arbitrary: total')
  case Nil
  show ?case by simp
next
  case (Cons r rows)
  obtain k where k: "period_key_workweek (to_local e (replace_tzinfo (start_utc r) (Some utc))) = Inr k"
    by (simp add: period_key_workweek_to_local)
  obtain m where m: "split_interval_by_workweek e (replace_tzinfo (start_utc r) (Some utc))
      (case end_utc r of None \<Rightarrow> now_utc e | Some end_iso \<Rightarrow> replace_tzinfo end_iso (Some utc)) = Inr m"
    using split_interval_by_workweek_total by blast
  show ?case
    using k m by (simp add: Cons.IH session_period_key_def session_minutes_def Let_def)
qed


lemma weekly_minutes_for_current_workweek_sum:
  "weekly_minutes_for_current_workweek e repo tid = Inr (done_minutes_by_period e repo tid)"
proof -
  obtain pk where pk: "period_key_workweek (to_local e (now_utc e)) = Inr pk"
    by (simp add: period_key_workweek_to_local)
  show ?thesis
    by (simp add: weekly_minutes_for_current_workweek_def sum_bind_def pk weekly_minutes_rows_sum
        done_minutes_by_period_def Let_def filter_filter conj_commute)
qed

text \<open>
  C7. The accumulated minutes that \<open>weekly_minutes_for_current_workweek\<close> returns are the
  sum, over exactly the sessions of the task whose own period key (from the start of the
  session, in local time) is the current period key, of the manual minutes of a manual
  session and of \<open>split_interval_by_workweek\<close> from start to end, or to now, of a timed
  one. Every session has such minutes (nothing raises). A session whose start is in
  another period adds nothing, whatever its end, also while it still runs; a session of
  the task in the current period adds its minutes.
\<close>

theorem weekly_minutes_for_current_workweek_by_period:
  "weekly_minutes_for_current_workweek e repo tid = Inr (done_minutes_by_period e repo tid)
   \<and> (\<exists>m. session_minutes e r = Inr m)
   \<and> (session_period_key e r \<noteq> period_key_workweek (to_local e (now_utc e))
        \<longrightarrow> weekly_minutes_for_current_workweek e (repo\<lparr>sessions := sessions repo @ [r]\<rparr>) tid
            = weekly_minutes_for_current_workweek e repo tid)
   \<and> (session_period_key e r = period_key_workweek (to_local e (now_utc e))
        \<and> session.task_id r = tid \<and> session_minutes e r = Inr m
        \<longrightarrow> weekly_minutes_for_current_workweek e (repo\<lparr>sessions := sessions repo @ [r]\<rparr>) tid
            = Inr (done_minutes_by_period e repo tid + m))"
proof -
  have b: "done_minutes_by_period e (repo\<lparr>sessions := sessions repo @ [r]\<rparr>) tid
           = done_minutes_by_period e repo tid"
    if "session_period_key e r \<noteq> period_key_workweek (to_local e (now_utc e))"
    using that by (simp add: done_minutes_by_period_def)
  have c: "done_minutes_by_period e (repo\<lparr>sessions := sessions repo @ [r]\<rparr>) tid
           = done_minutes_by_period e repo tid + m"
    if "session_period_key e r = period_key_workweek (to_local e (now_utc e))
        \<and> session.task_id r = tid \<and> session_minutes e r = Inr m"
    using that by (simp add: done_minutes_by_period_def)
  show ?thesis
    using session_minutes_total [of e r] b c by (simp add: weekly_minutes_for_current_workweek_sum)
qed

text \<open>
  Thursday 2026-02-19 10:00: 45 manual minutes logged on the Monday count; a timed session
  started on the Friday before and still running does not.
\<close>

theorem weekly_minutes_for_current_workweek_by_period_witness:
  "session_period_key \<lparr>clock = 739666 * DAY + 600 * MINUTE, zone = 0\<rparr>
      \<lparr>session_id = 2, task_id = 1,
       start_utc = \<lparr>wall = 739660 * DAY + 600 * MINUTE, tzinfo = Some 0\<rparr>,
       end_utc = None, manual_minutes = 0\<rparr>
     \<noteq> period_key_workweek (to_local \<lparr>clock = 739666 * DAY + 600 * MINUTE, zone = 0\<rparr>
                              (now_utc \<lparr>clock = 739666 * DAY + 600 * MINUTE, zone = 0\<rparr>))
   \<and> weekly_minutes_for_current_workweek \<lparr>clock = 739666 * DAY + 600 * MINUTE, zone = 0\<rparr>
       (migrate\<lparr>sessions :=
          [\<lparr>session_id = 1, task_id = 1,
            start_utc = \<lparr>wall = 739663 * DAY + 600 * MINUTE, tzinfo = Some 0\<rparr>,
            end_utc = Some \<lparr>wall = 739663 * DAY + 600 * MINUTE, tzinfo = Some 0\<rparr>,
            manual_minutes = 45\<rparr>,
           \<lparr>session_id = 2, task_id = 1,
            start_utc = \<lparr>wall = 739660 * DAY + 600 * MINUTE, tzinfo = Some 0\<rparr>,
            end_utc = None, manual_minutes = 0\<rparr>]\<rparr>) 1
     = Inr 45"
proof -
  let ?e = "\<lparr>clock = 739666 * DAY + 600 * MINUTE, zone = 0\<rparr>"
  let ?r1 = "\<lparr>session_id = 1, task_id = 1,
            start_utc = \<lparr>wall = 739663 * DAY + 600 * MINUTE, tzinfo = Some 0\<rparr>,
            end_utc = Some \<lparr>wall = 739663 * DAY + 600 * MINUTE, tzinfo = Some 0\<rparr>,
            manual_minutes = 45\<rparr>"
  let ?r2 = "\<lparr>session_id = 2, task_id = 1,
            start_utc = \<lparr>wall = 739660 * DAY + 600 * MINUTE, tzinfo = Some 0\<rparr>,
            end_utc = None, manual_minutes = 0\<rparr>"
  let ?repo = "migrate\<lparr>sessions := [?r1]\<rparr>"
  have i: "isoformat 739656 \<noteq> isoformat 739663"
    by code_simp
  have k2: "session_period_key ?e ?r2 = Inr (''workweek:'' @ isoformat 739656)"
    by (simp add: session_period_key_def period_key_workweek_def workweek_window_for_def combine_def
        to_local_def astimezone_def instant_def local_tz_def replace_tzinfo_def utc_def
        date_of_def weekday_def date_weekday_def DAY_def MINUTE_def Let_def)
  have k: "period_key_workweek (to_local ?e (now_utc ?e)) = Inr (''workweek:'' @ isoformat 739663)"
    by (simp add: period_key_workweek_def workweek_window_for_def combine_def
        to_local_def astimezone_def instant_def local_tz_def now_utc_def utc_def
        date_of_def weekday_def date_weekday_def DAY_def MINUTE_def Let_def)
  have k1: "session_period_key ?e ?r1 = Inr (''workweek:'' @ isoformat 739663)"
    by (simp add: session_period_key_def period_key_workweek_def workweek_window_for_def combine_def
        to_local_def astimezone_def instant_def local_tz_def replace_tzinfo_def utc_def
        date_of_def weekday_def date_weekday_def DAY_def MINUTE_def Let_def)
  have ne: "session_period_key ?e ?r2 \<noteq> period_key_workweek (to_local ?e (now_utc ?e))"
    using i by (simp only: k2 k) simp
  have m: "done_minutes_by_period ?e ?repo 1 = 45"
    by (simp add: done_minutes_by_period_def k k1 session_minutes_def migrate_def)
  from weekly_minutes_for_current_workweek_by_period [of ?e ?repo 1 ?r2] ne
  have "weekly_minutes_for_current_workweek ?e (?repo\<lparr>sessions := sessions ?repo @ [?r2]\<rparr>) 1
        = Inr (done_minutes_by_period ?e ?repo 1)"
    by metis
  then show ?thesis
    using ne by (simp add: m)
qed

section \<open>Properties of the state engine\<close>

lemma is_completed_for_current_period_snoozes [simp]:
  "is_completed_for_current_period e (repo\<lparr>snoozes := sn\<rparr>) tid = is_completed_for_current_period e repo tid"
  by (simp add: is_completed_for_current_period_def)

lemma weekly_minutes_snoozes [simp]:
  "weekly_minutes_for_current_workweek e (repo\<lparr>snoozes := sn\<rparr>) tid = weekly_minutes_for_current_workweek e repo tid"
  by (simp add: weekly_minutes_for_current_workweek_def)

lemma is_session_running_snoozes [simp]:
  "is_session_running (repo\<lparr>snoozes := sn\<rparr>) tid = is_session_running repo tid"
  by (simp add: is_session_running_def)

lemma type_part_snoozes [simp]:
  "type_part e (repo\<lparr>snoozes := sn\<rparr>) task c = type_part e repo task c"
  by (simp add: type_part_def)

lemma is_completed_total:
  "is_completed_for_current_period e repo tid =
     Inr ((tid, ''workweek:'' @ isoformat (date_of (to_local e (now_utc e)) - weekday (to_local e (now_utc e))))
          \<in> completions repo)"
  by (simp add: is_completed_for_current_period_def period_key_workweek_to_local sum_bind_def)

text \<open>The snooze part, on an aware \<open>nowu\<close>.\<close>

lemma snooze_part_aware:
  assumes "tzinfo nowu = Some ou"
  shows "snooze_part repo task nowu (get_snooze_state repo (id' task)) =
     (case snoozes repo (id' task) of
        None \<Rightarrow> Inr (repo, False, None)
      | Some row \<Rightarrow>
          (case SnoozeState.snoozed_until_utc row of
             None \<Rightarrow> Inr (repo, False, None)
           | Some u \<Rightarrow>
               if wall nowu - ou < wall u - (case tzinfo u of None \<Rightarrow> 0 | Some off \<Rightarrow> off)
               then Inr (repo, True, Some u)
               else Inr (repo\<lparr>snoozes := (snoozes repo)(id' task \<mapsto> row\<lparr>SnoozeState.snoozed_until_utc := None\<rparr>)\<rparr>,
                         False, None)))"
  using assms
  by (auto simp: snooze_part_def get_snooze_state_def set_snoozed_until_utc_def sum_bind_def
      dt_less_def instant_def replace_tzinfo_def utc_def Let_def split: option.splits)

lemma type_part_total:
  "\<exists>x. type_part e repo task c = Inr x"
  by (auto simp: type_part_def weekly_minutes_for_current_workweek_sum sum_bind_def Let_def)

lemma after_start_time_aware:
  "tzinfo nowl = Some ol \<Longrightarrow>
   dt_le (next_reminder_datetime_local nowl rt) nowl = Inr (rt \<le> time_of nowl)"
proof -
  assume a: "tzinfo nowl = Some ol"
  have "wall nowl = date_of nowl * DAY + time_of nowl"
    by (simp add: date_of_def time_of_def)
  then show ?thesis
    using a by (simp add: dt_le_def next_reminder_datetime_local_def combine_def instant_def)
qed


lemma type_part_fields:
  "\<exists>stx msg. type_part e repo task c =
     Inr (Task.task_type task = WEEKLY_TIME_QUOTA \<and> is_session_running repo (id' task),
          (if Task.task_type task = WEEKLY_TIME_QUOTA
           then Some (case weekly_goal_minutes task of None \<Rightarrow> 0 | Some g \<Rightarrow> g) else None),
          (if Task.task_type task = WEEKLY_TIME_QUOTA
           then Some (done_minutes_by_period e repo (id' task)) else None),
          (Task.task_type task = WEEKLY_TIME_QUOTA
           \<and> 0 < (case weekly_goal_minutes task of None \<Rightarrow> 0 | Some g \<Rightarrow> g)
           \<and> (case weekly_goal_minutes task of None \<Rightarrow> 0 | Some g \<Rightarrow> g)
               \<le> done_minutes_by_period e repo (id' task)),
          (c \<or> (Task.task_type task = WEEKLY_TIME_QUOTA
           \<and> 0 < (case weekly_goal_minutes task of None \<Rightarrow> 0 | Some g \<Rightarrow> g)
           \<and> (case weekly_goal_minutes task of None \<Rightarrow> 0 | Some g \<Rightarrow> g)
               \<le> done_minutes_by_period e repo (id' task))),
          stx, msg)"
  by (auto simp: type_part_def weekly_minutes_for_current_workweek_sum sum_bind_def Let_def)

text \<open>
  The result of \<open>compute_task_state\<close> on aware datetimes, field by field: it does not
  raise, and the repository it returns is the one the snooze part returns.
\<close>

lemma compute_task_state_aware:
  assumes u: "tzinfo nowu = Some ou" and l: "tzinfo nowl = Some ol"
  shows "\<exists>repo' sn su.
     snooze_part repo task nowu (get_snooze_state repo (id' task)) = Inr (repo', sn, su)
     \<and> compute_task_state e repo task nowu nowl s =
       Inr (repo',
         \<lparr>TaskState.task_id = id' task,
          TaskState.title = Task.title task,
          TaskState.task_type = Task.task_type task,
          TaskState.enabled = Task.enabled task,
          active_today = (weekday nowl \<in> set (active_weekdays (schedule task))),
          in_workweek = (weekday nowl < 5),
          skipped_today =
            (skipped_date_local (get_snooze_state repo (id' task)) = Some (isoformat (date_of nowl))),
          snoozed = sn,
          TaskState.snoozed_until_utc = su,
          running = (Task.task_type task = WEEKLY_TIME_QUOTA \<and> is_session_running repo (id' task)),
          completed_override = (is_completed_for_current_period e repo (id' task) = Inr True),
          done_by_minutes =
            (Task.task_type task = WEEKLY_TIME_QUOTA
             \<and> 0 < (case weekly_goal_minutes task of None \<Rightarrow> 0 | Some g \<Rightarrow> g)
             \<and> (case weekly_goal_minutes task of None \<Rightarrow> 0 | Some g \<Rightarrow> g)
                 \<le> done_minutes_by_period e repo (id' task)),
          done' =
            (is_completed_for_current_period e repo (id' task) = Inr True
             \<or> (Task.task_type task = WEEKLY_TIME_QUOTA
                \<and> 0 < (case weekly_goal_minutes task of None \<Rightarrow> 0 | Some g \<Rightarrow> g)
                \<and> (case weekly_goal_minutes task of None \<Rightarrow> 0 | Some g \<Rightarrow> g)
                    \<le> done_minutes_by_period e repo (id' task))),
          goal_minutes =
            (if Task.task_type task = WEEKLY_TIME_QUOTA
             then Some (case weekly_goal_minutes task of None \<Rightarrow> 0 | Some g \<Rightarrow> g) else None),
          done_minutes =
            (if Task.task_type task = WEEKLY_TIME_QUOTA
             then Some (done_minutes_by_period e repo (id' task)) else None),
          can_remind_now =
            (Task.enabled task
             \<and> weekday nowl < 5
             \<and> weekday nowl \<in> set (active_weekdays (schedule task))
             \<and> reminders_start_time s \<le> time_of nowl
             \<and> skipped_date_local (get_snooze_state repo (id' task)) \<noteq> Some (isoformat (date_of nowl))
             \<and> \<not> sn
             \<and> \<not> (is_completed_for_current_period e repo (id' task) = Inr True
                  \<or> (Task.task_type task = WEEKLY_TIME_QUOTA
                     \<and> 0 < (case weekly_goal_minutes task of None \<Rightarrow> 0 | Some g \<Rightarrow> g)
                     \<and> (case weekly_goal_minutes task of None \<Rightarrow> 0 | Some g \<Rightarrow> g)
                         \<le> done_minutes_by_period e repo (id' task)))
             \<and> \<not> (Task.task_type task = WEEKLY_TIME_QUOTA \<and> is_session_running repo (id' task))),
          reminder_message =
            snd (snd (snd (snd (snd (snd (projr (type_part e repo task
              (is_completed_for_current_period e repo (id' task) = Inr True)))))))),
          status_text =
            fst (snd (snd (snd (snd (snd (projr (type_part e repo task
              (is_completed_for_current_period e repo (id' task) = Inr True))))))))\<rparr>)"
proof -
  have "\<exists>repo' sn su.
      snooze_part repo task nowu (get_snooze_state repo (id' task)) = Inr (repo', sn, su)
      \<and> (repo' = repo \<or> (\<exists>m. repo' = repo\<lparr>snoozes := m\<rparr>))"
    unfolding snooze_part_aware [OF u]
    by (simp split: option.splits) blast
  then obtain repo' sn su where
    sp: "snooze_part repo task nowu (get_snooze_state repo (id' task)) = Inr (repo', sn, su)"
    and rs: "repo' = repo \<or> (\<exists>m. repo' = repo\<lparr>snoozes := m\<rparr>)"
    by blast
  obtain c where c: "is_completed_for_current_period e repo (id' task) = Inr c"
    by (simp add: is_completed_total)
  have cr: "is_completed_for_current_period e repo' (id' task) = Inr c"
    using rs c by auto
  have tp: "type_part e repo' task c = type_part e repo task c"
    using rs by auto
  obtain stx msg where
    tf: "type_part e repo task c =
     Inr (Task.task_type task = WEEKLY_TIME_QUOTA \<and> is_session_running repo (id' task),
          (if Task.task_type task = WEEKLY_TIME_QUOTA
           then Some (case weekly_goal_minutes task of None \<Rightarrow> 0 | Some g \<Rightarrow> g) else None),
          (if Task.task_type task = WEEKLY_TIME_QUOTA
           then Some (done_minutes_by_period e repo (id' task)) else None),
          (Task.task_type task = WEEKLY_TIME_QUOTA
           \<and> 0 < (case weekly_goal_minutes task of None \<Rightarrow> 0 | Some g \<Rightarrow> g)
           \<and> (case weekly_goal_minutes task of None \<Rightarrow> 0 | Some g \<Rightarrow> g)
               \<le> done_minutes_by_period e repo (id' task)),
          (c \<or> (Task.task_type task = WEEKLY_TIME_QUOTA
           \<and> 0 < (case weekly_goal_minutes task of None \<Rightarrow> 0 | Some g \<Rightarrow> g)
           \<and> (case weekly_goal_minutes task of None \<Rightarrow> 0 | Some g \<Rightarrow> g)
               \<le> done_minutes_by_period e repo (id' task))),
          stx, msg)"
    using type_part_fields [of e repo task c] by blast
  have "compute_task_state e repo task nowu nowl s = Inr (repo', \<lparr>TaskState.task_id = id' task,
          TaskState.title = Task.title task,
          TaskState.task_type = Task.task_type task,
          TaskState.enabled = Task.enabled task,
          active_today = (weekday nowl \<in> set (active_weekdays (schedule task))),
          in_workweek = (weekday nowl < 5),
          skipped_today =
            (skipped_date_local (get_snooze_state repo (id' task)) = Some (isoformat (date_of nowl))),
          snoozed = sn,
          TaskState.snoozed_until_utc = su,
          running = (Task.task_type task = WEEKLY_TIME_QUOTA \<and> is_session_running repo (id' task)),
          completed_override = c,
          done_by_minutes =
            (Task.task_type task = WEEKLY_TIME_QUOTA
             \<and> 0 < (case weekly_goal_minutes task of None \<Rightarrow> 0 | Some g \<Rightarrow> g)
             \<and> (case weekly_goal_minutes task of None \<Rightarrow> 0 | Some g \<Rightarrow> g)
                 \<le> done_minutes_by_period e repo (id' task)),
          done' =
            (c
             \<or> (Task.task_type task = WEEKLY_TIME_QUOTA
                \<and> 0 < (case weekly_goal_minutes task of None \<Rightarrow> 0 | Some g \<Rightarrow> g)
                \<and> (case weekly_goal_minutes task of None \<Rightarrow> 0 | Some g \<Rightarrow> g)
                    \<le> done_minutes_by_period e repo (id' task))),
          goal_minutes =
            (if Task.task_type task = WEEKLY_TIME_QUOTA
             then Some (case weekly_goal_minutes task of None \<Rightarrow> 0 | Some g \<Rightarrow> g) else None),
          done_minutes =
            (if Task.task_type task = WEEKLY_TIME_QUOTA
             then Some (done_minutes_by_period e repo (id' task)) else None),
          can_remind_now =
            (Task.enabled task
             \<and> weekday nowl < 5
             \<and> weekday nowl \<in> set (active_weekdays (schedule task))
             \<and> reminders_start_time s \<le> time_of nowl
             \<and> skipped_date_local (get_snooze_state repo (id' task)) \<noteq> Some (isoformat (date_of nowl))
             \<and> \<not> sn
             \<and> \<not> (c
                  \<or> (Task.task_type task = WEEKLY_TIME_QUOTA
                     \<and> 0 < (case weekly_goal_minutes task of None \<Rightarrow> 0 | Some g \<Rightarrow> g)
                     \<and> (case weekly_goal_minutes task of None \<Rightarrow> 0 | Some g \<Rightarrow> g)
                         \<le> done_minutes_by_period e repo (id' task)))
             \<and> \<not> (Task.task_type task = WEEKLY_TIME_QUOTA \<and> is_session_running repo (id' task))),
          reminder_message = msg,
          status_text = stx\<rparr>)"
    unfolding compute_task_state_def
    by (simp add: is_in_workweek_aware [OF l] sp after_start_time_aware [OF l] cr tp tf
        sum_bind_def Let_def)
  then show ?thesis
    using sp by (simp add: c tf)
qed

lemma dt_less_aware_utc:
  "tzinfo nowu = Some ou \<Longrightarrow>
   dt_less nowu (if tzinfo u = None then replace_tzinfo u (Some utc) else u)
     = Inr (wall nowu - ou < wall u - (case tzinfo u of None \<Rightarrow> 0 | Some off \<Rightarrow> off))"
  by (cases "tzinfo u") (simp_all add: dt_less_def instant_def replace_tzinfo_def utc_def)

lemma snoozed_flag:
  assumes u: "tzinfo nowu = Some ou"
    and sp: "snooze_part repo task nowu (get_snooze_state repo (id' task)) = Inr (repo', sn, su)"
  shows "sn = (\<exists>u. SnoozeState.snoozed_until_utc (get_snooze_state repo (id' task)) = Some u
               \<and> dt_less nowu (if tzinfo u = None then replace_tzinfo u (Some utc) else u) = Inr True)"
proof (cases "snoozes repo (id' task)")
  case None
  then show ?thesis
    using sp unfolding snooze_part_aware [OF u] by (simp add: get_snooze_state_def)
next
  case (Some row)
  show ?thesis
  proof (cases "SnoozeState.snoozed_until_utc row")
    case None
    then show ?thesis
      using sp Some unfolding snooze_part_aware [OF u] by (simp add: get_snooze_state_def)
  next
    case (Some x)
    then show ?thesis
      using sp \<open>snoozes repo (id' task) = Some row\<close>
      unfolding snooze_part_aware [OF u]
      by (simp add: get_snooze_state_def dt_less_aware_utc [OF u] split: if_splits)
  qed
qed


text \<open>
  The completion flag is a record for the period key that the repository takes from the
  clock; and the minutes of the period of an instant are those that the repository
  counts, when the instant is the reading of the clock.
\<close>

lemma completed_override_record:
  "(is_completed_for_current_period e repo tid = Inr True) =
     (\<exists>pk. period_key_workweek (to_local e (now_utc e)) = Inr pk \<and> (tid, pk) \<in> completions repo)"
  by (simp add: is_completed_total period_key_workweek_to_local)

lemma done_minutes_at_clock:
  "done_minutes_at e repo tid (now_utc e) (to_local e (now_utc e)) = done_minutes_by_period e repo tid"
  by (simp add: done_minutes_at_def done_minutes_by_period_def session_minutes_at_def
      session_minutes_def)



text \<open>
  C2, as amended. The repository takes the current period from the clock at the time it
  is asked, not from the instant that \<open>compute_task_state\<close> is given. The flag
  \<open>completed_override\<close> says that a completion record exists for the period key of the
  clock. For a quota task \<open>done\<close> is true exactly when that record exists, or the weekly
  goal is greater than zero and the minutes accumulated for the period of the clock are
  at least the goal (an unset goal counts as 0); for a complete-once task exactly when
  that record exists. In particular a quota task with \<open>done_minutes \<ge> goal_minutes > 0\<close>
  is done and not remindable, record or no record. When the instant given has the period
  key of the clock, the record is the one of the period of the instant; and when the
  instant given is the reading of the clock, as \<open>tick\<close> gives it, \<open>done\<close> is as stated with
  the record and the minutes of the period of the instant.
\<close>

theorem compute_task_state_done:
  assumes u: "tzinfo nowu = Some ou" and l: "tzinfo nowl = Some ol"
  shows "\<exists>repo' st. compute_task_state e repo task nowu nowl s = Inr (repo', st)
    \<and> completed_override st =
        (\<exists>pk. period_key_workweek (to_local e (now_utc e)) = Inr pk
              \<and> (id' task, pk) \<in> completions repo)
    \<and> (Task.task_type task = WEEKLY_TIME_QUOTA \<longrightarrow>
          goal_minutes st = Some (case weekly_goal_minutes task of None \<Rightarrow> 0 | Some g \<Rightarrow> g)
          \<and> done_minutes st = Some (done_minutes_by_period e repo (id' task))
          \<and> done' st =
              (completed_override st
               \<or> (0 < (case weekly_goal_minutes task of None \<Rightarrow> 0 | Some g \<Rightarrow> g)
                  \<and> (case weekly_goal_minutes task of None \<Rightarrow> 0 | Some g \<Rightarrow> g)
                      \<le> done_minutes_by_period e repo (id' task))))
    \<and> (Task.task_type task = COMPLETE_ONCE \<longrightarrow> done' st = completed_override st)
    \<and> (Task.task_type task = WEEKLY_TIME_QUOTA
         \<and> 0 < (case weekly_goal_minutes task of None \<Rightarrow> 0 | Some g \<Rightarrow> g)
         \<and> (case weekly_goal_minutes task of None \<Rightarrow> 0 | Some g \<Rightarrow> g)
             \<le> done_minutes_by_period e repo (id' task)
        \<longrightarrow> done' st \<and> \<not> can_remind_now st)
    \<and> (period_key_workweek nowl = period_key_workweek (to_local e (now_utc e)) \<longrightarrow>
          completed_override st =
            (\<exists>pk. period_key_workweek nowl = Inr pk \<and> (id' task, pk) \<in> completions repo))
    \<and> (nowu = now_utc e \<and> nowl = to_local e nowu \<longrightarrow>
          done' st =
            ((\<exists>pk. period_key_workweek nowl = Inr pk \<and> (id' task, pk) \<in> completions repo)
             \<or> (Task.task_type task = WEEKLY_TIME_QUOTA
                \<and> 0 < (case weekly_goal_minutes task of None \<Rightarrow> 0 | Some g \<Rightarrow> g)
                \<and> (case weekly_goal_minutes task of None \<Rightarrow> 0 | Some g \<Rightarrow> g)
                    \<le> done_minutes_at e repo (id' task) nowu nowl))
          \<and> (Task.task_type task = WEEKLY_TIME_QUOTA \<longrightarrow>
                done_minutes st = Some (done_minutes_at e repo (id' task) nowu nowl)))"
proof -
  note k = completed_override_record [of e repo "id' task"]
  from compute_task_state_aware [OF u l, of repo task e s]
  obtain repo' st where
    c: "compute_task_state e repo task nowu nowl s = Inr (repo', st)"
    and f: "completed_override st = (is_completed_for_current_period e repo (id' task) = Inr True)"
      "goal_minutes st = (if Task.task_type task = WEEKLY_TIME_QUOTA
             then Some (case weekly_goal_minutes task of None \<Rightarrow> 0 | Some g \<Rightarrow> g) else None)"
      "done_minutes st = (if Task.task_type task = WEEKLY_TIME_QUOTA
             then Some (done_minutes_by_period e repo (id' task)) else None)"
      "done' st = (is_completed_for_current_period e repo (id' task) = Inr True
             \<or> (Task.task_type task = WEEKLY_TIME_QUOTA
                \<and> 0 < (case weekly_goal_minutes task of None \<Rightarrow> 0 | Some g \<Rightarrow> g)
                \<and> (case weekly_goal_minutes task of None \<Rightarrow> 0 | Some g \<Rightarrow> g)
                    \<le> done_minutes_by_period e repo (id' task)))"
      "can_remind_now st \<longrightarrow> \<not> done' st"
    by (elim exE conjE) simp
  have t: "Task.task_type task = COMPLETE_ONCE \<Longrightarrow> Task.task_type task \<noteq> WEEKLY_TIME_QUOTA"
    by simp
  have a: "completed_override st =
      (\<exists>pk. period_key_workweek nowl = Inr pk \<and> (id' task, pk) \<in> completions repo)"
    if "period_key_workweek nowl = period_key_workweek (to_local e (now_utc e))"
    unfolding that f(1) by (rule k)
  have b: "done' st =
        ((\<exists>pk. period_key_workweek nowl = Inr pk \<and> (id' task, pk) \<in> completions repo)
         \<or> (Task.task_type task = WEEKLY_TIME_QUOTA
            \<and> 0 < (case weekly_goal_minutes task of None \<Rightarrow> 0 | Some g \<Rightarrow> g)
            \<and> (case weekly_goal_minutes task of None \<Rightarrow> 0 | Some g \<Rightarrow> g)
                \<le> done_minutes_at e repo (id' task) nowu nowl))"
      and b': "Task.task_type task = WEEKLY_TIME_QUOTA \<longrightarrow>
         done_minutes st = Some (done_minutes_at e repo (id' task) nowu nowl)"
    if "nowu = now_utc e \<and> nowl = to_local e nowu"
  proof -
    from that have n: "nowu = now_utc e" "nowl = to_local e (now_utc e)" by simp_all
    show "done' st =
        ((\<exists>pk. period_key_workweek nowl = Inr pk \<and> (id' task, pk) \<in> completions repo)
         \<or> (Task.task_type task = WEEKLY_TIME_QUOTA
            \<and> 0 < (case weekly_goal_minutes task of None \<Rightarrow> 0 | Some g \<Rightarrow> g)
            \<and> (case weekly_goal_minutes task of None \<Rightarrow> 0 | Some g \<Rightarrow> g)
                \<le> done_minutes_at e repo (id' task) nowu nowl))"
      unfolding n done_minutes_at_clock f(4) k by (rule refl)
    show "Task.task_type task = WEEKLY_TIME_QUOTA \<longrightarrow>
         done_minutes st = Some (done_minutes_at e repo (id' task) nowu nowl)"
      unfolding n done_minutes_at_clock by (simp add: f(3))
  qed
  show ?thesis
    apply (rule exI [of _ repo'])
    apply (rule exI [of _ st])
    apply (intro conjI impI)
             apply (rule c)
            apply (simp only: f(1) k)
           apply (simp add: f(2))
          apply (simp add: f(3))
         apply (simp add: f(4) f(1))
        apply (simp add: f(4) f(1) t)
    using f(4) f(5) apply blast
    using f(4) f(5) apply blast
      apply (erule a)
     apply (erule b)
    apply (erule b' [rule_format])
    apply assumption
    done
qed

text \<open>
  C2 as stated fails in two ways. For a goal of 0: with no session and no completion
  record the accumulated minutes (0) are at least the goal (0), and the task is not done.
  For an instant outside the week of the clock: with the clock on Thursday 2026-02-19 and
  a completion record for that week, a complete-once task is done at the instant
  Thursday 2026-02-26, and there is no record for the period of that instant,
  \<^verbatim>\<open>workweek:2026-02-23\<close>.
\<close>

theorem compute_task_state_done_counterexample:
  "\<not> isl (compute_task_state \<lparr>clock = 739666 * DAY + 600 * MINUTE, zone = 0\<rparr> migrate
       \<lparr>id' = 1, title = ''Weekly Learning'', task_type = WEEKLY_TIME_QUOTA, enabled = True,
        schedule = \<lparr>active_weekdays = [0, 1, 2, 3, 4]\<rparr>, weekly_goal_minutes = Some 0,
        period = ''workweek''\<rparr>
       \<lparr>wall = 739666 * DAY + 600 * MINUTE, tzinfo = Some 0\<rparr>
       \<lparr>wall = 739666 * DAY + 600 * MINUTE, tzinfo = Some 0\<rparr>
       (get_settings migrate))
   \<and> \<not> done' (snd (projr (compute_task_state \<lparr>clock = 739666 * DAY + 600 * MINUTE, zone = 0\<rparr> migrate
       \<lparr>id' = 1, title = ''Weekly Learning'', task_type = WEEKLY_TIME_QUOTA, enabled = True,
        schedule = \<lparr>active_weekdays = [0, 1, 2, 3, 4]\<rparr>, weekly_goal_minutes = Some 0,
        period = ''workweek''\<rparr>
       \<lparr>wall = 739666 * DAY + 600 * MINUTE, tzinfo = Some 0\<rparr>
       \<lparr>wall = 739666 * DAY + 600 * MINUTE, tzinfo = Some 0\<rparr>
       (get_settings migrate))))
   \<and> weekly_minutes_for_current_workweek \<lparr>clock = 739666 * DAY + 600 * MINUTE, zone = 0\<rparr> migrate 1
       = Inr 0
   \<and> (0::int) \<ge> (case Some 0 of None \<Rightarrow> 0 | Some g \<Rightarrow> g)
   \<and> \<not> isl (compute_task_state \<lparr>clock = 739666 * DAY + 600 * MINUTE, zone = 0\<rparr>
       (migrate\<lparr>completions := {(2, ''workweek:2026-02-16'')}\<rparr>)
       \<lparr>id' = 2, title = ''Weekly report'', task_type = COMPLETE_ONCE, enabled = True,
        schedule = \<lparr>active_weekdays = [0, 1, 2, 3, 4]\<rparr>, weekly_goal_minutes = None,
        period = ''workweek''\<rparr>
       \<lparr>wall = 739673 * DAY + 600 * MINUTE, tzinfo = Some 0\<rparr>
       \<lparr>wall = 739673 * DAY + 600 * MINUTE, tzinfo = Some 0\<rparr>
       (get_settings migrate))
   \<and> done' (snd (projr (compute_task_state \<lparr>clock = 739666 * DAY + 600 * MINUTE, zone = 0\<rparr>
       (migrate\<lparr>completions := {(2, ''workweek:2026-02-16'')}\<rparr>)
       \<lparr>id' = 2, title = ''Weekly report'', task_type = COMPLETE_ONCE, enabled = True,
        schedule = \<lparr>active_weekdays = [0, 1, 2, 3, 4]\<rparr>, weekly_goal_minutes = None,
        period = ''workweek''\<rparr>
       \<lparr>wall = 739673 * DAY + 600 * MINUTE, tzinfo = Some 0\<rparr>
       \<lparr>wall = 739673 * DAY + 600 * MINUTE, tzinfo = Some 0\<rparr>
       (get_settings migrate))))
   \<and> period_key_workweek \<lparr>wall = 739673 * DAY + 600 * MINUTE, tzinfo = Some 0\<rparr>
       = Inr ''workweek:2026-02-23''
   \<and> (2, ''workweek:2026-02-23'') \<notin> completions (migrate\<lparr>completions := {(2, ''workweek:2026-02-16'')}\<rparr>)"
proof -
  let ?e = "\<lparr>clock = 739666 * DAY + 600 * MINUTE, zone = 0\<rparr>"
  let ?t = "\<lparr>id' = 1, title = ''Weekly Learning'', task_type = WEEKLY_TIME_QUOTA, enabled = True,
        schedule = \<lparr>active_weekdays = [0, 1, 2, 3, 4]\<rparr>, weekly_goal_minutes = Some 0,
        period = ''workweek''\<rparr>"
  let ?n = "\<lparr>wall = 739666 * DAY + 600 * MINUTE, tzinfo = Some 0\<rparr>"
  let ?r2 = "migrate\<lparr>completions := {(2, ''workweek:2026-02-16'')}\<rparr>"
  let ?t2 = "\<lparr>id' = 2, title = ''Weekly report'', task_type = COMPLETE_ONCE, enabled = True,
        schedule = \<lparr>active_weekdays = [0, 1, 2, 3, 4]\<rparr>, weekly_goal_minutes = None,
        period = ''workweek''\<rparr>"
  let ?n2 = "\<lparr>wall = 739673 * DAY + 600 * MINUTE, tzinfo = Some 0\<rparr>"
  have m: "done_minutes_by_period ?e migrate 1 = 0"
    by (simp add: done_minutes_by_period_def migrate_def)
  have k: "is_completed_for_current_period ?e migrate 1 = Inr False"
    by (simp add: is_completed_total migrate_def)
  have h: "tzinfo ?n = Some 0" by simp
  from compute_task_state_aware [OF h h, of migrate ?t ?e "get_settings migrate"]
  obtain repo' st where
    c: "compute_task_state ?e migrate ?t ?n ?n (get_settings migrate) = Inr (repo', st)"
    and d: "\<not> done' st"
    by (elim exE conjE) (simp add: m k)
  have dc: "date_of (to_local ?e (now_utc ?e)) = 739666"
    by (simp add: to_local_def astimezone_def instant_def local_tz_def now_utc_def utc_def
        date_of_def DAY_def MINUTE_def)
  have wc: "weekday (to_local ?e (now_utc ?e)) = 3"
    by (simp add: weekday_def date_weekday_def dc)
  have i1: "isoformat 739663 = ''2026-02-16''" by code_simp
  have i2: "isoformat 739670 = ''2026-02-23''" by code_simp
  have k2: "is_completed_for_current_period ?e ?r2 2 = Inr True"
    by (simp add: is_completed_total dc wc i1)
  have h2: "tzinfo ?n2 = Some 0" by simp
  from compute_task_state_aware [OF h2 h2, of ?r2 ?t2 ?e "get_settings migrate"]
  obtain repo2 st2 where
    c2: "compute_task_state ?e ?r2 ?t2 ?n2 ?n2 (get_settings migrate) = Inr (repo2, st2)"
    and d2: "done' st2"
    by (elim exE conjE) (simp add: k2)
  have dn: "date_of ?n2 = 739673" by (simp add: date_of_def DAY_def MINUTE_def)
  have wn: "weekday ?n2 = 3" by (simp add: weekday_def date_weekday_def dn)
  have dm: "date_of (combine 739670 0 (Some 0)) = 739670"
    using DAY_pos by (simp add: date_of_def combine_def)
  have pk: "period_key_workweek ?n2 = Inr ''workweek:2026-02-23''"
    unfolding period_key_workweek_def workweek_window_for_aware [OF h2] dn wn
    by (simp add: dm i2)
  have nr: "(2, ''workweek:2026-02-23'') \<notin> completions ?r2" by simp
  show ?thesis
    apply (intro conjI)
           apply (simp add: c)
          apply (simp add: c d)
         apply (simp add: weekly_minutes_for_current_workweek_sum m)
        apply simp
       apply (simp add: c2)
      apply (simp add: c2 d2)
     apply (rule pk)
    apply (rule nr)
    done
qed


text \<open>
  A goal of 60 minutes and 60 manual minutes logged on the Monday of the week; the
  instant given is the reading of the clock.
\<close>

theorem compute_task_state_done_witness:
  "tzinfo \<lparr>wall = 739666 * DAY + 600 * MINUTE, tzinfo = Some 0\<rparr> = Some 0
   \<and> \<lparr>wall = 739666 * DAY + 600 * MINUTE, tzinfo = Some 0\<rparr>
       = now_utc \<lparr>clock = 739666 * DAY + 600 * MINUTE, zone = 0\<rparr>
   \<and> \<lparr>wall = 739666 * DAY + 600 * MINUTE, tzinfo = Some 0\<rparr>
       = to_local \<lparr>clock = 739666 * DAY + 600 * MINUTE, zone = 0\<rparr>
           \<lparr>wall = 739666 * DAY + 600 * MINUTE, tzinfo = Some 0\<rparr>
   \<and> done_minutes_by_period \<lparr>clock = 739666 * DAY + 600 * MINUTE, zone = 0\<rparr>
        (migrate\<lparr>sessions :=
           [\<lparr>session_id = 1, task_id = 1,
             start_utc = \<lparr>wall = 739663 * DAY + 600 * MINUTE, tzinfo = Some 0\<rparr>,
             end_utc = Some \<lparr>wall = 739663 * DAY + 600 * MINUTE, tzinfo = Some 0\<rparr>,
             manual_minutes = 60\<rparr>]\<rparr>) 1 = 60
   \<and> (\<exists>repo' st.
         compute_task_state \<lparr>clock = 739666 * DAY + 600 * MINUTE, zone = 0\<rparr>
           (migrate\<lparr>sessions :=
              [\<lparr>session_id = 1, task_id = 1,
                start_utc = \<lparr>wall = 739663 * DAY + 600 * MINUTE, tzinfo = Some 0\<rparr>,
                end_utc = Some \<lparr>wall = 739663 * DAY + 600 * MINUTE, tzinfo = Some 0\<rparr>,
                manual_minutes = 60\<rparr>]\<rparr>)
           \<lparr>id' = 1, title = ''Weekly Learning (60 min)'', task_type = WEEKLY_TIME_QUOTA,
            enabled = True, schedule = \<lparr>active_weekdays = [0, 1, 2, 3, 4]\<rparr>,
            weekly_goal_minutes = Some 60, period = ''workweek''\<rparr>
           \<lparr>wall = 739666 * DAY + 600 * MINUTE, tzinfo = Some 0\<rparr>
           \<lparr>wall = 739666 * DAY + 600 * MINUTE, tzinfo = Some 0\<rparr>
           (get_settings migrate) = Inr (repo', st)
         \<and> done' st \<and> \<not> can_remind_now st \<and> \<not> completed_override st
         \<and> done_minutes st = Some 60
         \<and> done_minutes st
             = Some (done_minutes_at \<lparr>clock = 739666 * DAY + 600 * MINUTE, zone = 0\<rparr>
                 (migrate\<lparr>sessions :=
                    [\<lparr>session_id = 1, task_id = 1,
                      start_utc = \<lparr>wall = 739663 * DAY + 600 * MINUTE, tzinfo = Some 0\<rparr>,
                      end_utc = Some \<lparr>wall = 739663 * DAY + 600 * MINUTE, tzinfo = Some 0\<rparr>,
                      manual_minutes = 60\<rparr>]\<rparr>) 1
                 \<lparr>wall = 739666 * DAY + 600 * MINUTE, tzinfo = Some 0\<rparr>
                 \<lparr>wall = 739666 * DAY + 600 * MINUTE, tzinfo = Some 0\<rparr>))"
proof -
  let ?e = "\<lparr>clock = 739666 * DAY + 600 * MINUTE, zone = 0\<rparr>"
  let ?n = "\<lparr>wall = 739666 * DAY + 600 * MINUTE, tzinfo = Some 0\<rparr>"
  let ?r = "migrate\<lparr>sessions :=
           [\<lparr>session_id = 1, task_id = 1,
             start_utc = \<lparr>wall = 739663 * DAY + 600 * MINUTE, tzinfo = Some 0\<rparr>,
             end_utc = Some \<lparr>wall = 739663 * DAY + 600 * MINUTE, tzinfo = Some 0\<rparr>,
             manual_minutes = 60\<rparr>]\<rparr>"
  let ?t = "\<lparr>id' = 1, title = ''Weekly Learning (60 min)'', task_type = WEEKLY_TIME_QUOTA,
            enabled = True, schedule = \<lparr>active_weekdays = [0, 1, 2, 3, 4]\<rparr>,
            weekly_goal_minutes = Some 60, period = ''workweek''\<rparr>"
  have h: "tzinfo ?n = Some 0" by simp
  have nu: "?n = now_utc ?e" by (simp add: now_utc_def utc_def)
  have nl: "?n = to_local ?e ?n"
    by (simp add: to_local_def astimezone_def instant_def local_tz_def)
  have m: "done_minutes_by_period ?e ?r 1 = 60"
    by (simp add: done_minutes_by_period_def session_period_key_def session_minutes_def
        period_key_workweek_def workweek_window_for_def combine_def
        to_local_def astimezone_def instant_def local_tz_def
        now_utc_def replace_tzinfo_def utc_def date_of_def weekday_def date_weekday_def
        DAY_def MINUTE_def Let_def)
  have m': "done_minutes_by_period ?e ?r (id' ?t) = 60"
    using m by simp
  have nr: "\<not> (\<exists>pk. period_key_workweek (to_local ?e (now_utc ?e)) = Inr pk
        \<and> (id' ?t, pk) \<in> completions ?r)"
    by (simp add: migrate_def)
  have qt: "Task.task_type ?t = WEEKLY_TIME_QUOTA" by simp
  have hyp: "Task.task_type ?t = WEEKLY_TIME_QUOTA
         \<and> 0 < (case weekly_goal_minutes ?t of None \<Rightarrow> 0 | Some g \<Rightarrow> g)
         \<and> (case weekly_goal_minutes ?t of None \<Rightarrow> 0 | Some g \<Rightarrow> g)
             \<le> done_minutes_by_period ?e ?r (id' ?t)"
    unfolding m' by simp
  from compute_task_state_done [OF h h, of ?e ?r ?t "get_settings migrate"]
  obtain repo' st where
    c: "compute_task_state ?e ?r ?t ?n ?n (get_settings migrate) = Inr (repo', st)"
    and co: "completed_override st =
        (\<exists>pk. period_key_workweek (to_local ?e (now_utc ?e)) = Inr pk
              \<and> (id' ?t, pk) \<in> completions ?r)"
    and q: "Task.task_type ?t = WEEKLY_TIME_QUOTA \<longrightarrow>
          goal_minutes st = Some (case weekly_goal_minutes ?t of None \<Rightarrow> 0 | Some g \<Rightarrow> g)
          \<and> done_minutes st = Some (done_minutes_by_period ?e ?r (id' ?t))
          \<and> done' st =
              (completed_override st
               \<or> (0 < (case weekly_goal_minutes ?t of None \<Rightarrow> 0 | Some g \<Rightarrow> g)
                  \<and> (case weekly_goal_minutes ?t of None \<Rightarrow> 0 | Some g \<Rightarrow> g)
                      \<le> done_minutes_by_period ?e ?r (id' ?t)))"
    and d: "Task.task_type ?t = WEEKLY_TIME_QUOTA
         \<and> 0 < (case weekly_goal_minutes ?t of None \<Rightarrow> 0 | Some g \<Rightarrow> g)
         \<and> (case weekly_goal_minutes ?t of None \<Rightarrow> 0 | Some g \<Rightarrow> g)
             \<le> done_minutes_by_period ?e ?r (id' ?t)
        \<longrightarrow> done' st \<and> \<not> can_remind_now st"
    and ag: "?n = now_utc ?e \<and> ?n = to_local ?e ?n \<longrightarrow>
          done' st =
            ((\<exists>pk. period_key_workweek ?n = Inr pk \<and> (id' ?t, pk) \<in> completions ?r)
             \<or> (Task.task_type ?t = WEEKLY_TIME_QUOTA
                \<and> 0 < (case weekly_goal_minutes ?t of None \<Rightarrow> 0 | Some g \<Rightarrow> g)
                \<and> (case weekly_goal_minutes ?t of None \<Rightarrow> 0 | Some g \<Rightarrow> g)
                    \<le> done_minutes_at ?e ?r (id' ?t) ?n ?n))
          \<and> (Task.task_type ?t = WEEKLY_TIME_QUOTA \<longrightarrow>
                done_minutes st = Some (done_minutes_at ?e ?r (id' ?t) ?n ?n))"
    by (elim exE conjE) (rule that; assumption)
  from d hyp have dd: "done' st \<and> \<not> can_remind_now st" by (rule mp)
  from co nr have nc: "\<not> completed_override st" by simp
  from q qt have "done_minutes st = Some (done_minutes_by_period ?e ?r (id' ?t))"
    by (elim impE conjE)
  then have d60: "done_minutes st = Some 60" unfolding m' .
  from ag nu nl qt have "done_minutes st = Some (done_minutes_at ?e ?r (id' ?t) ?n ?n)"
    by (elim impE conjE) (rule conjI)
  then have dat: "done_minutes st = Some (done_minutes_at ?e ?r 1 ?n ?n)" by simp
  show ?thesis
    apply (intro conjI)
        apply (rule h)
       apply (rule nu)
      apply (rule nl)
     apply (rule m)
    apply (rule exI [of _ repo'], rule exI [of _ st])
    apply (intro conjI)
         apply (rule c)
        apply (rule dd [THEN conjunct1])
       apply (rule dd [THEN conjunct2])
      apply (rule nc)
     apply (rule d60)
    apply (rule dat)
    done
qed

lemma dt_le_aware_utc:
  "tzinfo nowu = Some ou \<Longrightarrow>
   dt_le (if tzinfo u = None then replace_tzinfo u (Some utc) else u) nowu
     = Inr (wall u - (case tzinfo u of None \<Rightarrow> 0 | Some off \<Rightarrow> off) \<le> wall nowu - ou)"
  by (cases "tzinfo u") (simp_all add: dt_le_def instant_def replace_tzinfo_def utc_def)

lemma compute_task_state_again:
  assumes l: "tzinfo nowl = Some ol"
    and sp1: "snooze_part repo task nowu (get_snooze_state repo (id' task))
              = Inr (repo\<lparr>snoozes := m\<rparr>, sn, su)"
    and sp2: "snooze_part (repo\<lparr>snoozes := m\<rparr>) task nowu
                (get_snooze_state (repo\<lparr>snoozes := m\<rparr>) (id' task))
              = Inr (repo\<lparr>snoozes := m\<rparr>, sn, su)"
    and sk: "skipped_date_local (get_snooze_state (repo\<lparr>snoozes := m\<rparr>) (id' task))
             = skipped_date_local (get_snooze_state repo (id' task))"
  shows "compute_task_state e (repo\<lparr>snoozes := m\<rparr>) task nowu nowl s
         = compute_task_state e repo task nowu nowl s"
proof -
  obtain c where c: "is_completed_for_current_period e repo (id' task) = Inr c"
    by (simp add: is_completed_total)
  obtain a1 a2 a3 a4 a5 a6 a7 where
    tp: "type_part e repo task c = Inr (a1, a2, a3, a4, a5, a6, a7)"
    using type_part_fields [of e repo task c] by blast
  show ?thesis
    unfolding compute_task_state_def
    by (simp add: sp1 sp2 sk is_in_workweek_aware [OF l] after_start_time_aware [OF l] c tp
        sum_bind_def Let_def)
qed

text \<open>
  C3. When the stored snooze instant of the task (read as UTC when it carries no zone) is
  less than or equal to \<open>nowu\<close>, \<open>compute_task_state\<close> reports \<open>snoozed\<close> false and returns
  the repository with that one snooze cleared and nothing else changed: reading the
  snooze state afterwards gives no snooze, with the skip date kept. Run again on the
  returned repository, it returns the same state and leaves the repository as it is.
\<close>

theorem compute_task_state_clears_expired_snooze:
  assumes u: "tzinfo nowu = Some ou" and l: "tzinfo nowl = Some ol"
    and row: "snoozes repo (id' task) = Some row"
    and until: "SnoozeState.snoozed_until_utc row = Some until"
    and expired: "dt_le (if tzinfo until = None then replace_tzinfo until (Some utc) else until) nowu
                  = Inr True"
  shows "\<exists>st.
      compute_task_state e repo task nowu nowl s =
        Inr (repo\<lparr>snoozes := (snoozes repo)(id' task \<mapsto> row\<lparr>SnoozeState.snoozed_until_utc := None\<rparr>)\<rparr>, st)
    \<and> \<not> snoozed st
    \<and> TaskState.snoozed_until_utc st = None
    \<and> get_snooze_state
         (repo\<lparr>snoozes := (snoozes repo)(id' task \<mapsto> row\<lparr>SnoozeState.snoozed_until_utc := None\<rparr>)\<rparr>)
         (id' task)
       = \<lparr>SnoozeState.snoozed_until_utc = None, skipped_date_local = skipped_date_local row\<rparr>
    \<and> compute_task_state e
         (repo\<lparr>snoozes := (snoozes repo)(id' task \<mapsto> row\<lparr>SnoozeState.snoozed_until_utc := None\<rparr>)\<rparr>)
         task nowu nowl s =
        Inr (repo\<lparr>snoozes := (snoozes repo)(id' task \<mapsto> row\<lparr>SnoozeState.snoozed_until_utc := None\<rparr>)\<rparr>, st)"
proof -
  let ?m = "(snoozes repo)(id' task \<mapsto> row\<lparr>SnoozeState.snoozed_until_utc := None\<rparr>)"
  let ?repo' = "repo\<lparr>snoozes := ?m\<rparr>"
  have x: "\<not> wall nowu - ou < wall until - (case tzinfo until of None \<Rightarrow> 0 | Some off \<Rightarrow> off)"
    using expired by (simp add: dt_le_aware_utc [OF u])
  have sp1: "snooze_part repo task nowu (get_snooze_state repo (id' task)) = Inr (?repo', False, None)"
    using row until x by (simp add: snooze_part_aware [OF u])
  have sp2: "snooze_part ?repo' task nowu (get_snooze_state ?repo' (id' task)) = Inr (?repo', False, None)"
    by (simp add: snooze_part_aware [OF u])
  have g: "get_snooze_state ?repo' (id' task)
           = \<lparr>SnoozeState.snoozed_until_utc = None, skipped_date_local = skipped_date_local row\<rparr>"
    by (simp add: get_snooze_state_def)
  have sk: "skipped_date_local (get_snooze_state ?repo' (id' task))
            = skipped_date_local (get_snooze_state repo (id' task))"
    using row by (simp add: get_snooze_state_def)
  have again: "compute_task_state e ?repo' task nowu nowl s = compute_task_state e repo task nowu nowl s"
    using l sp1 sp2 sk by (rule compute_task_state_again)
  from compute_task_state_aware [OF u l, of repo task e s]
  obtain st where
    c: "compute_task_state e repo task nowu nowl s = Inr (?repo', st)"
    and f: "\<not> snoozed st" "TaskState.snoozed_until_utc st = None"
    by (elim exE conjE) (simp add: sp1)
  show ?thesis
    using c f g again by (intro exI [of _ st]) simp
qed


text \<open>
  A snooze until Thursday 2026-02-19 09:00 UTC, seen at 10:00 UTC.
\<close>

theorem compute_task_state_clears_expired_snooze_witness:
  "tzinfo \<lparr>wall = 739666 * DAY + 600 * MINUTE, tzinfo = Some 0\<rparr> = Some 0
   \<and> dt_le \<lparr>wall = 739666 * DAY + 540 * MINUTE, tzinfo = Some 0\<rparr>
            \<lparr>wall = 739666 * DAY + 600 * MINUTE, tzinfo = Some 0\<rparr> = Inr True
   \<and> (\<exists>st.
        compute_task_state \<lparr>clock = 739666 * DAY + 600 * MINUTE, zone = 0\<rparr>
          (migrate\<lparr>snoozes := [1 \<mapsto>
             \<lparr>SnoozeState.snoozed_until_utc = Some \<lparr>wall = 739666 * DAY + 540 * MINUTE, tzinfo = Some 0\<rparr>,
              skipped_date_local = None\<rparr>]\<rparr>)
          \<lparr>id' = 1, title = ''Weekly Learning (60 min)'', task_type = WEEKLY_TIME_QUOTA,
           enabled = True, schedule = \<lparr>active_weekdays = [0, 1, 2, 3, 4]\<rparr>,
           weekly_goal_minutes = Some 60, period = ''workweek''\<rparr>
          \<lparr>wall = 739666 * DAY + 600 * MINUTE, tzinfo = Some 0\<rparr>
          \<lparr>wall = 739666 * DAY + 600 * MINUTE, tzinfo = Some 0\<rparr>
          (get_settings migrate)
        = Inr (migrate\<lparr>snoozes := [1 \<mapsto> \<lparr>SnoozeState.snoozed_until_utc = None, skipped_date_local = None\<rparr>]\<rparr>, st)
        \<and> \<not> snoozed st
        \<and> get_snooze_state
             (migrate\<lparr>snoozes := [1 \<mapsto> \<lparr>SnoozeState.snoozed_until_utc = None, skipped_date_local = None\<rparr>]\<rparr>) 1
           = \<lparr>SnoozeState.snoozed_until_utc = None, skipped_date_local = None\<rparr>)"
proof -
  let ?n = "\<lparr>wall = 739666 * DAY + 600 * MINUTE, tzinfo = Some 0\<rparr>"
  let ?u = "\<lparr>wall = 739666 * DAY + 540 * MINUTE, tzinfo = Some 0\<rparr>"
  let ?row = "\<lparr>SnoozeState.snoozed_until_utc = Some ?u, skipped_date_local = None\<rparr>"
  let ?repo = "migrate\<lparr>snoozes := [1 \<mapsto> ?row]\<rparr>"
  let ?t = "\<lparr>id' = 1, title = ''Weekly Learning (60 min)'', task_type = WEEKLY_TIME_QUOTA,
           enabled = True, schedule = \<lparr>active_weekdays = [0, 1, 2, 3, 4]\<rparr>,
           weekly_goal_minutes = Some 60, period = ''workweek''\<rparr>"
  have h: "tzinfo ?n = Some 0" by simp
  have r: "snoozes ?repo (id' ?t) = Some ?row" by simp
  have v: "SnoozeState.snoozed_until_utc ?row = Some ?u" by simp
  have x: "dt_le ?u ?n = Inr True"
    by (simp add: dt_le_def instant_def MINUTE_def)
  have x': "dt_le (if tzinfo ?u = None then replace_tzinfo ?u (Some utc) else ?u) ?n = Inr True"
    using x by simp
  let ?repo' = "migrate\<lparr>snoozes := [1 \<mapsto> \<lparr>SnoozeState.snoozed_until_utc = None, skipped_date_local = None\<rparr>]\<rparr>"
  from compute_task_state_clears_expired_snooze [OF h h r v x',
      of "\<lparr>clock = 739666 * DAY + 600 * MINUTE, zone = 0\<rparr>" "get_settings migrate"]
  obtain st where
    "compute_task_state \<lparr>clock = 739666 * DAY + 600 * MINUTE, zone = 0\<rparr> ?repo ?t ?n ?n
       (get_settings migrate) = Inr (?repo', st)"
    "\<not> snoozed st"
    "get_snooze_state ?repo' 1 = \<lparr>SnoozeState.snoozed_until_utc = None, skipped_date_local = None\<rparr>"
    by (elim exE conjE) simp
  then show ?thesis
    using h x by blast
qed

section \<open>Properties of the scheduler\<close>

lemma expired_cleared_refl: "expired_cleared nowu m m"
  by (simp add: expired_cleared_def)

lemma snooze_part_cleared:
  assumes u: "tzinfo nowu = Some ou"
    and rel: "expired_cleared nowu (snoozes repo0) m"
  shows "\<exists>r0 m' sn su.
      snooze_part repo0 task nowu (get_snooze_state repo0 (id' task)) = Inr (r0, sn, su)
    \<and> snooze_part (repo0\<lparr>snoozes := m\<rparr>) task nowu
        (get_snooze_state (repo0\<lparr>snoozes := m\<rparr>) (id' task)) = Inr (repo0\<lparr>snoozes := m'\<rparr>, sn, su)
    \<and> expired_cleared nowu (snoozes repo0) m'
    \<and> skipped_date_local (get_snooze_state (repo0\<lparr>snoozes := m\<rparr>) (id' task))
        = skipped_date_local (get_snooze_state repo0 (id' task))"
proof -
  let ?tid = "id' task"
  from rel have "m ?tid = snoozes repo0 ?tid
        \<or> (\<exists>row u. snoozes repo0 ?tid = Some row
              \<and> SnoozeState.snoozed_until_utc row = Some u
              \<and> dt_less nowu (if tzinfo u = None then replace_tzinfo u (Some utc) else u) = Inr False
              \<and> m ?tid = Some (row\<lparr>SnoozeState.snoozed_until_utc := None\<rparr>))"
    by (simp add: expired_cleared_def)
  then show ?thesis
  proof
    assume same: "m ?tid = snoozes repo0 ?tid"
    show ?thesis
    proof (cases "snoozes repo0 ?tid")
      case None
      then show ?thesis
        using same rel unfolding snooze_part_aware [OF u]
        by (simp add: get_snooze_state_def) blast
    next
      case (Some row)
      show ?thesis
      proof (cases "SnoozeState.snoozed_until_utc row")
        case None
        then show ?thesis
          using same Some rel unfolding snooze_part_aware [OF u]
          by (simp add: get_snooze_state_def) blast
      next
        case (Some x)
        show ?thesis
        proof (cases "wall nowu - ou < wall x - (case tzinfo x of None \<Rightarrow> 0 | Some off \<Rightarrow> off)")
          case True
          then show ?thesis
            using same \<open>snoozes repo0 ?tid = Some row\<close> Some rel unfolding snooze_part_aware [OF u]
            by (simp add: get_snooze_state_def) blast
        next
          case False
          let ?m' = "m(?tid \<mapsto> row\<lparr>SnoozeState.snoozed_until_utc := None\<rparr>)"
          have "expired_cleared nowu (snoozes repo0) ?m'"
            using rel \<open>snoozes repo0 ?tid = Some row\<close> Some False
            by (simp add: expired_cleared_def dt_less_aware_utc [OF u])
          then show ?thesis
            using same \<open>snoozes repo0 ?tid = Some row\<close> Some False unfolding snooze_part_aware [OF u]
            by (simp add: get_snooze_state_def) blast
        qed
      qed
    qed
  next
    assume "\<exists>row u. snoozes repo0 ?tid = Some row
              \<and> SnoozeState.snoozed_until_utc row = Some u
              \<and> dt_less nowu (if tzinfo u = None then replace_tzinfo u (Some utc) else u) = Inr False
              \<and> m ?tid = Some (row\<lparr>SnoozeState.snoozed_until_utc := None\<rparr>)"
    then obtain row x where
      r: "snoozes repo0 ?tid = Some row" "SnoozeState.snoozed_until_utc row = Some x"
        "dt_less nowu (if tzinfo x = None then replace_tzinfo x (Some utc) else x) = Inr False"
        "m ?tid = Some (row\<lparr>SnoozeState.snoozed_until_utc := None\<rparr>)"
      by blast
    have x: "\<not> wall nowu - ou < wall x - (case tzinfo x of None \<Rightarrow> 0 | Some off \<Rightarrow> off)"
      using r(3) by (simp add: dt_less_aware_utc [OF u])
    show ?thesis
      using r x rel unfolding snooze_part_aware [OF u]
      by (simp add: get_snooze_state_def) blast
  qed
qed

lemma compute_task_state_cleared:
  assumes u: "tzinfo nowu = Some ou" and l: "tzinfo nowl = Some ol"
    and rel: "expired_cleared nowu (snoozes repo0) m"
  shows "\<exists>r0 m' st.
      compute_task_state e repo0 task nowu nowl s = Inr (r0, st)
    \<and> compute_task_state e (repo0\<lparr>snoozes := m\<rparr>) task nowu nowl s = Inr (repo0\<lparr>snoozes := m'\<rparr>, st)
    \<and> expired_cleared nowu (snoozes repo0) m'"
proof -
  from snooze_part_cleared [OF u rel, of task]
  obtain r0 m' sn su where
    sp0: "snooze_part repo0 task nowu (get_snooze_state repo0 (id' task)) = Inr (r0, sn, su)"
    and sp: "snooze_part (repo0\<lparr>snoozes := m\<rparr>) task nowu
        (get_snooze_state (repo0\<lparr>snoozes := m\<rparr>) (id' task)) = Inr (repo0\<lparr>snoozes := m'\<rparr>, sn, su)"
    and rel': "expired_cleared nowu (snoozes repo0) m'"
    and sk: "skipped_date_local (get_snooze_state (repo0\<lparr>snoozes := m\<rparr>) (id' task))
        = skipped_date_local (get_snooze_state repo0 (id' task))"
    by blast
  have "\<exists>m0. r0 = repo0\<lparr>snoozes := m0\<rparr>"
    using sp0 unfolding snooze_part_aware [OF u]
    by (auto split: option.splits if_splits intro: exI [of _ "snoozes repo0"])
  then obtain m0 where r0: "r0 = repo0\<lparr>snoozes := m0\<rparr>" by blast
  obtain c where c: "is_completed_for_current_period e repo0 (id' task) = Inr c"
    by (simp add: is_completed_total)
  obtain a1 a2 a3 a4 a5 a6 a7 where
    tp: "type_part e repo0 task c = Inr (a1, a2, a3, a4, a5, a6, a7)"
    using type_part_fields [of e repo0 task c] by blast
  show ?thesis
    unfolding compute_task_state_def
    using rel'
    by (simp add: sp0 sp sk r0 is_in_workweek_aware [OF l] after_start_time_aware [OF l] c tp
        sum_bind_def Let_def) blast
qed


lemma should_throttle_utc:
  assumes "tzinfo nowu = Some utc"
    and "\<forall>tid d. last_fired_utc self tid = Some d \<longrightarrow> tzinfo d = Some utc"
  shows "should_throttle self tid nowu rm =
     Inr (case last_fired_utc self tid of
            None \<Rightarrow> False
          | Some d \<Rightarrow> wall nowu - wall d < rm * MINUTE)"
  using assms
  by (auto simp: should_throttle_def sum_bind_def dt_sub_def instant_def split: option.splits)

lemma fired_append: "fired (xs @ ys) tid = (fired xs tid \<or> fired ys tid)"
  by (auto simp: fired_def)

lemma fired_Nil: "fired [] tid = False"
  by (simp add: fired_def)

lemma fired_single: "fired [ev] tid = (ReminderEvent.task_id ev = tid)"
  by (auto simp: fired_def)

lemma eligible_iff:
  "eligible e repo t =
     (\<exists>repo' st. compute_task_state e repo t (now_utc e) (to_local e (now_utc e)) (get_settings repo)
                   = Inr (repo', st) \<and> can_remind_now st)"
  by (auto simp: eligible_def split: sum.splits)

text \<open>
  The loop of a tick, started on a repository that is \<open>repo0\<close> with some expired snoozes
  cleared, where \<open>repo0\<close> is the repository the tick found.
\<close>

lemma tick_tasks_loop:
  fixes e :: env and repo0 :: Repository
  defines "nowu \<equiv> now_utc e"
  defines "nowl \<equiv> to_local e (now_utc e)"
  defines "s \<equiv> get_settings repo0"
  assumes inv: "\<forall>tid d. last_fired_utc self tid = Some d \<longrightarrow> tzinfo d = Some utc"
    and rel: "expired_cleared nowu (snoozes repo0) m"
  shows "\<exists>m' self' new.
      tick_tasks e nowu nowl s rm ts (repo0\<lparr>snoozes := m\<rparr>) self emitted
        = Inr (repo0\<lparr>snoozes := m'\<rparr>, self', emitted @ new)
    \<and> expired_cleared nowu (snoozes repo0) m'
    \<and> (\<forall>tid d. last_fired_utc self' tid = Some d \<longrightarrow> tzinfo d = Some utc)
    \<and> (\<forall>tid. fired new tid \<longrightarrow>
           last_fired_utc self' tid = Some nowu
           \<and> should_throttle self tid nowu rm = Inr False
           \<and> (\<exists>t \<in> set ts. id' t = tid \<and> eligible e repo0 t))
    \<and> (\<forall>tid. \<not> fired new tid \<longrightarrow> last_fired_utc self' tid = last_fired_utc self tid)
    \<and> (\<forall>t \<in> set ts. eligible e repo0 t \<and> should_throttle self (id' t) nowu rm = Inr False
           \<longrightarrow> fired new (id' t))"
  using inv rel
proof (induction ts arbitrary: m self emitted)
  case Nil
  then show ?case
    by (intro exI [of _ m] exI [of _ self] exI [of _ "[]"]) (simp add: fired_Nil)
next
  case (Cons t ts)
  have u: "tzinfo nowu = Some utc" by (simp add: nowu_def now_utc_def)
  have l: "tzinfo nowl = Some (zone e)" by (simp add: nowl_def tzinfo_to_local)
  from compute_task_state_cleared [OF u l Cons.prems(2), of e t s]
  obtain r0 m1 st where
    c0: "compute_task_state e repo0 t nowu nowl s = Inr (r0, st)"
    and c: "compute_task_state e (repo0\<lparr>snoozes := m\<rparr>) t nowu nowl s = Inr (repo0\<lparr>snoozes := m1\<rparr>, st)"
    and rel1: "expired_cleared nowu (snoozes repo0) m1"
    by blast
  have el: "eligible e repo0 t = can_remind_now st"
    using c0 by (simp add: eligible_def nowu_def nowl_def s_def)
  note th = should_throttle_utc [OF u Cons.prems(1)]
  show ?case
  proof (cases "can_remind_now st \<and> should_throttle self (id' t) nowu rm = Inr False")
    case False
    then have step: "tick_tasks e nowu nowl s rm (t # ts) (repo0\<lparr>snoozes := m\<rparr>) self emitted
        = tick_tasks e nowu nowl s rm ts (repo0\<lparr>snoozes := m1\<rparr>) self emitted"
      by (auto simp: c th)
    from Cons.IH [OF Cons.prems(1) rel1, of emitted]
    obtain m' self' new where
      r: "tick_tasks e nowu nowl s rm ts (repo0\<lparr>snoozes := m1\<rparr>) self emitted
            = Inr (repo0\<lparr>snoozes := m'\<rparr>, self', emitted @ new)"
      and p: "expired_cleared nowu (snoozes repo0) m'"
        "\<forall>tid d. last_fired_utc self' tid = Some d \<longrightarrow> tzinfo d = Some utc"
        "\<forall>tid. fired new tid \<longrightarrow>
           last_fired_utc self' tid = Some nowu
           \<and> should_throttle self tid nowu rm = Inr False
           \<and> (\<exists>t \<in> set ts. id' t = tid \<and> eligible e repo0 t)"
        "\<forall>tid. \<not> fired new tid \<longrightarrow> last_fired_utc self' tid = last_fired_utc self tid"
        "\<forall>t \<in> set ts. eligible e repo0 t \<and> should_throttle self (id' t) nowu rm = Inr False
           \<longrightarrow> fired new (id' t)"
      by blast
    show ?thesis
      apply (intro exI [of _ m'] exI [of _ self'] exI [of _ new] conjI)
           apply (simp only: step r)
          apply (rule p(1))
         apply (rule p(2))
      using p(3) apply auto[1]
       apply (rule p(4))
      using p(5) False el apply auto[1]
      done
  next
    case True
    let ?self1 = "self\<lparr>last_fired_utc := (last_fired_utc self)(id' t \<mapsto> nowu)\<rparr>"
    let ?ev = "\<lparr>ReminderEvent.task_id = id' t, title = Task.title t, message = reminder_message st\<rparr>"
    have step: "tick_tasks e nowu nowl s rm (t # ts) (repo0\<lparr>snoozes := m\<rparr>) self emitted
        = tick_tasks e nowu nowl s rm ts (repo0\<lparr>snoozes := m1\<rparr>) ?self1 (emitted @ [?ev])"
      using True by (simp add: c fire_def)
    have inv1: "\<forall>tid d. last_fired_utc ?self1 tid = Some d \<longrightarrow> tzinfo d = Some utc"
      using Cons.prems(1) u by simp
    have th1: "should_throttle ?self1 tid nowu rm = should_throttle self tid nowu rm"
      if "tid \<noteq> id' t" for tid
      using that by (simp add: should_throttle_def)
    from Cons.IH [OF inv1 rel1, of "emitted @ [?ev]"]
    obtain m' self' new where
      r: "tick_tasks e nowu nowl s rm ts (repo0\<lparr>snoozes := m1\<rparr>) ?self1 (emitted @ [?ev])
            = Inr (repo0\<lparr>snoozes := m'\<rparr>, self', (emitted @ [?ev]) @ new)"
      and p: "expired_cleared nowu (snoozes repo0) m'"
        "\<forall>tid d. last_fired_utc self' tid = Some d \<longrightarrow> tzinfo d = Some utc"
        "\<forall>tid. fired new tid \<longrightarrow>
           last_fired_utc self' tid = Some nowu
           \<and> should_throttle ?self1 tid nowu rm = Inr False
           \<and> (\<exists>t \<in> set ts. id' t = tid \<and> eligible e repo0 t)"
        "\<forall>tid. \<not> fired new tid \<longrightarrow> last_fired_utc self' tid = last_fired_utc ?self1 tid"
        "\<forall>t \<in> set ts. eligible e repo0 t \<and> should_throttle ?self1 (id' t) nowu rm = Inr False
           \<longrightarrow> fired new (id' t)"
      by blast
    have f: "fired (?ev # new) tid = (tid = id' t \<or> fired new tid)" for tid
      by (auto simp: fired_def)
    have a3: "last_fired_utc self' tid = Some nowu
           \<and> should_throttle self tid nowu rm = Inr False
           \<and> (\<exists>t' \<in> set (t # ts). id' t' = tid \<and> eligible e repo0 t')"
      if "fired (?ev # new) tid" for tid
    proof (cases "tid = id' t")
      case True
      have "last_fired_utc self' tid = Some nowu"
        using p(3) p(4) True by (cases "fired new tid") auto
      then show ?thesis
        using True \<open>can_remind_now st \<and> should_throttle self (id' t) nowu rm = Inr False\<close> el
        by simp
    next
      case False
      then have "fired new tid" using that f by simp
      then show ?thesis
        using p(3) th1 [OF False] by auto
    qed
    have a4: "last_fired_utc self' tid = last_fired_utc self tid"
      if "\<not> fired (?ev # new) tid" for tid
      using that p(4) f by simp
    have a5: "fired (?ev # new) (id' t')"
      if "t' \<in> set (t # ts)" "eligible e repo0 t' \<and> should_throttle self (id' t') nowu rm = Inr False"
      for t'
    proof (cases "id' t' = id' t")
      case True
      then show ?thesis by (simp add: f)
    next
      case False
      then have "t' \<in> set ts" using that(1) by auto
      then show ?thesis
        using p(5) that(2) th1 [OF False] f by auto
    qed
    show ?thesis
      apply (intro exI [of _ m'] exI [of _ self'] exI [of _ "?ev # new"] conjI)
           apply (simp only: step r) apply simp
          apply (rule p(1))
         apply (rule p(2))
        using a3 apply blast
       using a4 apply blast
      using a5 apply blast
      done
  qed
qed

lemma tick_spec:
  assumes inv: "\<forall>tid d. last_fired_utc self tid = Some d \<longrightarrow> tzinfo d = Some utc"
  shows "\<exists>repo' self' new.
      tick e repo self = Inr (repo', self', new)
    \<and> (\<forall>tid d. last_fired_utc self' tid = Some d \<longrightarrow> tzinfo d = Some utc)
    \<and> (\<forall>tid. fired new tid \<longrightarrow>
           last_fired_utc self' tid = Some (now_utc e)
           \<and> should_throttle self tid (now_utc e) (repeat_minutes_at repo) = Inr False
           \<and> (\<exists>t \<in> set (list_tasks repo). id' t = tid \<and> eligible e repo t))
    \<and> (\<forall>tid. \<not> fired new tid \<longrightarrow> last_fired_utc self' tid = last_fired_utc self tid)
    \<and> (\<forall>t \<in> set (list_tasks repo).
           eligible e repo t
           \<and> should_throttle self (id' t) (now_utc e) (repeat_minutes_at repo) = Inr False
           \<longrightarrow> fired new (id' t))"
proof -
  have r: "repo\<lparr>snoozes := snoozes repo\<rparr> = repo" by simp
  let ?rm = "repeat_minutes_at repo"
  from tick_tasks_loop [OF inv expired_cleared_refl, of e repo ?rm "list_tasks repo" "[]"]
  obtain m' self' new where
    t: "tick_tasks e (now_utc e) (to_local e (now_utc e)) (get_settings repo) ?rm (list_tasks repo)
          repo self [] = Inr (repo\<lparr>snoozes := m'\<rparr>, self', new)"
    and p: "\<forall>tid d. last_fired_utc self' tid = Some d \<longrightarrow> tzinfo d = Some utc"
      "\<forall>tid. fired new tid \<longrightarrow>
           last_fired_utc self' tid = Some (now_utc e)
           \<and> should_throttle self tid (now_utc e) ?rm = Inr False
           \<and> (\<exists>t \<in> set (list_tasks repo). id' t = tid \<and> eligible e repo t)"
      "\<forall>tid. \<not> fired new tid \<longrightarrow> last_fired_utc self' tid = last_fired_utc self tid"
      "\<forall>t \<in> set (list_tasks repo).
           eligible e repo t \<and> should_throttle self (id' t) (now_utc e) ?rm = Inr False
           \<longrightarrow> fired new (id' t)"
    unfolding r by (elim exE conjE) simp
  have "tick e repo self = Inr (repo\<lparr>snoozes := m'\<rparr>, self', new)"
    using t by (simp add: tick_def repeat_minutes_at_def Let_def)
  then show ?thesis
    using p by blast
qed


lemma length_run_ticks: "length (run_ticks self trace) = length trace"
  by (induction trace arbitrary: self) (auto split: sum.splits)

lemma should_throttle_last_fired:
  "last_fired_utc self' tid = last_fired_utc self tid \<Longrightarrow>
   should_throttle self' tid nowu rm = should_throttle self tid nowu rm"
  by (simp add: should_throttle_def)

lemma repeat_minutes_at_pos: "1 \<le> repeat_minutes_at repo"
  by (simp add: repeat_minutes_at_def)

text \<open>Once a task has fired at or after \<open>T\<close>, every later firing is a full interval after \<open>T\<close>.\<close>

lemma run_ticks_after_fire:
  assumes "\<forall>tid d. last_fired_utc self tid = Some d \<longrightarrow> tzinfo d = Some utc"
    and "last_fired_utc self tid = Some d" and "T \<le> wall d"
    and "j < length trace" and "fired (run_ticks self trace ! j) tid"
  shows "repeat_minutes_at (snd (trace ! j)) * MINUTE \<le> clock (fst (trace ! j)) - T"
  using assms
proof (induction trace arbitrary: self d j)
  case Nil
  then show ?case by simp
next
  case (Cons x rest)
  obtain e repo where x: "x = (e, repo)" by (cases x)
  from tick_spec [OF Cons.prems(1), of e repo]
  obtain repo' self' new where
    t: "tick e repo self = Inr (repo', self', new)"
    and p: "\<forall>tid d. last_fired_utc self' tid = Some d \<longrightarrow> tzinfo d = Some utc"
      "\<forall>tid. fired new tid \<longrightarrow>
           last_fired_utc self' tid = Some (now_utc e)
           \<and> should_throttle self tid (now_utc e) (repeat_minutes_at repo) = Inr False"
      "\<forall>tid. \<not> fired new tid \<longrightarrow> last_fired_utc self' tid = last_fired_utc self tid"
    by blast
  have u: "tzinfo (now_utc e) = Some utc" by (simp add: now_utc_def)
  have th: "should_throttle self tid (now_utc e) (repeat_minutes_at repo)
            = Inr (clock e - wall d < repeat_minutes_at repo * MINUTE)"
    using should_throttle_utc [OF u Cons.prems(1), of tid] Cons.prems(2)
    by (simp add: now_utc_def)
  have fire: "repeat_minutes_at repo * MINUTE \<le> clock e - T" if "fired new tid"
    using that p(2) th Cons.prems(3) by auto
  have "0 \<le> repeat_minutes_at repo * MINUTE"
    using repeat_minutes_at_pos [of repo] MINUTE_pos by simp
  then have next_d: "\<exists>d'. last_fired_utc self' tid = Some d' \<and> T \<le> wall d'"
    using p(2) p(3) fire Cons.prems(2,3) by (cases "fired new tid") (auto simp: now_utc_def)
  show ?case
  proof (cases j)
    case 0
    then show ?thesis
      using Cons.prems(5) fire by (simp add: x t)
  next
    case (Suc j')
    obtain d' where d': "last_fired_utc self' tid = Some d'" "T \<le> wall d'"
      using next_d by blast
    have "j' < length rest" using Cons.prems(4) Suc by simp
    moreover have "fired (run_ticks self' rest ! j') tid"
      using Cons.prems(5) Suc by (simp add: x t)
    ultimately show ?thesis
      using Cons.IH [OF p(1) d'] Suc by simp
  qed
qed

lemma run_ticks_no_refire:
  assumes "\<forall>tid d. last_fired_utc self tid = Some d \<longrightarrow> tzinfo d = Some utc"
    and "i < j" and "j < length trace"
    and "fired (run_ticks self trace ! i) tid" and "fired (run_ticks self trace ! j) tid"
  shows "repeat_minutes_at (snd (trace ! j)) * MINUTE \<le> clock (fst (trace ! j)) - clock (fst (trace ! i))"
  using assms
proof (induction trace arbitrary: self i j)
  case Nil
  then show ?case by simp
next
  case (Cons x rest)
  obtain e repo where x: "x = (e, repo)" by (cases x)
  from tick_spec [OF Cons.prems(1), of e repo]
  obtain repo' self' new where
    t: "tick e repo self = Inr (repo', self', new)"
    and p: "\<forall>tid d. last_fired_utc self' tid = Some d \<longrightarrow> tzinfo d = Some utc"
      "\<forall>tid. fired new tid \<longrightarrow> last_fired_utc self' tid = Some (now_utc e)"
    by blast
  obtain j' where j: "j = Suc j'" using Cons.prems(2) by (cases j) auto
  have jl: "j' < length rest" using Cons.prems(3) j by simp
  have fj: "fired (run_ticks self' rest ! j') tid"
    using Cons.prems(5) j by (simp add: x t)
  show ?case
  proof (cases i)
    case 0
    then have "fired new tid" using Cons.prems(4) by (simp add: x t)
    then have lf: "last_fired_utc self' tid = Some (now_utc e)" using p(2) by simp
    have "clock e \<le> wall (now_utc e)" by (simp add: now_utc_def)
    from run_ticks_after_fire [OF p(1) lf this jl fj]
    show ?thesis using 0 j by (simp add: x)
  next
    case (Suc i')
    have "i' < j'" using Cons.prems(2) Suc j by simp
    moreover have "fired (run_ticks self' rest ! i') tid"
      using Cons.prems(4) Suc by (simp add: x t)
    ultimately show ?thesis
      using Cons.IH [OF p(1) _ jl _ fj] Suc j by simp
  qed
qed

text \<open>An eligible task that is not throttled fires, when it has not fired since.\<close>

lemma run_ticks_fires:
  assumes "\<forall>tid d. last_fired_utc self tid = Some d \<longrightarrow> tzinfo d = Some utc"
    and "j < length trace"
    and "\<forall>k < j. \<not> fired (run_ticks self trace ! k) tid"
    and "t \<in> set (list_tasks (snd (trace ! j)))" and "id' t = tid"
    and "eligible (fst (trace ! j)) (snd (trace ! j)) t"
    and "should_throttle self tid (now_utc (fst (trace ! j))) (repeat_minutes_at (snd (trace ! j)))
         = Inr False"
  shows "fired (run_ticks self trace ! j) tid"
  using assms
proof (induction trace arbitrary: self j)
  case Nil
  then show ?case by simp
next
  case (Cons x rest)
  obtain e repo where x: "x = (e, repo)" by (cases x)
  from tick_spec [OF Cons.prems(1), of e repo]
  obtain repo' self' new where
    tk: "tick e repo self = Inr (repo', self', new)"
    and p: "\<forall>tid d. last_fired_utc self' tid = Some d \<longrightarrow> tzinfo d = Some utc"
      "\<forall>tid. \<not> fired new tid \<longrightarrow> last_fired_utc self' tid = last_fired_utc self tid"
      "\<forall>t \<in> set (list_tasks repo).
           eligible e repo t
           \<and> should_throttle self (id' t) (now_utc e) (repeat_minutes_at repo) = Inr False
           \<longrightarrow> fired new (id' t)"
    by blast
  show ?case
  proof (cases j)
    case 0
    then show ?thesis
      using Cons.prems(4,5,6,7) p(3) by (auto simp: x tk)
  next
    case (Suc j')
    have "\<not> fired new tid"
      using Cons.prems(3) Suc by (auto simp: x tk dest: spec [of _ 0])
    then have lf: "last_fired_utc self' tid = last_fired_utc self tid"
      using p(2) by simp
    have 1: "j' < length rest" using Cons.prems(2) Suc by simp
    have 2: "\<forall>k < j'. \<not> fired (run_ticks self' rest ! k) tid"
    proof (intro allI impI)
      fix k assume "k < j'"
      then have "Suc k < j" using Suc by simp
      then have "\<not> fired (run_ticks self (x # rest) ! Suc k) tid"
        using Cons.prems(3) by blast
      then show "\<not> fired (run_ticks self' rest ! k) tid" by (simp add: x tk)
    qed
    have 3: "t \<in> set (list_tasks (snd (rest ! j')))"
      using Cons.prems(4) Suc by simp
    have 4: "eligible (fst (rest ! j')) (snd (rest ! j')) t"
      using Cons.prems(6) Suc by simp
    have 5: "should_throttle self' tid (now_utc (fst (rest ! j'))) (repeat_minutes_at (snd (rest ! j')))
         = Inr False"
      using Cons.prems(7) Suc by (simp add: should_throttle_last_fired [OF lf])
    show ?thesis
      using Cons.IH [OF p(1) 1 2 3 Cons.prems(5) 4 5] Suc by (simp add: x tk)
  qed
qed

lemma run_ticks_fires_again:
  assumes "\<forall>tid d. last_fired_utc self tid = Some d \<longrightarrow> tzinfo d = Some utc"
    and "i < j" and "j < length trace"
    and "fired (run_ticks self trace ! i) tid"
    and "\<forall>k. i < k \<and> k < j \<longrightarrow> \<not> fired (run_ticks self trace ! k) tid"
    and "t \<in> set (list_tasks (snd (trace ! j)))" and "id' t = tid"
    and "eligible (fst (trace ! j)) (snd (trace ! j)) t"
    and "repeat_minutes_at (snd (trace ! j)) * MINUTE \<le> clock (fst (trace ! j)) - clock (fst (trace ! i))"
  shows "fired (run_ticks self trace ! j) tid"
  using assms
proof (induction trace arbitrary: self i j)
  case Nil
  then show ?case by simp
next
  case (Cons x rest)
  obtain e repo where x: "x = (e, repo)" by (cases x)
  from tick_spec [OF Cons.prems(1), of e repo]
  obtain repo' self' new where
    tk: "tick e repo self = Inr (repo', self', new)"
    and p: "\<forall>tid d. last_fired_utc self' tid = Some d \<longrightarrow> tzinfo d = Some utc"
      "\<forall>tid. fired new tid \<longrightarrow> last_fired_utc self' tid = Some (now_utc e)"
    by blast
  obtain j' where j: "j = Suc j'" using Cons.prems(2) by (cases j) auto
  have jl: "j' < length rest" using Cons.prems(3) j by simp
  have tj: "t \<in> set (list_tasks (snd (rest ! j')))" using Cons.prems(6) j by simp
  have ej: "eligible (fst (rest ! j')) (snd (rest ! j')) t" using Cons.prems(8) j by simp
  show ?case
  proof (cases i)
    case 0
    then have "fired new tid" using Cons.prems(4) by (simp add: x tk)
    then have lf: "last_fired_utc self' tid = Some (now_utc e)" using p(2) by simp
    have none: "\<forall>k < j'. \<not> fired (run_ticks self' rest ! k) tid"
    proof (intro allI impI)
      fix k assume "k < j'"
      then have "i < Suc k \<and> Suc k < j" using 0 j by simp
      then have "\<not> fired (run_ticks self (x # rest) ! Suc k) tid"
        using Cons.prems(5) by blast
      then show "\<not> fired (run_ticks self' rest ! k) tid" by (simp add: x tk)
    qed
    have u: "tzinfo (now_utc (fst (rest ! j'))) = Some utc" by (simp add: now_utc_def)
    have "should_throttle self' tid (now_utc (fst (rest ! j'))) (repeat_minutes_at (snd (rest ! j')))
         = Inr False"
      using should_throttle_utc [OF u p(1), of tid] lf Cons.prems(9) 0 j
      by (simp add: now_utc_def x)
    from run_ticks_fires [OF p(1) jl none tj Cons.prems(7) ej this]
    show ?thesis using j by (simp add: x tk)
  next
    case (Suc i')
    have 1: "i' < j'" using Cons.prems(2) Suc j by simp
    have 2: "fired (run_ticks self' rest ! i') tid"
      using Cons.prems(4) Suc by (simp add: x tk)
    have 3: "\<forall>k. i' < k \<and> k < j' \<longrightarrow> \<not> fired (run_ticks self' rest ! k) tid"
    proof (intro allI impI)
      fix k assume "i' < k \<and> k < j'"
      then have "i < Suc k \<and> Suc k < j" using Suc j by simp
      then have "\<not> fired (run_ticks self (x # rest) ! Suc k) tid"
        using Cons.prems(5) by blast
      then show "\<not> fired (run_ticks self' rest ! k) tid" by (simp add: x tk)
    qed
    have 4: "repeat_minutes_at (snd (rest ! j')) * MINUTE
             \<le> clock (fst (rest ! j')) - clock (fst (rest ! i'))"
      using Cons.prems(9) Suc j by simp
    show ?thesis
      using Cons.IH [OF p(1) 1 jl 2 3 tj Cons.prems(7) ej 4] j by (simp add: x tk)
  qed
qed

lemma Scheduler_init_inv:
  "\<forall>tid d. last_fired_utc Scheduler_init tid = Some d \<longrightarrow> tzinfo d = Some utc"
  by (simp add: Scheduler_init_def)

lemma eligible_closed:
  "eligible e repo t =
     (Task.enabled t
      \<and> weekday (to_local e (now_utc e)) < 5
      \<and> weekday (to_local e (now_utc e)) \<in> set (active_weekdays (schedule t))
      \<and> reminders_start_time (get_settings repo) \<le> time_of (to_local e (now_utc e))
      \<and> skipped_date_local (get_snooze_state repo (id' t))
          \<noteq> Some (isoformat (date_of (to_local e (now_utc e))))
      \<and> \<not> (\<exists>u. SnoozeState.snoozed_until_utc (get_snooze_state repo (id' t)) = Some u
               \<and> dt_less (now_utc e) (if tzinfo u = None then replace_tzinfo u (Some utc) else u)
                   = Inr True)
      \<and> \<not> (is_completed_for_current_period e repo (id' t) = Inr True
           \<or> (Task.task_type t = WEEKLY_TIME_QUOTA
              \<and> 0 < (case weekly_goal_minutes t of None \<Rightarrow> 0 | Some g \<Rightarrow> g)
              \<and> (case weekly_goal_minutes t of None \<Rightarrow> 0 | Some g \<Rightarrow> g)
                  \<le> done_minutes_by_period e repo (id' t)))
      \<and> \<not> (Task.task_type t = WEEKLY_TIME_QUOTA \<and> is_session_running repo (id' t)))"
proof -
  have u: "tzinfo (now_utc e) = Some utc" by (simp add: now_utc_def)
  have l: "tzinfo (to_local e (now_utc e)) = Some (zone e)" by (rule tzinfo_to_local)
  from compute_task_state_aware [OF u l, of repo t e "get_settings repo"]
  obtain repo' sn su st where
    sp: "snooze_part repo t (now_utc e) (get_snooze_state repo (id' t)) = Inr (repo', sn, su)"
    and c: "compute_task_state e repo t (now_utc e) (to_local e (now_utc e)) (get_settings repo)
            = Inr (repo', st)"
    and f: "can_remind_now st =
        (Task.enabled t
         \<and> weekday (to_local e (now_utc e)) < 5
         \<and> weekday (to_local e (now_utc e)) \<in> set (active_weekdays (schedule t))
         \<and> reminders_start_time (get_settings repo) \<le> time_of (to_local e (now_utc e))
         \<and> skipped_date_local (get_snooze_state repo (id' t))
             \<noteq> Some (isoformat (date_of (to_local e (now_utc e))))
         \<and> \<not> sn
         \<and> \<not> (is_completed_for_current_period e repo (id' t) = Inr True
              \<or> (Task.task_type t = WEEKLY_TIME_QUOTA
                 \<and> 0 < (case weekly_goal_minutes t of None \<Rightarrow> 0 | Some g \<Rightarrow> g)
                 \<and> (case weekly_goal_minutes t of None \<Rightarrow> 0 | Some g \<Rightarrow> g)
                     \<le> done_minutes_by_period e repo (id' t)))
         \<and> \<not> (Task.task_type t = WEEKLY_TIME_QUOTA \<and> is_session_running repo (id' t)))"
    by (elim exE conjE) simp
  have "eligible e repo t = can_remind_now st"
    by (simp add: eligible_def c)
  then show ?thesis
    by (simp only: f snoozed_flag [OF u sp])
qed

text \<open>
  C8. In every sequence of ticks of a scheduler started by \<open>Scheduler_init\<close>, whatever the
  repository is at each tick (so also when the task stopped and started being eligible in
  between): a task that fired at a tick does not fire at a later tick that comes less
  than the repeat interval after it, the interval being the setting read at that later
  tick, at least 1 minute; a task that fired, is listed and eligible at a later tick that
  comes at least the interval after its last firing, fires at that tick; and a task that
  has not fired yet fires at the first tick at which it is listed and eligible. With an
  interval of 5 minutes and ticks at \<open>T\<close>, \<open>T + 3\<close> and \<open>T + 6\<close> minutes, a task eligible at
  \<open>T\<close> and at \<open>T + 6\<close> fires at \<open>T\<close>, not at \<open>T + 3\<close>, and at \<open>T + 6\<close>.
\<close>

theorem run_ticks_repeat_interval:
  "(\<forall>i j. i < j \<and> j < length trace
           \<and> fired (run_ticks Scheduler_init trace ! i) tid
           \<and> clock (fst (trace ! j)) - clock (fst (trace ! i))
               < repeat_minutes_at (snd (trace ! j)) * MINUTE
        \<longrightarrow> \<not> fired (run_ticks Scheduler_init trace ! j) tid)
   \<and> (\<forall>i j t. i < j \<and> j < length trace
           \<and> fired (run_ticks Scheduler_init trace ! i) tid
           \<and> (\<forall>k. i < k \<and> k < j \<longrightarrow> \<not> fired (run_ticks Scheduler_init trace ! k) tid)
           \<and> t \<in> set (list_tasks (snd (trace ! j))) \<and> id' t = tid
           \<and> eligible (fst (trace ! j)) (snd (trace ! j)) t
           \<and> repeat_minutes_at (snd (trace ! j)) * MINUTE
               \<le> clock (fst (trace ! j)) - clock (fst (trace ! i))
        \<longrightarrow> fired (run_ticks Scheduler_init trace ! j) tid)
   \<and> (\<forall>j t. j < length trace
           \<and> (\<forall>k < j. \<not> fired (run_ticks Scheduler_init trace ! k) tid)
           \<and> t \<in> set (list_tasks (snd (trace ! j))) \<and> id' t = tid
           \<and> eligible (fst (trace ! j)) (snd (trace ! j)) t
        \<longrightarrow> fired (run_ticks Scheduler_init trace ! j) tid)
   \<and> (\<forall>e1 r1 e2 r2 e3 r3 t.
           trace = [(e1, r1), (e2, r2), (e3, r3)]
           \<and> clock e2 = clock e1 + 3 * MINUTE \<and> clock e3 = clock e1 + 6 * MINUTE
           \<and> AppSettings.repeat_interval_minutes (get_settings r2) = 5
           \<and> AppSettings.repeat_interval_minutes (get_settings r3) = 5
           \<and> id' t = tid
           \<and> t \<in> set (list_tasks r1) \<and> t \<in> set (list_tasks r3)
           \<and> eligible e1 r1 t \<and> eligible e3 r3 t
        \<longrightarrow> fired (run_ticks Scheduler_init trace ! 0) tid
            \<and> \<not> fired (run_ticks Scheduler_init trace ! 1) tid
            \<and> fired (run_ticks Scheduler_init trace ! 2) tid)"
proof -
  note inv = Scheduler_init_inv
  let ?out = "run_ticks Scheduler_init trace"
  have safe: "\<not> fired (?out ! j) tid"
    if "i < j" "j < length trace" "fired (?out ! i) tid"
      "clock (fst (trace ! j)) - clock (fst (trace ! i)) < repeat_minutes_at (snd (trace ! j)) * MINUTE"
    for i j
    using run_ticks_no_refire [OF inv that(1) that(2) that(3)] that(4) by fastforce
  have again: "fired (?out ! j) tid"
    if "i < j" "j < length trace" "fired (?out ! i) tid"
      "\<forall>k. i < k \<and> k < j \<longrightarrow> \<not> fired (?out ! k) tid"
      "t \<in> set (list_tasks (snd (trace ! j)))" "id' t = tid"
      "eligible (fst (trace ! j)) (snd (trace ! j)) t"
      "repeat_minutes_at (snd (trace ! j)) * MINUTE \<le> clock (fst (trace ! j)) - clock (fst (trace ! i))"
    for i j t
    using inv that by (rule run_ticks_fires_again)
  have first: "fired (?out ! j) tid"
    if "j < length trace" "\<forall>k < j. \<not> fired (?out ! k) tid"
      "t \<in> set (list_tasks (snd (trace ! j)))" "id' t = tid"
      "eligible (fst (trace ! j)) (snd (trace ! j)) t"
    for j t
  proof -
    have "should_throttle Scheduler_init tid (now_utc (fst (trace ! j)))
            (repeat_minutes_at (snd (trace ! j))) = Inr False"
      by (simp add: should_throttle_def Scheduler_init_def)
    with inv that show ?thesis by (rule run_ticks_fires)
  qed
  have example: "fired (?out ! 0) tid \<and> \<not> fired (?out ! 1) tid \<and> fired (?out ! 2) tid"
    if h: "trace = [(e1, r1), (e2, r2), (e3, r3)]"
      "clock e2 = clock e1 + 3 * MINUTE" "clock e3 = clock e1 + 6 * MINUTE"
      "AppSettings.repeat_interval_minutes (get_settings r2) = 5"
      "AppSettings.repeat_interval_minutes (get_settings r3) = 5"
      "id' t = tid" "t \<in> set (list_tasks r1)" "t \<in> set (list_tasks r3)"
      "eligible e1 r1 t" "eligible e3 r3 t"
    for e1 r1 e2 r2 e3 r3 t
  proof -
    have f0: "fired (?out ! 0) tid"
      using first [of 0 t] h by simp
    have f1: "\<not> fired (?out ! 1) tid"
      using safe [of 0 1] f0 h MINUTE_pos by (simp add: repeat_minutes_at_def)
    have "\<forall>k. 0 < k \<and> k < 2 \<longrightarrow> \<not> fired (?out ! k) tid"
    proof (intro allI impI)
      fix k :: nat assume "0 < k \<and> k < 2"
      then have "k = 1" by simp
      then show "\<not> fired (?out ! k) tid" using f1 by simp
    qed
    then have f2: "fired (?out ! 2) tid"
      using again [of 0 2 t] f0 h MINUTE_pos by (simp add: repeat_minutes_at_def)
    show ?thesis using f0 f1 f2 by simp
  qed
  show ?thesis
    apply (rule conjI)
     apply (intro allI impI, elim conjE, erule (3) safe)
    apply (rule conjI)
     apply (intro allI impI, elim conjE, rule again; assumption)
    apply (rule conjI)
     apply (intro allI impI, elim conjE, rule first; assumption)
    apply (intro allI impI, elim conjE, rule example; assumption)
    done
qed


text \<open>
  The default quota task, no minutes logged, on Thursday 2026-02-19 at 10:00, 10:03 and
  10:06 UTC.
\<close>

theorem run_ticks_repeat_interval_witness:
  "fired (run_ticks Scheduler_init
     [(\<lparr>clock = 739666 * DAY + 600 * MINUTE, zone = 0\<rparr>,
       migrate\<lparr>tasks := [\<lparr>id' = 1, title = ''Weekly Learning (60 min)'',
          task_type = WEEKLY_TIME_QUOTA, enabled = True, schedule = \<lparr>active_weekdays = [0, 1, 2, 3, 4]\<rparr>,
          weekly_goal_minutes = Some 60, period = ''workweek''\<rparr>]\<rparr>),
      (\<lparr>clock = 739666 * DAY + 603 * MINUTE, zone = 0\<rparr>,
       migrate\<lparr>tasks := [\<lparr>id' = 1, title = ''Weekly Learning (60 min)'',
          task_type = WEEKLY_TIME_QUOTA, enabled = True, schedule = \<lparr>active_weekdays = [0, 1, 2, 3, 4]\<rparr>,
          weekly_goal_minutes = Some 60, period = ''workweek''\<rparr>]\<rparr>),
      (\<lparr>clock = 739666 * DAY + 606 * MINUTE, zone = 0\<rparr>,
       migrate\<lparr>tasks := [\<lparr>id' = 1, title = ''Weekly Learning (60 min)'',
          task_type = WEEKLY_TIME_QUOTA, enabled = True, schedule = \<lparr>active_weekdays = [0, 1, 2, 3, 4]\<rparr>,
          weekly_goal_minutes = Some 60, period = ''workweek''\<rparr>]\<rparr>)] ! 0) 1
   \<and> \<not> fired (run_ticks Scheduler_init
     [(\<lparr>clock = 739666 * DAY + 600 * MINUTE, zone = 0\<rparr>,
       migrate\<lparr>tasks := [\<lparr>id' = 1, title = ''Weekly Learning (60 min)'',
          task_type = WEEKLY_TIME_QUOTA, enabled = True, schedule = \<lparr>active_weekdays = [0, 1, 2, 3, 4]\<rparr>,
          weekly_goal_minutes = Some 60, period = ''workweek''\<rparr>]\<rparr>),
      (\<lparr>clock = 739666 * DAY + 603 * MINUTE, zone = 0\<rparr>,
       migrate\<lparr>tasks := [\<lparr>id' = 1, title = ''Weekly Learning (60 min)'',
          task_type = WEEKLY_TIME_QUOTA, enabled = True, schedule = \<lparr>active_weekdays = [0, 1, 2, 3, 4]\<rparr>,
          weekly_goal_minutes = Some 60, period = ''workweek''\<rparr>]\<rparr>),
      (\<lparr>clock = 739666 * DAY + 606 * MINUTE, zone = 0\<rparr>,
       migrate\<lparr>tasks := [\<lparr>id' = 1, title = ''Weekly Learning (60 min)'',
          task_type = WEEKLY_TIME_QUOTA, enabled = True, schedule = \<lparr>active_weekdays = [0, 1, 2, 3, 4]\<rparr>,
          weekly_goal_minutes = Some 60, period = ''workweek''\<rparr>]\<rparr>)] ! 1) 1
   \<and> fired (run_ticks Scheduler_init
     [(\<lparr>clock = 739666 * DAY + 600 * MINUTE, zone = 0\<rparr>,
       migrate\<lparr>tasks := [\<lparr>id' = 1, title = ''Weekly Learning (60 min)'',
          task_type = WEEKLY_TIME_QUOTA, enabled = True, schedule = \<lparr>active_weekdays = [0, 1, 2, 3, 4]\<rparr>,
          weekly_goal_minutes = Some 60, period = ''workweek''\<rparr>]\<rparr>),
      (\<lparr>clock = 739666 * DAY + 603 * MINUTE, zone = 0\<rparr>,
       migrate\<lparr>tasks := [\<lparr>id' = 1, title = ''Weekly Learning (60 min)'',
          task_type = WEEKLY_TIME_QUOTA, enabled = True, schedule = \<lparr>active_weekdays = [0, 1, 2, 3, 4]\<rparr>,
          weekly_goal_minutes = Some 60, period = ''workweek''\<rparr>]\<rparr>),
      (\<lparr>clock = 739666 * DAY + 606 * MINUTE, zone = 0\<rparr>,
       migrate\<lparr>tasks := [\<lparr>id' = 1, title = ''Weekly Learning (60 min)'',
          task_type = WEEKLY_TIME_QUOTA, enabled = True, schedule = \<lparr>active_weekdays = [0, 1, 2, 3, 4]\<rparr>,
          weekly_goal_minutes = Some 60, period = ''workweek''\<rparr>]\<rparr>)] ! 2) 1"
proof -
  let ?t = "\<lparr>id' = 1, title = ''Weekly Learning (60 min)'',
          task_type = WEEKLY_TIME_QUOTA, enabled = True, schedule = \<lparr>active_weekdays = [0, 1, 2, 3, 4]\<rparr>,
          weekly_goal_minutes = Some 60, period = ''workweek''\<rparr>"
  let ?r = "migrate\<lparr>tasks := [?t]\<rparr>"
  let ?e1 = "\<lparr>clock = 739666 * DAY + 600 * MINUTE, zone = 0\<rparr>"
  let ?e2 = "\<lparr>clock = 739666 * DAY + 603 * MINUTE, zone = 0\<rparr>"
  let ?e3 = "\<lparr>clock = 739666 * DAY + 606 * MINUTE, zone = 0\<rparr>"
  have el1: "eligible ?e1 ?r ?t"
    by (simp add: eligible_closed to_local_def astimezone_def instant_def local_tz_def now_utc_def
        utc_def weekday_def date_weekday_def date_of_def time_of_def DAY_def MINUTE_def
        get_settings_def get_snooze_state_def migrate_def is_completed_total
        done_minutes_by_period_def is_session_running_def)
  have el3: "eligible ?e3 ?r ?t"
    by (simp add: eligible_closed to_local_def astimezone_def instant_def local_tz_def now_utc_def
        utc_def weekday_def date_weekday_def date_of_def time_of_def DAY_def MINUTE_def
        get_settings_def get_snooze_state_def migrate_def is_completed_total
        done_minutes_by_period_def is_session_running_def)
  have s: "AppSettings.repeat_interval_minutes (get_settings ?r) = 5"
    by (simp add: get_settings_def migrate_def)
  show ?thesis
    apply (rule run_ticks_repeat_interval [of "[(?e1, ?r), (?e2, ?r), (?e3, ?r)]" 1,
          THEN conjunct2, THEN conjunct2, THEN conjunct2, rule_format,
          of ?e1 ?r ?e2 ?r ?e3 ?r ?t])
    apply (intro conjI)
             apply (rule refl)
            apply simp
           apply simp
          apply (rule s)
         apply (rule s)
        apply simp
       apply (simp add: list_tasks_def)
      apply (simp add: list_tasks_def)
     apply (rule el1)
    apply (rule el3)
    done
qed

lemma not_fired_Nil: "(\<forall>tid. \<not> fired new tid) \<Longrightarrow> new = []"
  by (cases new) (auto simp: fired_def)

lemma run_ticks_weekend:
  assumes "\<forall>tid d. last_fired_utc self tid = Some d \<longrightarrow> tzinfo d = Some utc"
    and "j < length trace"
    and "5 \<le> weekday (to_local (fst (trace ! j)) (now_utc (fst (trace ! j))))"
  shows "run_ticks self trace ! j = []"
  using assms
proof (induction trace arbitrary: self j)
  case Nil
  then show ?case by simp
next
  case (Cons x rest)
  obtain e repo where x: "x = (e, repo)" by (cases x)
  from tick_spec [OF Cons.prems(1), of e repo]
  obtain repo' self' new where
    tk: "tick e repo self = Inr (repo', self', new)"
    and p: "\<forall>tid d. last_fired_utc self' tid = Some d \<longrightarrow> tzinfo d = Some utc"
      "\<forall>tid. fired new tid \<longrightarrow> (\<exists>t \<in> set (list_tasks repo). id' t = tid \<and> eligible e repo t)"
    by blast
  show ?case
  proof (cases j)
    case 0
    then have "5 \<le> weekday (to_local e (now_utc e))"
      using Cons.prems(3) by (simp add: x)
    then have "\<not> eligible e repo t" for t
      by (simp add: eligible_closed)
    then have "\<forall>tid. \<not> fired new tid" using p(2) by blast
    then have "new = []" by (rule not_fired_Nil)
    then show ?thesis using 0 by (simp add: x tk)
  next
    case (Suc j')
    then show ?thesis
      using Cons.IH [OF p(1), of j'] Cons.prems(2,3) by (simp add: x tk)
  qed
qed

text \<open>
  C10. At a local instant whose weekday is Saturday (5) or Sunday (6), \<open>is_in_workweek\<close> is
  false: the window computed from the instant ends at or before it. \<open>compute_task_state\<close>
  then gives \<open>can_remind_now\<close> false for every task, whatever its active weekdays, and a
  tick of the scheduler at such an instant emits no event.
\<close>

theorem weekend_never_reminds:
  "(tzinfo nowl = Some ol \<and> weekday nowl \<in> {5, 6} \<longrightarrow>
      is_in_workweek nowl = Inr False
      \<and> (\<exists>w. workweek_window_for nowl = Inr w \<and> wall (end_local w) \<le> wall nowl)
      \<and> (tzinfo nowu = Some ou \<longrightarrow>
           (\<exists>repo' st. compute_task_state e repo task nowu nowl s = Inr (repo', st)
                       \<and> \<not> in_workweek st \<and> \<not> can_remind_now st)))
   \<and> (j < length trace
       \<and> weekday (to_local (fst (trace ! j)) (now_utc (fst (trace ! j)))) \<in> {5, 6}
       \<longrightarrow> run_ticks Scheduler_init trace ! j = [])"
proof -
  have a: "is_in_workweek nowl = Inr False" if "tzinfo nowl = Some ol" "weekday nowl \<in> {5, 6}"
    using that by (auto simp: is_in_workweek_aware)
  have b: "\<exists>w. workweek_window_for nowl = Inr w \<and> wall (end_local w) \<le> wall nowl"
    if l: "tzinfo nowl = Some ol" and w: "weekday nowl \<in> {5, 6}"
  proof -
    have "\<not> wall nowl < (date_of nowl - weekday nowl + 5) * DAY"
      using w by (auto simp: date_lt_iff)
    then show ?thesis
      by (simp add: workweek_window_for_aware [OF l] combine_def dt_add_def algebra_simps)
  qed
  have c: "\<exists>repo' st. compute_task_state e repo task nowu nowl s = Inr (repo', st)
                       \<and> \<not> in_workweek st \<and> \<not> can_remind_now st"
    if l: "tzinfo nowl = Some ol" and w: "weekday nowl \<in> {5, 6}" and u: "tzinfo nowu = Some ou"
  proof -
    have n: "\<not> weekday nowl < 5" using w by auto
    from compute_task_state_aware [OF u l, of repo task e s]
    show ?thesis
      by (elim exE conjE) (simp add: n)
  qed
  have d: "run_ticks Scheduler_init trace ! j = []"
    if "j < length trace"
      "weekday (to_local (fst (trace ! j)) (now_utc (fst (trace ! j)))) \<in> {5, 6}"
  proof -
    have "5 \<le> weekday (to_local (fst (trace ! j)) (now_utc (fst (trace ! j))))"
      using that(2) by auto
    with Scheduler_init_inv that(1) show ?thesis by (rule run_ticks_weekend)
  qed
  show ?thesis
    using a b c d by blast
qed

text \<open>
  Saturday 2026-02-21 10:00, a task that is active on all seven weekdays.
\<close>

theorem weekend_never_reminds_witness:
  "tzinfo \<lparr>wall = 739668 * DAY + 600 * MINUTE, tzinfo = Some 0\<rparr> = Some 0
   \<and> weekday \<lparr>wall = 739668 * DAY + 600 * MINUTE, tzinfo = Some 0\<rparr> = 5
   \<and> is_in_workweek \<lparr>wall = 739668 * DAY + 600 * MINUTE, tzinfo = Some 0\<rparr> = Inr False
   \<and> (\<exists>repo' st.
        compute_task_state \<lparr>clock = 739668 * DAY + 600 * MINUTE, zone = 0\<rparr> migrate
          \<lparr>id' = 1, title = ''Weekly Learning (60 min)'', task_type = WEEKLY_TIME_QUOTA,
           enabled = True, schedule = \<lparr>active_weekdays = [0, 1, 2, 3, 4, 5, 6]\<rparr>,
           weekly_goal_minutes = Some 60, period = ''workweek''\<rparr>
          \<lparr>wall = 739668 * DAY + 600 * MINUTE, tzinfo = Some 0\<rparr>
          \<lparr>wall = 739668 * DAY + 600 * MINUTE, tzinfo = Some 0\<rparr>
          (get_settings migrate) = Inr (repo', st)
        \<and> \<not> can_remind_now st)
   \<and> run_ticks Scheduler_init
        [(\<lparr>clock = 739668 * DAY + 600 * MINUTE, zone = 0\<rparr>,
          migrate\<lparr>tasks := [\<lparr>id' = 1, title = ''Weekly Learning (60 min)'',
            task_type = WEEKLY_TIME_QUOTA, enabled = True,
            schedule = \<lparr>active_weekdays = [0, 1, 2, 3, 4, 5, 6]\<rparr>,
            weekly_goal_minutes = Some 60, period = ''workweek''\<rparr>]\<rparr>)] ! 0 = []"
proof -
  let ?n = "\<lparr>wall = 739668 * DAY + 600 * MINUTE, tzinfo = Some 0\<rparr>"
  have h: "tzinfo ?n = Some 0" by simp
  have w: "weekday ?n = 5"
    by (simp add: weekday_def date_weekday_def date_of_def DAY_def MINUTE_def)
  have hw: "tzinfo ?n = Some 0 \<and> weekday ?n \<in> {5, 6}" using h w by simp
  note t = weekend_never_reminds [of ?n 0 ?n 0 "\<lparr>clock = 739668 * DAY + 600 * MINUTE, zone = 0\<rparr>"
      migrate "\<lparr>id' = 1, title = ''Weekly Learning (60 min)'', task_type = WEEKLY_TIME_QUOTA,
           enabled = True, schedule = \<lparr>active_weekdays = [0, 1, 2, 3, 4, 5, 6]\<rparr>,
           weekly_goal_minutes = Some 60, period = ''workweek''\<rparr>" "get_settings migrate" 0 "[]",
      THEN conjunct1, rule_format, OF hw]
  let ?e = "\<lparr>clock = 739668 * DAY + 600 * MINUTE, zone = 0\<rparr>"
  let ?tr = "[(?e, migrate\<lparr>tasks := [\<lparr>id' = 1, title = ''Weekly Learning (60 min)'',
            task_type = WEEKLY_TIME_QUOTA, enabled = True,
            schedule = \<lparr>active_weekdays = [0, 1, 2, 3, 4, 5, 6]\<rparr>,
            weekly_goal_minutes = Some 60, period = ''workweek''\<rparr>]\<rparr>)]"
  have we: "weekday (to_local ?e (now_utc ?e)) = 5"
    by (simp add: to_local_def astimezone_def instant_def local_tz_def now_utc_def utc_def
        weekday_def date_weekday_def date_of_def DAY_def MINUTE_def)
  have hj: "(0::nat) < length ?tr
      \<and> weekday (to_local (fst (?tr ! 0)) (now_utc (fst (?tr ! 0)))) \<in> {5, 6}"
    using we by simp
  note r = weekend_never_reminds [of ?n 0 ?n 0 ?e migrate
      "\<lparr>id' = 1, title = ''Weekly Learning (60 min)'', task_type = WEEKLY_TIME_QUOTA,
           enabled = True, schedule = \<lparr>active_weekdays = [0, 1, 2, 3, 4, 5, 6]\<rparr>,
           weekly_goal_minutes = Some 60, period = ''workweek''\<rparr>" "get_settings migrate" 0 ?tr,
      THEN conjunct2, rule_format, OF hj]
  show ?thesis
    using h w t r by blast
qed

section \<open>Properties of the sessions table\<close>

lemma find_None_filter: "find P xs = None \<longleftrightarrow> filter P xs = []"
  by (induction xs) auto

lemma length_filter_filter: "length (filter P (filter Q xs)) \<le> length (filter P xs)"
  by (induction xs) auto

lemma length_filter_map_le:
  "(\<And>x. P (f x) \<Longrightarrow> P x) \<Longrightarrow> length (filter P (map f xs)) \<le> length (filter P xs)"
  by (induction xs) auto

lemma insert_session_open:
  assumes "insert_session repo tid start end' minutes = Inr repo'"
  shows "sessions repo' = sessions repo
           @ [\<lparr>session_id = session_seq repo + 1, task_id = tid, start_utc = start,
               end_utc = end', manual_minutes = minutes\<rparr>]"
  using assms by (auto simp: insert_session_def Let_def split: if_splits)

lemma start_session_one_open:
  assumes "\<forall>t. length (filter (open_timed t) (sessions repo)) \<le> 1"
    and "start_session e repo tid = Inr repo'"
  shows "length (filter (open_timed t) (sessions repo')) \<le> 1"
proof (cases "find (open_timed tid) (sessions repo)")
  case (Some r)
  then show ?thesis using assms by (simp add: start_session_def)
next
  case None
  then have none: "filter (open_timed tid) (sessions repo) = []"
    by (simp add: find_None_filter)
  have "insert_session repo tid (now_utc e) None 0 = Inr repo'"
    using assms(2) None by (simp add: start_session_def)
  then have s: "sessions repo' = sessions repo
           @ [\<lparr>session_id = session_seq repo + 1, task_id = tid, start_utc = now_utc e,
               end_utc = None, manual_minutes = 0\<rparr>]"
    by (rule insert_session_open)
  show ?thesis
  proof (cases "t = tid")
    case True
    then show ?thesis using none by (simp add: s open_timed_def)
  next
    case False
    then show ?thesis using assms(1) by (simp add: s open_timed_def)
  qed
qed

lemma stop_session_one_open:
  assumes "\<forall>t. length (filter (open_timed t) (sessions repo)) \<le> 1"
  shows "length (filter (open_timed t) (sessions (stop_session e repo tid))) \<le> 1"
proof (cases "find (open_timed tid) (sessions repo)")
  case None
  then show ?thesis using assms by (simp add: stop_session_def)
next
  case (Some r)
  let ?f = "\<lambda>x. if session_id x = session_id r then x\<lparr>end_utc := Some (now_utc e)\<rparr> else x"
  have "length (filter (open_timed t) (map ?f (sessions repo)))
        \<le> length (filter (open_timed t) (sessions repo))"
    by (rule length_filter_map_le) (simp add: open_timed_def split: if_splits)
  then show ?thesis
    using assms Some by (simp add: stop_session_def) (meson order_trans)
qed

lemma add_manual_minutes_one_open:
  assumes "\<forall>t. length (filter (open_timed t) (sessions repo)) \<le> 1"
    and "add_manual_minutes e repo tid minutes = Inr repo'"
  shows "length (filter (open_timed t) (sessions repo')) \<le> 1"
proof -
  have "sessions repo' = sessions repo
           @ [\<lparr>session_id = session_seq repo + 1, task_id = tid, start_utc = now_utc e,
               end_utc = Some (now_utc e), manual_minutes = minutes\<rparr>]"
    using assms(2) unfolding add_manual_minutes_def by (rule insert_session_open)
  then show ?thesis using assms(1) by (simp add: open_timed_def)
qed

lemma delete_sessions_rows_le:
  "delete_sessions_rows e pk rows repo = Inr repo' \<Longrightarrow>
   length (filter P (sessions repo')) \<le> length (filter P (sessions repo))"
proof (induction rows arbitrary: repo)
  case Nil
  then show ?case by simp
next
  case (Cons r rows)
  obtain k where k: "period_key_workweek (to_local e (replace_tzinfo (start_utc r) (Some utc))) = Inr k"
    by (simp add: period_key_workweek_to_local)
  show ?case
  proof (cases "k = pk")
    case True
    let ?repo1 = "repo\<lparr>sessions := filter (\<lambda>x. session_id x \<noteq> session_id r) (sessions repo)\<rparr>"
    have "delete_sessions_rows e pk rows ?repo1 = Inr repo'"
      using Cons.prems k True by (simp add: Let_def)
    then have "length (filter P (sessions repo')) \<le> length (filter P (sessions ?repo1))"
      by (rule Cons.IH)
    also have "\<dots> \<le> length (filter P (sessions repo))"
      using length_filter_filter [of P "\<lambda>x. session_id x \<noteq> session_id r" "sessions repo"]
      by (simp del: filter_filter)
    finally show ?thesis .
  next
    case False
    then have "delete_sessions_rows e pk rows repo = Inr repo'"
      using Cons.prems k by (simp add: Let_def)
    then show ?thesis by (rule Cons.IH)
  qed
qed

lemma delete_sessions_one_open:
  assumes "\<forall>t. length (filter (open_timed t) (sessions repo)) \<le> 1"
    and "delete_sessions_for_current_workweek e repo tid = Inr repo'"
  shows "length (filter (open_timed t) (sessions repo')) \<le> 1"
proof -
  obtain pk where "delete_sessions_rows e pk (filter (\<lambda>r. session.task_id r = tid) (sessions repo)) repo
      = Inr repo'"
    using assms(2)
    by (simp add: delete_sessions_for_current_workweek_def period_key_workweek_to_local
        sum_bind_def Let_def)
  from delete_sessions_rows_le [OF this, of "open_timed t"] assms(1)
  show ?thesis by (meson order_trans)
qed

lemma apply_op_one_open:
  assumes "\<forall>t. length (filter (open_timed t) (sessions repo)) \<le> 1"
    and "apply_op e repo x = Inr repo'"
  shows "\<forall>t. length (filter (open_timed t) (sessions repo')) \<le> 1"
proof (cases x)
  case (StartSession tid)
  then show ?thesis using assms start_session_one_open by auto
next
  case (StopSession tid)
  then show ?thesis using assms stop_session_one_open by auto
next
  case (AddManualMinutes tid m)
  then show ?thesis using assms add_manual_minutes_one_open by auto
next
  case (DeleteSessionsForCurrentWorkweek tid)
  then show ?thesis using assms delete_sessions_one_open by auto
next
  case (DeleteTask tid)
  have "length (filter (open_timed t) (filter (\<lambda>r. session.task_id r \<noteq> tid) (sessions repo))) \<le> 1" for t
    using assms(1) length_filter_filter [of "open_timed t" _ "sessions repo"] by (meson order_trans)
  then show ?thesis using assms DeleteTask by (auto simp: delete_task_def)
qed (use assms in \<open>auto simp: set_start_at_login_def set_repeat_interval_minutes_def
      set_reminder_start_hhmm_def create_task_def update_task_def set_snoozed_until_utc_def
      set_skipped_today_local_def clear_snooze_and_skip_def mark_complete_for_current_period_def
      clear_completion_for_current_period_def sum_bind_def period_key_workweek_to_local Let_def
      split: option.splits if_splits\<close>)

lemma run_ops_one_open:
  "\<forall>t. length (filter (open_timed t) (sessions repo)) \<le> 1 \<Longrightarrow>
   \<forall>t. length (filter (open_timed t) (sessions (run_ops repo ops))) \<le> 1"
proof (induction ops arbitrary: repo)
  case Nil
  then show ?case by simp
next
  case (Cons x xs)
  obtain e y where x: "x = (e, y)" by (cases x)
  show ?case
  proof (cases "apply_op e repo y")
    case (Inl err)
    then show ?thesis using Cons by (simp add: x)
  next
    case (Inr repo')
    then have "\<forall>t. length (filter (open_timed t) (sessions repo')) \<le> 1"
      using apply_op_one_open Cons.prems by blast
    then show ?thesis using Cons.IH Inr by (simp add: x)
  qed
qed


text \<open>
  C9. After every sequence of repository operations on a new database, and on any
  database in which it holds to begin with, each task has at most one timed session that
  is open (no end, no manual minutes). \<open>start_session\<close> on a task that has an open timed
  session returns and leaves the database as it is; after a \<open>start_session\<close> that does
  not raise the task has one, so a second \<open>start_session\<close> changes nothing.
\<close>

theorem start_session_at_most_one_open:
  "(\<forall>t. length (filter (open_timed t) (sessions (run_ops migrate ops))) \<le> 1)
   \<and> ((\<forall>t. length (filter (open_timed t) (sessions repo)) \<le> 1)
        \<longrightarrow> (\<forall>t. length (filter (open_timed t) (sessions (run_ops repo ops))) \<le> 1))
   \<and> (is_session_running repo tid \<longrightarrow> start_session e repo tid = Inr repo)
   \<and> (start_session e repo tid = Inr repo1
        \<longrightarrow> is_session_running repo1 tid \<and> start_session e' repo1 tid = Inr repo1)"
proof -
  have m: "\<forall>t. length (filter (open_timed t) (sessions migrate)) \<le> 1"
    by (simp add: migrate_def)
  have a: "\<forall>t. length (filter (open_timed t) (sessions (run_ops migrate ops))) \<le> 1"
    using m by (rule run_ops_one_open)
  have b: "\<forall>t. length (filter (open_timed t) (sessions (run_ops repo ops))) \<le> 1"
    if "\<forall>t. length (filter (open_timed t) (sessions repo)) \<le> 1"
    using that by (rule run_ops_one_open)
  have c: "start_session e'' r tid = Inr r" if "is_session_running r tid" for e'' r
    using that by (simp add: start_session_def is_session_running_def)
  have d: "is_session_running repo1 tid" if s: "start_session e repo tid = Inr repo1"
  proof (cases "find (open_timed tid) (sessions repo)")
    case (Some r)
    then show ?thesis using s by (simp add: start_session_def is_session_running_def)
  next
    case None
    then have "insert_session repo tid (now_utc e) None 0 = Inr repo1"
      using s by (simp add: start_session_def)
    then have "sessions repo1 = sessions repo
           @ [\<lparr>session_id = session_seq repo + 1, task_id = tid, start_utc = now_utc e,
               end_utc = None, manual_minutes = 0\<rparr>]"
      by (rule insert_session_open)
    then have "filter (open_timed tid) (sessions repo1) \<noteq> []"
      by (simp add: open_timed_def)
    then show ?thesis
      by (simp add: is_session_running_def find_None_filter)
  qed
  show ?thesis
    using a b c d by blast
qed

text \<open>
  A task is created, a session is started: it runs, and starting it once more leaves the
  database unchanged.
\<close>

theorem start_session_at_most_one_open_witness:
  "is_session_running
     (run_ops migrate
        [(\<lparr>clock = 739666 * DAY + 600 * MINUTE, zone = 0\<rparr>,
          CreateTask ''Weekly Learning (60 min)'' WEEKLY_TIME_QUOTA True [0, 1, 2, 3, 4] (Some 60)
            ''workweek''),
         (\<lparr>clock = 739666 * DAY + 601 * MINUTE, zone = 0\<rparr>, StartSession 1)]) 1
   \<and> start_session \<lparr>clock = 739666 * DAY + 602 * MINUTE, zone = 0\<rparr>
       (run_ops migrate
        [(\<lparr>clock = 739666 * DAY + 600 * MINUTE, zone = 0\<rparr>,
          CreateTask ''Weekly Learning (60 min)'' WEEKLY_TIME_QUOTA True [0, 1, 2, 3, 4] (Some 60)
            ''workweek''),
         (\<lparr>clock = 739666 * DAY + 601 * MINUTE, zone = 0\<rparr>, StartSession 1)]) 1
     = Inr (run_ops migrate
        [(\<lparr>clock = 739666 * DAY + 600 * MINUTE, zone = 0\<rparr>,
          CreateTask ''Weekly Learning (60 min)'' WEEKLY_TIME_QUOTA True [0, 1, 2, 3, 4] (Some 60)
            ''workweek''),
         (\<lparr>clock = 739666 * DAY + 601 * MINUTE, zone = 0\<rparr>, StartSession 1)])"
proof -
  let ?ops = "[(\<lparr>clock = 739666 * DAY + 600 * MINUTE, zone = 0\<rparr>,
          CreateTask ''Weekly Learning (60 min)'' WEEKLY_TIME_QUOTA True [0, 1, 2, 3, 4] (Some 60)
            ''workweek''),
         (\<lparr>clock = 739666 * DAY + 601 * MINUTE, zone = 0\<rparr>, StartSession 1)]"
  have r: "is_session_running (run_ops migrate ?ops) 1"
    by (simp add: is_session_running_def start_session_def insert_session_def task_exists_def
        create_task_def migrate_def open_timed_def Let_def)
  from start_session_at_most_one_open
    [of ?ops "run_ops migrate ?ops" 1 "\<lparr>clock = 739666 * DAY + 602 * MINUTE, zone = 0\<rparr>"] r
  show ?thesis by blast
qed

section \<open>Properties of the period key\<close>

lemma divmod_int:
  fixes n k :: int
  assumes "0 < k"
  shows "n = k * (n div k) + n mod k \<and> 0 \<le> n mod k \<and> n mod k < k"
  using assms by simp

lemma div_eqI:
  fixes x k q r :: int
  assumes "x = k * q + r" "0 \<le> r" "r < k"
  shows "x div k = q"
  using assms by (simp add: div_pos_pos_trivial)

lemma mod_eqI:
  fixes x k q r :: int
  assumes "x = k * q + r" "0 \<le> r" "r < k"
  shows "x mod k = r"
  using assms by (simp add: mod_pos_pos_trivial)

text \<open>
  The part of \<^verbatim>\<open>_ord2ymd\<close> that finds the month and the day from the day of the year.
\<close>

lemma month_of_day:
  fixes r :: int and leap :: bool
  assumes r: "0 \<le> r" "r \<le> 364"
  defines "month \<equiv> (r + 50) div 32"
  defines "preceding \<equiv> DAYS_BEFORE_MONTH ! nat month + (if month > 2 \<and> leap then 1 else 0)"
  defines "m \<equiv> (if preceding > r then month - 1 else month)"
  defines "p \<equiv> (if preceding > r
     then preceding - (DAYS_IN_MONTH ! nat (month - 1) + (if month - 1 = 2 \<and> leap then 1 else 0))
     else preceding)"
  shows "1 \<le> m \<and> m \<le> 12 \<and> 1 \<le> r - p + 1 \<and> r - p + 1 \<le> 31
     \<and> DAYS_BEFORE_MONTH ! nat m + (if m > 2 \<and> leap then 1 else 0) + (r - p + 1) = r + 1"
proof -
  have dm: "r + 50 = 32 * month + (r + 50) mod 32 \<and> 0 \<le> (r + 50) mod 32 \<and> (r + 50) mod 32 < 32"
    unfolding month_def by (rule divmod_int) simp
  then have lo: "32 * month - 50 \<le> r" and hi: "r \<le> 32 * month - 19" by linarith+
  with r have "1 \<le> month \<and> month \<le> 12" by linarith
  then have "month = 1 \<or> month = 2 \<or> month = 3 \<or> month = 4 \<or> month = 5 \<or> month = 6
    \<or> month = 7 \<or> month = 8 \<or> month = 9 \<or> month = 10 \<or> month = 11 \<or> month = 12"
    by arith
  then consider "month = 1" | "month = 2" | "month = 3" | "month = 4" | "month = 5" | "month = 6"
    | "month = 7" | "month = 8" | "month = 9" | "month = 10" | "month = 11" | "month = 12"
    by blast
  then show ?thesis
  proof cases
    case 1 with lo hi r show ?thesis
      by (simp add: m_def p_def preceding_def DAYS_BEFORE_MONTH_def DAYS_IN_MONTH_def)
  next
    case 2 with lo hi r show ?thesis
      by (simp add: m_def p_def preceding_def DAYS_BEFORE_MONTH_def DAYS_IN_MONTH_def)
  next
    case 3 with lo hi r show ?thesis
      by (simp add: m_def p_def preceding_def DAYS_BEFORE_MONTH_def DAYS_IN_MONTH_def)
  next
    case 4 with lo hi r show ?thesis
      by (simp add: m_def p_def preceding_def DAYS_BEFORE_MONTH_def DAYS_IN_MONTH_def)
  next
    case 5 with lo hi r show ?thesis
      by (simp add: m_def p_def preceding_def DAYS_BEFORE_MONTH_def DAYS_IN_MONTH_def)
  next
    case 6 with lo hi r show ?thesis
      by (simp add: m_def p_def preceding_def DAYS_BEFORE_MONTH_def DAYS_IN_MONTH_def)
  next
    case 7 with lo hi r show ?thesis
      by (simp add: m_def p_def preceding_def DAYS_BEFORE_MONTH_def DAYS_IN_MONTH_def)
  next
    case 8 with lo hi r show ?thesis
      by (simp add: m_def p_def preceding_def DAYS_BEFORE_MONTH_def DAYS_IN_MONTH_def)
  next
    case 9 with lo hi r show ?thesis
      by (simp add: m_def p_def preceding_def DAYS_BEFORE_MONTH_def DAYS_IN_MONTH_def)
  next
    case 10 with lo hi r show ?thesis
      by (simp add: m_def p_def preceding_def DAYS_BEFORE_MONTH_def DAYS_IN_MONTH_def)
  next
    case 11 with lo hi r show ?thesis
      by (simp add: m_def p_def preceding_def DAYS_BEFORE_MONTH_def DAYS_IN_MONTH_def)
  next
    case 12 with lo hi r show ?thesis
      by (simp add: m_def p_def preceding_def DAYS_BEFORE_MONTH_def DAYS_IN_MONTH_def)
  qed
qed


text \<open>
  The part of \<^verbatim>\<open>_ord2ymd\<close> that finds the year: the days before the first of January,
  and the leap years, of a year written with its 400, 100, 4 and 1 year cycles.
\<close>

lemma days_before_year_cycles:
  fixes a b c d :: int
  assumes "0 \<le> b" "b \<le> 3" "0 \<le> c" "c \<le> 24" "0 \<le> d" "d \<le> 3"
  shows "days_before_year (400 * a + 100 * b + 4 * c + d + 1)
     = 146097 * a + 36524 * b + 1461 * c + 365 * d"
proof -
  have q4: "(400 * a + 100 * b + 4 * c + d) div 4 = 100 * a + 25 * b + c"
    using assms by (intro div_eqI [where r = d]) simp_all
  have q100: "(400 * a + 100 * b + 4 * c + d) div 100 = 4 * a + b"
    using assms by (intro div_eqI [where r = "4 * c + d"]) simp_all
  have q400: "(400 * a + 100 * b + 4 * c + d) div 400 = a"
    using assms by (intro div_eqI [where r = "100 * b + 4 * c + d"]) simp_all
  show ?thesis
    unfolding days_before_year_def Let_def using q4 q100 q400 by simp
qed

lemma is_leap_cycles:
  fixes a b c d :: int
  assumes "0 \<le> b" "b \<le> 3" "0 \<le> c" "c \<le> 24" "0 \<le> d" "d \<le> 3"
  shows "is_leap (400 * a + 100 * b + 4 * c + d + 1) = (d = 3 \<and> (c \<noteq> 24 \<or> b = 3))"
proof -
  let ?y = "400 * a + 100 * b + 4 * c + d + 1"
  have m4: "(?y mod 4 = 0) = (d = 3)"
  proof (cases "d = 3")
    case True
    have "?y mod 4 = 0"
      using True by (intro mod_eqI [where q = "100 * a + 25 * b + c + 1"]) simp_all
    with True show ?thesis by simp
  next
    case False
    have "?y mod 4 = d + 1"
      using False assms by (intro mod_eqI [where q = "100 * a + 25 * b + c"]) simp_all
    with False assms show ?thesis by simp
  qed
  have m100: "(?y mod 100 = 0) = (c = 24 \<and> d = 3)"
  proof (cases "c = 24 \<and> d = 3")
    case True
    have "?y mod 100 = 0"
      using True by (intro mod_eqI [where q = "4 * a + b + 1"]) simp_all
    with True show ?thesis by simp
  next
    case False
    have "?y mod 100 = 4 * c + d + 1"
      using False assms by (intro mod_eqI [where q = "4 * a + b"]) auto
    with False assms show ?thesis by auto
  qed
  have m400: "(?y mod 400 = 0) = (b = 3 \<and> c = 24 \<and> d = 3)"
  proof (cases "b = 3 \<and> c = 24 \<and> d = 3")
    case True
    have "?y mod 400 = 0"
      using True by (intro mod_eqI [where q = "a + 1"]) simp_all
    with True show ?thesis by simp
  next
    case False
    have "?y mod 400 = 100 * b + 4 * c + d + 1"
      using False assms by (intro mod_eqI [where q = a]) auto
    with False assms show ?thesis by auto
  qed
  show ?thesis unfolding is_leap_def m4 m100 m400 by blast
qed

text \<open>
  The decimal notation of \<^verbatim>\<open>%d\<close> can be read back, so that different numbers are
  written differently, also when they are padded with zeros.
\<close>

lemma digit_value_digit:
  assumes "n < 10"
  shows "digit_value (digit n) = n"
proof -
  have table: "map (\<lambda>k. digit_value (digit k)) [0..<10] = [0..<10]"
    by code_simp
  have "map (\<lambda>k. digit_value (digit k)) [0..<10] ! n = digit_value (digit n)"
    using assms by simp
  moreover have "[0..<10] ! n = n"
    using assms by simp
  ultimately show ?thesis
    by (simp only: table)
qed

lemma digit_in_digits: "n < 10 \<Longrightarrow> digit n \<in> set ''0123456789''"
  unfolding digit_def by (rule nth_mem) simp

lemma decimal_value_append:
  "decimal_value (s @ [c]) = 10 * decimal_value s + digit_value c"
  by (simp add: decimal_value_def)

lemma decimal_value_digits: "decimal_value (digits n) = n"
proof (induction n rule: digits.induct)
  case (1 n)
  show ?case
  proof (cases "n < 10")
    case True
    then show ?thesis
      by (subst digits.simps) (simp add: decimal_value_def digit_value_digit)
  next
    case False
    then have "decimal_value (digits (n div 10)) = n div 10" by (rule 1)
    with False show ?thesis
      by (subst digits.simps) (simp add: decimal_value_append digit_value_digit)
  qed
qed

lemma decimal_value_zeros: "decimal_value (replicate k (CHR ''0'') @ s) = decimal_value s"
proof -
  have "foldl (\<lambda>a c. 10 * a + digit_value c) 0 (replicate k (CHR ''0'')) = 0"
    by (induction k) (simp_all add: digit_value_def)
  then show ?thesis by (simp add: decimal_value_def)
qed

lemma decimal_value_zfill: "decimal_value (zfill w (digits n)) = n"
  by (simp add: zfill_def decimal_value_zeros decimal_value_digits)

lemma set_digits: "set (digits n) \<subseteq> set ''0123456789''"
proof (induction n rule: digits.induct)
  case (1 n)
  show ?case
  proof (cases "n < 10")
    case True
    then show ?thesis
      using digit_in_digits [of n] by (subst digits.simps) simp
  next
    case False
    then have "set (digits (n div 10)) \<subseteq> set ''0123456789''" by (rule 1)
    with False show ?thesis
      using digit_in_digits [of "n mod 10"] by (subst digits.simps) simp
  qed
qed

lemma minus_notin_zfill: "CHR ''-'' \<notin> set (zfill w (digits n))"
proof
  assume "CHR ''-'' \<in> set (zfill w (digits n))"
  then have "CHR ''-'' = CHR ''0'' \<or> CHR ''-'' \<in> set (digits n)"
    by (auto simp: zfill_def)
  with set_digits [of n] show False by auto
qed

lemma fmt_d_inj:
  assumes "fmt_d w x = fmt_d w y"
  shows "x = y"
proof -
  consider "x < 0" "y < 0" | "x < 0" "\<not> y < 0" | "\<not> x < 0" "y < 0" | "\<not> x < 0" "\<not> y < 0"
    by blast
  then show ?thesis
  proof cases
    case 1
    with assms have "zfill (w - 1) (digits (nat (- x))) = zfill (w - 1) (digits (nat (- y)))"
      by (simp add: fmt_d_def)
    then have "decimal_value (zfill (w - 1) (digits (nat (- x))))
        = decimal_value (zfill (w - 1) (digits (nat (- y))))" by simp
    then have "nat (- x) = nat (- y)" by (simp only: decimal_value_zfill)
    with 1 show ?thesis by simp
  next
    case 2
    with assms have "CHR ''-'' # zfill (w - 1) (digits (nat (- x))) = zfill w (digits (nat y))"
      by (simp add: fmt_d_def)
    then have "CHR ''-'' \<in> set (zfill w (digits (nat y)))"
      by (metis list.set_intros(1))
    with minus_notin_zfill show ?thesis by blast
  next
    case 3
    with assms have "zfill w (digits (nat x)) = CHR ''-'' # zfill (w - 1) (digits (nat (- y)))"
      by (simp add: fmt_d_def)
    then have "CHR ''-'' \<in> set (zfill w (digits (nat x)))"
      by (metis list.set_intros(1))
    with minus_notin_zfill show ?thesis by blast
  next
    case 4
    with assms have "zfill w (digits (nat x)) = zfill w (digits (nat y))"
      by (simp add: fmt_d_def)
    then have "decimal_value (zfill w (digits (nat x)))
        = decimal_value (zfill w (digits (nat y)))" by simp
    then have "nat x = nat y" by (simp only: decimal_value_zfill)
    with 4 show ?thesis by simp
  qed
qed

lemma length_fmt_d_2:
  assumes "0 \<le> k" "k \<le> 99"
  shows "length (fmt_d 2 k) = 2"
proof (cases "nat k < 10")
  case True
  then have "digits (nat k) = [digit (nat k)]" by (subst digits.simps) simp
  with assms show ?thesis by (simp add: fmt_d_def zfill_def)
next
  case False
  from assms have "nat k div 10 < 10" by linarith
  then have "digits (nat k div 10) = [digit (nat k div 10)]" by (subst digits.simps) simp
  with False have "digits (nat k) = [digit (nat k div 10), digit (nat k mod 10)]"
    by (subst digits.simps) simp
  with assms show ?thesis by (simp add: fmt_d_def zfill_def)
qed

text \<open>
  \<^verbatim>\<open>_ymd2ord\<close> undoes \<^verbatim>\<open>_ord2ymd\<close>, so that different ordinals have different years,
  months or days.
\<close>

lemma ymd2ord_ord2ymd:
  "ymd2ord (ord2ymd n0) = n0
   \<and> (case ord2ymd n0 of (year, month, day) \<Rightarrow> 1 \<le> month \<and> month \<le> 12 \<and> 1 \<le> day \<and> day \<le> 31)"
proof -
  define n where "n = n0 - 1"
  define a where "a = n div 146097"
  define r1 where "r1 = n mod 146097"
  define b where "b = r1 div 36524"
  define r2 where "r2 = r1 mod 36524"
  define c where "c = r2 div 1461"
  define r3 where "r3 = r2 mod 1461"
  define d where "d = r3 div 365"
  define r where "r = r3 mod 365"
  define leap where "leap = (d = 3 \<and> (c \<noteq> 24 \<or> b = 3))"
  define month where "month = (r + 50) div 32"
  define preceding where
    "preceding = DAYS_BEFORE_MONTH ! nat month + (if month > 2 \<and> leap then 1 else 0)"
  define m where "m = (if preceding > r then month - 1 else month)"
  define p where "p = (if preceding > r
     then preceding - (DAYS_IN_MONTH ! nat (month - 1) + (if month - 1 = 2 \<and> leap then 1 else 0))
     else preceding)"
  have o0: "ord2ymd n0 = (if d = 4 \<or> b = 4 then (a * 400 + 1 + b * 100 + c * 4 + d - 1, 12, 31)
      else if preceding > r
        then (a * 400 + 1 + b * 100 + c * 4 + d, month - 1,
          r - (preceding - (DAYS_IN_MONTH ! nat (month - 1) + (if month - 1 = 2 \<and> leap then 1 else 0))) + 1)
        else (a * 400 + 1 + b * 100 + c * 4 + d, month, r - preceding + 1))"
    unfolding ord2ymd_def Let_def preceding_def month_def leap_def r_def d_def
      r3_def c_def r2_def b_def r1_def a_def n_def
    by (rule refl)
  have o: "ord2ymd n0 = (if d = 4 \<or> b = 4 then (400 * a + 100 * b + 4 * c + d, 12, 31)
      else (400 * a + 100 * b + 4 * c + d + 1, m, r - p + 1))"
    unfolding o0 m_def p_def by simp
  have e1: "n = 146097 * a + r1 \<and> 0 \<le> r1 \<and> r1 < 146097"
    unfolding a_def r1_def by (rule divmod_int) simp
  have e2: "r1 = 36524 * b + r2 \<and> 0 \<le> r2 \<and> r2 < 36524"
    unfolding b_def r2_def by (rule divmod_int) simp
  have e3: "r2 = 1461 * c + r3 \<and> 0 \<le> r3 \<and> r3 < 1461"
    unfolding c_def r3_def by (rule divmod_int) simp
  have e4: "r3 = 365 * d + r \<and> 0 \<le> r \<and> r < 365"
    unfolding d_def r_def by (rule divmod_int) simp
  have bb: "0 \<le> b \<and> b \<le> 4" using e1 e2 by linarith
  have cb: "0 \<le> c \<and> c \<le> 24" using e2 e3 by linarith
  have db: "0 \<le> d \<and> d \<le> 4" using e3 e4 by linarith
  have nn: "n = 146097 * a + 36524 * b + 1461 * c + 365 * d + r"
    using e1 e2 e3 e4 by linarith
  show ?thesis
  proof (cases "b = 4")
    case True
    with e1 e2 have "r2 = 0" by linarith
    with e3 cb have "c = 0 \<and> r3 = 0" by linarith
    with e4 db have "d = 0 \<and> r = 0" by linarith
    with True \<open>c = 0 \<and> r3 = 0\<close> nn have n: "n = 146097 * a + 146096" and c: "c = 0" and d: "d = 0"
      by simp_all
    have y: "days_before_year (400 * a + 100 * 3 + 4 * 24 + 3 + 1)
        = 146097 * a + 36524 * 3 + 1461 * 24 + 365 * 3"
      by (rule days_before_year_cycles) simp_all
    have l: "is_leap (400 * a + 100 * 3 + 4 * 24 + 3 + 1) = (3 = (3::int) \<and> (24 \<noteq> (24::int) \<or> 3 = (3::int)))"
      by (rule is_leap_cycles) simp_all
    have eq: "400 * a + 100 * 3 + 4 * 24 + 3 + 1 = 400 * a + 400" by simp
    from y have y': "days_before_year (400 * a + 400) = 146097 * a + 145731"
      unfolding eq by simp
    from l have l': "is_leap (400 * a + 400)" unfolding eq by simp
    from n show ?thesis
      unfolding o using True c d
      by (simp add: ymd2ord_def days_before_month_def DAYS_BEFORE_MONTH_def n_def y' l')
  next
    case b4: False
    with bb have b3: "0 \<le> b \<and> b \<le> 3" by linarith
    show ?thesis
    proof (cases "d = 4")
      case True
      with e4 e3 have r0: "r = 0" by linarith
      from True e4 e3 e2 r0 have c23: "c \<le> 23" by linarith
      have y: "days_before_year (400 * a + 100 * b + 4 * c + 3 + 1)
          = 146097 * a + 36524 * b + 1461 * c + 365 * 3"
        using b3 cb by (intro days_before_year_cycles) simp_all
      have l: "is_leap (400 * a + 100 * b + 4 * c + 3 + 1) = (3 = (3::int) \<and> (c \<noteq> 24 \<or> b = 3))"
        using b3 cb by (intro is_leap_cycles) simp_all
      have eq: "400 * a + 100 * b + 4 * c + 3 + 1 = 400 * a + 100 * b + 4 * c + 4" by simp
      from y have y': "days_before_year (400 * a + 100 * b + 4 * c + 4)
          = 146097 * a + 36524 * b + 1461 * c + 1095"
        unfolding eq by simp
      from l c23 have l': "is_leap (400 * a + 100 * b + 4 * c + 4)" unfolding eq by simp
      from nn r0 show ?thesis
        unfolding o using True
        by (simp add: ymd2ord_def days_before_month_def DAYS_BEFORE_MONTH_def n_def y' l')
    next
      case False
      with db have d3: "0 \<le> d \<and> d \<le> 3" by linarith
      have y: "days_before_year (400 * a + 100 * b + 4 * c + d + 1)
          = 146097 * a + 36524 * b + 1461 * c + 365 * d"
        using b3 cb d3 by (intro days_before_year_cycles) simp_all
      have l: "is_leap (400 * a + 100 * b + 4 * c + d + 1) = leap"
        unfolding leap_def using b3 cb d3 by (intro is_leap_cycles) simp_all
      have "0 \<le> r" "r \<le> 364" using e4 by linarith+
      then have md: "1 \<le> m \<and> m \<le> 12 \<and> 1 \<le> r - p + 1 \<and> r - p + 1 \<le> 31
         \<and> DAYS_BEFORE_MONTH ! nat m + (if m > 2 \<and> leap then 1 else 0) + (r - p + 1) = r + 1"
        unfolding m_def p_def preceding_def month_def by (rule month_of_day)
      have "ymd2ord (ord2ymd n0)
          = days_before_year (400 * a + 100 * b + 4 * c + d + 1)
            + (DAYS_BEFORE_MONTH ! nat m + (if m > 2 \<and> leap then 1 else 0) + (r - p + 1))"
        unfolding o using False b4 by (simp add: ymd2ord_def days_before_month_def l)
      also have "\<dots> = n + 1" using md y nn by linarith
      finally have inv: "ymd2ord (ord2ymd n0) = n0" by (simp add: n_def)
      have "case ord2ymd n0 of (year, month, day) \<Rightarrow>
          1 \<le> month \<and> month \<le> 12 \<and> 1 \<le> day \<and> day \<le> 31"
        unfolding o using False b4 md by simp
      with inv show ?thesis by (rule conjI)
    qed
  qed
qed


lemma isoformat_inj:
  assumes "isoformat x = isoformat y"
  shows "x = y"
proof -
  obtain y1 m1 d1 where o1: "ord2ymd x = (y1, m1, d1)" by (cases "ord2ymd x") auto
  obtain y2 m2 d2 where o2: "ord2ymd y = (y2, m2, d2)" by (cases "ord2ymd y") auto
  from ymd2ord_ord2ymd [of x] o1
  have i1: "ymd2ord (y1, m1, d1) = x" and r1: "1 \<le> m1" "m1 \<le> 12" "1 \<le> d1" "d1 \<le> 31"
    by simp_all
  from ymd2ord_ord2ymd [of y] o2
  have i2: "ymd2ord (y2, m2, d2) = y" and r2: "1 \<le> m2" "m2 \<le> 12" "1 \<le> d2" "d2 \<le> 31"
    by simp_all
  have lm: "length (fmt_d 2 m1) = 2" "length (fmt_d 2 m2) = 2"
    using r1 r2 by (simp_all add: length_fmt_d_2)
  have ld: "length (fmt_d 2 d1) = 2" "length (fmt_d 2 d2) = 2"
    using r1 r2 by (simp_all add: length_fmt_d_2)
  from assms o1 o2
  have e: "fmt_d 4 y1 @ (CHR ''-'' # fmt_d 2 m1 @ CHR ''-'' # fmt_d 2 d1)
      = fmt_d 4 y2 @ (CHR ''-'' # fmt_d 2 m2 @ CHR ''-'' # fmt_d 2 d2)"
    by (simp add: isoformat_def)
  have "length (CHR ''-'' # fmt_d 2 m1 @ CHR ''-'' # fmt_d 2 d1)
      = length (CHR ''-'' # fmt_d 2 m2 @ CHR ''-'' # fmt_d 2 d2)"
    using lm ld by simp
  with e have ey: "fmt_d 4 y1 = fmt_d 4 y2"
    and e': "fmt_d 2 m1 @ CHR ''-'' # fmt_d 2 d1 = fmt_d 2 m2 @ CHR ''-'' # fmt_d 2 d2"
    by (simp_all add: append_eq_append_conv)
  from e' lm have em: "fmt_d 2 m1 = fmt_d 2 m2" and ed: "fmt_d 2 d1 = fmt_d 2 d2"
    by (simp_all add: append_eq_append_conv)
  from ey em ed have "y1 = y2" "m1 = m2" "d1 = d2" by (blast dest: fmt_d_inj)+
  with i1 i2 show ?thesis by simp
qed

text \<open>
  The key of an aware datetime is made of the Monday of its week, and two keys are equal
  exactly when the Mondays are.
\<close>

lemma period_key_workweek_aware:
  assumes "tzinfo t = Some z"
  shows "period_key_workweek t = Inr (''workweek:'' @ isoformat (date_of t - weekday t))"
proof -
  have "date_of (combine (date_of t - weekday t) 0 (Some z)) = date_of t - weekday t"
    using DAY_pos by (simp add: date_of_def combine_def)
  then show ?thesis
    by (simp add: period_key_workweek_def workweek_window_for_aware [OF assms] Let_def)
qed

lemma period_key_workweek_eq_iff:
  assumes "tzinfo t1 = Some z1" "tzinfo t2 = Some z2"
  shows "period_key_workweek t1 = period_key_workweek t2
     \<longleftrightarrow> date_of t1 - weekday t1 = date_of t2 - weekday t2"
  unfolding period_key_workweek_aware [OF assms(1)] period_key_workweek_aware [OF assms(2)]
  by (auto dest: isoformat_inj)

text \<open>
  An instant lies in the window that starts on Monday \<open>m\<close> when its date is one of the five
  days from \<open>m\<close> on; its own Monday is then \<open>m\<close>.
\<close>

lemma lies_in_window_iff:
  assumes "tzinfo t = Some z"
  shows "lies_in t \<lparr>start_local = combine m 0 (Some z),
          end_local = dt_add (combine m 0 (Some z)) (5 * DAY)\<rparr>
     \<longleftrightarrow> m \<le> date_of t \<and> date_of t < m + 5"
proof -
  have e: "wall t < m * DAY + 5 * DAY \<longleftrightarrow> date_of t < m + 5"
    using date_lt_iff [of t "m + 5"] by (simp add: algebra_simps)
  show ?thesis
    using assms e date_le_iff [of m t]
    by (simp add: lies_in_def dt_le_def dt_less_def instant_def combine_def dt_add_def)
qed

lemma monday_of_window:
  assumes "date_weekday m = 0" "m \<le> date_of t" "date_of t < m + 5"
  shows "date_of t - weekday t = m"
  using assms by (simp add: weekday_def date_weekday_def) presburger

lemma window_eq_iff:
  "(\<lparr>start_local = combine m1 0 (Some z), end_local = dt_add (combine m1 0 (Some z)) (5 * DAY)\<rparr>
     = \<lparr>start_local = combine m2 0 (Some z), end_local = dt_add (combine m2 0 (Some z)) (5 * DAY)\<rparr>)
   \<longleftrightarrow> m1 = m2"
  using DAY_pos by (auto simp: combine_def dt_add_def)


lemma date_of_combine_midnight: "date_of (combine m 0 tz) = m"
  using DAY_pos by (simp add: date_of_def combine_def)

lemma after_window_iff:
  assumes "tzinfo t = Some z"
  shows "dt_le (dt_add (combine m 0 (Some z)) (5 * DAY)) t = Inr True \<longleftrightarrow> m + 5 \<le> date_of t"
  using assms date_le_iff [of "m + 5" t]
  by (simp add: dt_le_def instant_def combine_def dt_add_def algebra_simps)

text \<open>
  C5, as amended. For two aware datetimes of one zone \<open>workweek_window_for\<close> and
  \<open>period_key_workweek\<close> return, the key is made of the Monday date of the window alone,
  and the two keys are equal exactly when the two windows are equal, which is when their
  Monday dates are equal. \<open>is_in_workweek\<close> says whether the instant lies in its window,
  which it does from Monday to Friday. An instant that lies in its window has the key of
  the other instant exactly when it lies in the window of the other instant; so two
  instants that lie in their windows have one key exactly when they lie in the same
  window, and instants in different windows have different keys. An instant that does not
  lie in its window (Saturday, Sunday) comes at or after the end of that window, and has
  its key all the same.
\<close>

theorem period_key_workweek_same_window:
  assumes "tzinfo t1 = Some z" "tzinfo t2 = Some z"
  shows "\<exists>w1 w2. workweek_window_for t1 = Inr w1 \<and> workweek_window_for t2 = Inr w2
     \<and> period_key_workweek t1 = Inr (''workweek:'' @ isoformat (date_of (start_local w1)))
     \<and> period_key_workweek t2 = Inr (''workweek:'' @ isoformat (date_of (start_local w2)))
     \<and> (period_key_workweek t1 = period_key_workweek t2 \<longleftrightarrow> w1 = w2)
     \<and> (period_key_workweek t1 = period_key_workweek t2
          \<longleftrightarrow> date_of (start_local w1) = date_of (start_local w2))
     \<and> is_in_workweek t1 = Inr (lies_in t1 w1) \<and> is_in_workweek t2 = Inr (lies_in t2 w2)
     \<and> (lies_in t1 w1 \<longleftrightarrow> weekday t1 < 5) \<and> (lies_in t2 w2 \<longleftrightarrow> weekday t2 < 5)
     \<and> (lies_in t1 w1 \<longrightarrow> (period_key_workweek t1 = period_key_workweek t2 \<longleftrightarrow> lies_in t1 w2))
     \<and> (lies_in t2 w2 \<longrightarrow> (period_key_workweek t1 = period_key_workweek t2 \<longleftrightarrow> lies_in t2 w1))
     \<and> (\<not> lies_in t1 w1 \<longrightarrow> dt_le (end_local w1) t1 = Inr True)
     \<and> (\<not> lies_in t2 w2 \<longrightarrow> dt_le (end_local w2) t2 = Inr True)"
proof -
  define m1 where "m1 = date_of t1 - weekday t1"
  define m2 where "m2 = date_of t2 - weekday t2"
  define w1 where "w1 = \<lparr>start_local = combine m1 0 (Some z),
    end_local = dt_add (combine m1 0 (Some z)) (5 * DAY)\<rparr>"
  define w2 where "w2 = \<lparr>start_local = combine m2 0 (Some z),
    end_local = dt_add (combine m2 0 (Some z)) (5 * DAY)\<rparr>"
  have W1: "workweek_window_for t1 = Inr w1"
    unfolding w1_def m1_def using assms(1) by (rule workweek_window_for_aware)
  have W2: "workweek_window_for t2 = Inr w2"
    unfolding w2_def m2_def using assms(2) by (rule workweek_window_for_aware)
  have s1: "date_of (start_local w1) = m1" by (simp add: w1_def date_of_combine_midnight)
  have s2: "date_of (start_local w2) = m2" by (simp add: w2_def date_of_combine_midnight)
  have k1: "period_key_workweek t1 = Inr (''workweek:'' @ isoformat (date_of (start_local w1)))"
    unfolding s1 m1_def using assms(1) by (rule period_key_workweek_aware)
  have k2: "period_key_workweek t2 = Inr (''workweek:'' @ isoformat (date_of (start_local w2)))"
    unfolding s2 m2_def using assms(2) by (rule period_key_workweek_aware)
  have km: "period_key_workweek t1 = period_key_workweek t2 \<longleftrightarrow> m1 = m2"
    unfolding m1_def m2_def using assms by (rule period_key_workweek_eq_iff)
  have kw: "period_key_workweek t1 = period_key_workweek t2 \<longleftrightarrow> w1 = w2"
    unfolding km w1_def w2_def by (simp only: window_eq_iff)
  have ks: "period_key_workweek t1 = period_key_workweek t2
      \<longleftrightarrow> date_of (start_local w1) = date_of (start_local w2)"
    unfolding s1 s2 by (rule km)
  have mon1: "date_weekday m1 = 0" unfolding m1_def by (rule weekday_monday)
  have mon2: "date_weekday m2 = 0" unfolding m2_def by (rule weekday_monday)
  have l11: "lies_in t1 w1 \<longleftrightarrow> m1 \<le> date_of t1 \<and> date_of t1 < m1 + 5"
    unfolding w1_def using assms(1) by (rule lies_in_window_iff)
  have l22: "lies_in t2 w2 \<longleftrightarrow> m2 \<le> date_of t2 \<and> date_of t2 < m2 + 5"
    unfolding w2_def using assms(2) by (rule lies_in_window_iff)
  have l12: "lies_in t1 w2 \<longleftrightarrow> m2 \<le> date_of t1 \<and> date_of t1 < m2 + 5"
    unfolding w2_def using assms(1) by (rule lies_in_window_iff)
  have l21: "lies_in t2 w1 \<longleftrightarrow> m1 \<le> date_of t2 \<and> date_of t2 < m1 + 5"
    unfolding w1_def using assms(2) by (rule lies_in_window_iff)
  have d1: "lies_in t1 w1 \<longleftrightarrow> weekday t1 < 5"
    unfolding l11 m1_def using weekday_range [of t1] by linarith
  have d2: "lies_in t2 w2 \<longleftrightarrow> weekday t2 < 5"
    unfolding l22 m2_def using weekday_range [of t2] by linarith
  have i1: "is_in_workweek t1 = Inr (lies_in t1 w1)"
    unfolding d1 using assms(1) by (rule is_in_workweek_aware)
  have i2: "is_in_workweek t2 = Inr (lies_in t2 w2)"
    unfolding d2 using assms(2) by (rule is_in_workweek_aware)
  have c1: "period_key_workweek t1 = period_key_workweek t2 \<longleftrightarrow> lies_in t1 w2" if "lies_in t1 w1"
  proof
    assume "period_key_workweek t1 = period_key_workweek t2"
    then have "w1 = w2" by (simp only: kw)
    with that show "lies_in t1 w2" by simp
  next
    assume "lies_in t1 w2"
    then have "m2 \<le> date_of t1" "date_of t1 < m2 + 5" by (simp_all only: l12)
    with mon2 have "date_of t1 - weekday t1 = m2" by (rule monday_of_window)
    then show "period_key_workweek t1 = period_key_workweek t2" by (simp only: km m1_def)
  qed
  have c2: "period_key_workweek t1 = period_key_workweek t2 \<longleftrightarrow> lies_in t2 w1" if "lies_in t2 w2"
  proof
    assume "period_key_workweek t1 = period_key_workweek t2"
    then have "w1 = w2" by (simp only: kw)
    with that show "lies_in t2 w1" by simp
  next
    assume "lies_in t2 w1"
    then have "m1 \<le> date_of t2" "date_of t2 < m1 + 5" by (simp_all only: l21)
    with mon1 have "date_of t2 - weekday t2 = m1" by (rule monday_of_window)
    then show "period_key_workweek t1 = period_key_workweek t2" by (simp only: km m2_def)
  qed
  have a1: "dt_le (end_local w1) t1 = Inr True" if "\<not> lies_in t1 w1"
  proof -
    have "dt_le (end_local w1) t1 = Inr True \<longleftrightarrow> m1 + 5 \<le> date_of t1"
      unfolding w1_def using assms(1) by (simp add: after_window_iff)
    moreover from that have "m1 + 5 \<le> date_of t1"
      unfolding l11 m1_def using weekday_range [of t1] by linarith
    ultimately show ?thesis by simp
  qed
  have a2: "dt_le (end_local w2) t2 = Inr True" if "\<not> lies_in t2 w2"
  proof -
    have "dt_le (end_local w2) t2 = Inr True \<longleftrightarrow> m2 + 5 \<le> date_of t2"
      unfolding w2_def using assms(2) by (simp add: after_window_iff)
    moreover from that have "m2 + 5 \<le> date_of t2"
      unfolding l22 m2_def using weekday_range [of t2] by linarith
    ultimately show ?thesis by simp
  qed
  show ?thesis
    apply (rule exI [of _ w1])
    apply (rule exI [of _ w2])
    apply (intro conjI impI)
                 apply (rule W1)
                apply (rule W2)
               apply (rule k1)
              apply (rule k2)
             apply (rule kw)
            apply (rule ks)
           apply (rule i1)
          apply (rule i2)
         apply (rule d1)
        apply (rule d2)
       apply (erule c1)
      apply (erule c2)
     apply (erule a1)
    apply (erule a2)
    done
qed

text \<open>
  C5 as stated fails on a weekend: Friday 2026-11-06 12:00 and Saturday 2026-11-07 12:00
  have the same key, that of Monday 2026-11-02, and the Saturday instant lies in no
  window: not in its own, as \<open>is_in_workweek\<close> says, and not in that of the Friday.
\<close>

theorem period_key_workweek_same_window_counterexample:
  "period_key_workweek (combine 739926 (720 * MINUTE) (Some 3600000000))
     = period_key_workweek (combine 739927 (720 * MINUTE) (Some 3600000000))
   \<and> period_key_workweek (combine 739927 (720 * MINUTE) (Some 3600000000))
     = Inr ''workweek:2026-11-02''
   \<and> is_in_workweek (combine 739927 (720 * MINUTE) (Some 3600000000)) = Inr False
   \<and> \<not> lies_in (combine 739927 (720 * MINUTE) (Some 3600000000))
       (projr (workweek_window_for (combine 739927 (720 * MINUTE) (Some 3600000000))))
   \<and> \<not> lies_in (combine 739927 (720 * MINUTE) (Some 3600000000))
       (projr (workweek_window_for (combine 739926 (720 * MINUTE) (Some 3600000000))))"
proof -
  let ?fri = "combine 739926 (720 * MINUTE) (Some 3600000000)"
  let ?sat = "combine 739927 (720 * MINUTE) (Some 3600000000)"
  have df: "date_of ?fri = 739926" by (simp add: date_of_def combine_def DAY_def MINUTE_def)
  have ds: "date_of ?sat = 739927" by (simp add: date_of_def combine_def DAY_def MINUTE_def)
  have wf: "weekday ?fri = 4" by (simp add: weekday_def date_weekday_def df)
  have ws: "weekday ?sat = 5" by (simp add: weekday_def date_weekday_def ds)
  have tf: "tzinfo ?fri = Some 3600000000" by (simp add: combine_def)
  have ts: "tzinfo ?sat = Some 3600000000" by (simp add: combine_def)
  have iso: "isoformat 739922 = ''2026-11-02''" by code_simp
  have kf: "period_key_workweek ?fri = Inr ''workweek:2026-11-02''"
    unfolding period_key_workweek_aware [OF tf] df wf by (simp add: iso)
  have ks: "period_key_workweek ?sat = Inr ''workweek:2026-11-02''"
    unfolding period_key_workweek_aware [OF ts] ds ws by (simp add: iso)
  have i: "is_in_workweek ?sat = Inr False"
    unfolding is_in_workweek_aware [OF ts] ws by simp
  have l1: "\<not> lies_in ?sat (projr (workweek_window_for ?sat))"
    unfolding workweek_window_for_aware [OF ts] sum.sel lies_in_window_iff [OF ts] ds ws by simp
  have l2: "\<not> lies_in ?sat (projr (workweek_window_for ?fri))"
    unfolding workweek_window_for_aware [OF tf] sum.sel lies_in_window_iff [OF ts] ds df wf by simp
  show ?thesis
    apply (intro conjI)
        apply (simp only: kf ks)
       apply (rule ks)
      apply (rule i)
     apply (rule l1)
    apply (rule l2)
    done
qed

text \<open>
  Friday 2026-11-06 12:00 and Monday 2026-11-09 09:00 lie in their windows, the windows
  differ, and so do the keys.
\<close>

theorem period_key_workweek_same_window_witness:
  "tzinfo (combine 739926 (720 * MINUTE) (Some 3600000000)) = Some 3600000000
   \<and> tzinfo (combine 739929 (540 * MINUTE) (Some 3600000000)) = Some 3600000000
   \<and> lies_in (combine 739926 (720 * MINUTE) (Some 3600000000))
       (projr (workweek_window_for (combine 739926 (720 * MINUTE) (Some 3600000000))))
   \<and> lies_in (combine 739929 (540 * MINUTE) (Some 3600000000))
       (projr (workweek_window_for (combine 739929 (540 * MINUTE) (Some 3600000000))))
   \<and> workweek_window_for (combine 739926 (720 * MINUTE) (Some 3600000000))
       \<noteq> workweek_window_for (combine 739929 (540 * MINUTE) (Some 3600000000))
   \<and> period_key_workweek (combine 739926 (720 * MINUTE) (Some 3600000000))
       \<noteq> period_key_workweek (combine 739929 (540 * MINUTE) (Some 3600000000))"
proof -
  let ?fri = "combine 739926 (720 * MINUTE) (Some 3600000000)"
  let ?mon = "combine 739929 (540 * MINUTE) (Some 3600000000)"
  have df: "date_of ?fri = 739926" by (simp add: date_of_def combine_def DAY_def MINUTE_def)
  have dm: "date_of ?mon = 739929" by (simp add: date_of_def combine_def DAY_def MINUTE_def)
  have wf: "weekday ?fri = 4" by (simp add: weekday_def date_weekday_def df)
  have wm: "weekday ?mon = 0" by (simp add: weekday_def date_weekday_def dm)
  have tf: "tzinfo ?fri = Some 3600000000" by (simp add: combine_def)
  have tm: "tzinfo ?mon = Some 3600000000" by (simp add: combine_def)
  have ne: "workweek_window_for ?fri \<noteq> workweek_window_for ?mon"
    unfolding workweek_window_for_aware [OF tf] workweek_window_for_aware [OF tm] df dm wf wm
    by (simp only: sum.inject window_eq_iff)
  have l1: "lies_in ?fri (projr (workweek_window_for ?fri))"
    unfolding workweek_window_for_aware [OF tf] sum.sel lies_in_window_iff [OF tf] df wf by simp
  have l2: "lies_in ?mon (projr (workweek_window_for ?mon))"
    unfolding workweek_window_for_aware [OF tm] sum.sel lies_in_window_iff [OF tm] dm wm by simp
  from period_key_workweek_same_window [OF tf tm] ne
  have "period_key_workweek ?fri \<noteq> period_key_workweek ?mon" by auto
  with tf tm l1 l2 ne show ?thesis by (intro conjI)
qed

end
